(* ===== verification/Prelude.thy ===== *)
theory Prelude
  imports Main "HOL-Library.Word" "HOL-Library.Sublist"
begin

text \<open>
  Shared ground of the development: the Go string operations the provider uses
  (package strings, strconv and the fmt verbs), Go's time values, optional values, and the
  theorem collections the component theories add to.

  Go strings are byte strings, so they are modelled as \<^typ>\<open>string\<close> (a list of
  8-bit characters).
\<close>

section \<open>Theorem collections\<close>

named_theorems io_run \<open>unfolding one run of an effectful operation\<close>
named_theorems calls_intro \<open>introduction rules for the calls an operation can make\<close>
named_theorems runs_intro \<open>rules for what an operation does in one environment\<close>
named_theorems marks_intro \<open>rules for the calls a successful run has made\<close>
named_theorems precedes_intro \<open>rules for the order of calls\<close>
named_theorems always_intro \<open>rules for what an operation leaves behind\<close>
named_theorems go_simps \<open>characteristic equations of the Go library operations\<close>

section \<open>Strings\<close>

text \<open>strings.HasPrefix and strings.HasSuffix.\<close>

definition has_prefix :: "string \<Rightarrow> string \<Rightarrow> bool" where
  "has_prefix s p \<longleftrightarrow> take (length p) s = p"

definition has_suffix :: "string \<Rightarrow> string \<Rightarrow> bool" where
  "has_suffix s p \<longleftrightarrow> length p \<le> length s \<and> drop (length s - length p) s = p"

text \<open>strings.Contains.\<close>

fun contains_str :: "string \<Rightarrow> string \<Rightarrow> bool" where
  "contains_str [] p = has_prefix [] p"
| "contains_str (x # xs) p = (has_prefix (x # xs) p \<or> contains_str xs p)"

text \<open>strings.Join.\<close>

fun join_str :: "string list \<Rightarrow> string \<Rightarrow> string" where
  "join_str [] sep = []"
| "join_str [x] sep = x"
| "join_str (x # y # xs) sep = x @ sep @ join_str (y # xs) sep"

text \<open>strings.TrimRight with a one-character cut set.\<close>

definition trim_right :: "string \<Rightarrow> char \<Rightarrow> string" where
  "trim_right s x = rev (dropWhile (\<lambda>y. y = x) (rev s))"

text \<open>Numbers in base 10 and base 16 (the %d verb, strconv.FormatUint).\<close>

definition hex_digits :: string where "hex_digits = ''0123456789abcdef''"

fun nat_base :: "nat \<Rightarrow> nat \<Rightarrow> string" where
  "nat_base b n =
     (if b < 2 \<or> n < b then [hex_digits ! n]
      else nat_base b (n div b) @ [hex_digits ! (n mod b)])"

declare nat_base.simps [simp del]

definition itoa :: "int \<Rightarrow> string" where
  "itoa i = (if i < 0 then ''-'' @ nat_base 10 (nat (- i)) else nat_base 10 (nat i))"

text \<open>The %q verb: a double-quoted Go literal. Bytes above 0x7E other than DEL are left as they are:
  they are parts of printable UTF-8 in the strings the provider formats.\<close>

definition quote_char :: "char \<Rightarrow> string" where
  "quote_char x =
     (if x = CHR 0x22 then [CHR 0x5C, CHR 0x22]
      else if x = CHR 0x5C then [CHR 0x5C, CHR 0x5C]
      else if x = CHR 0x07 then [CHR 0x5C, CHR ''a'']
      else if x = CHR 0x08 then [CHR 0x5C, CHR ''b'']
      else if x = CHR 0x09 then [CHR 0x5C, CHR ''t'']
      else if x = CHR 0x0A then [CHR 0x5C, CHR ''n'']
      else if x = CHR 0x0B then [CHR 0x5C, CHR ''v'']
      else if x = CHR 0x0C then [CHR 0x5C, CHR ''f'']
      else if x = CHR 0x0D then [CHR 0x5C, CHR ''r'']
      else if of_char x < (32 :: nat) \<or> x = CHR 0x7F
        then [CHR 0x5C, CHR ''x'', hex_digits ! (of_char x div 16),
              hex_digits ! (of_char x mod 16)]
      else [x])"

definition go_quote :: "string \<Rightarrow> string" where
  "go_quote s = [CHR 0x22] @ concat (map quote_char s) @ [CHR 0x22]"

text \<open>strconv.Atoi: an optional sign and at least one decimal digit, within 64 bits.\<close>

definition digit_value :: "char \<Rightarrow> int option" where
  "digit_value x = (let n = of_char x :: int in if 48 \<le> n \<and> n \<le> 57 then Some (n - 48) else None)"

fun parse_digits :: "int \<Rightarrow> string \<Rightarrow> int option" where
  "parse_digits acc [] = Some acc"
| "parse_digits acc (x # xs) =
     (case digit_value x of None \<Rightarrow> None | Some d \<Rightarrow> parse_digits (10 * acc + d) xs)"

definition atoi :: "string \<Rightarrow> int option" where
  "atoi s =
     (let (neg, ds) = (case s of
            [] \<Rightarrow> (False, [])
          | x # xs \<Rightarrow> (if x = CHR ''-'' then (True, xs) else if x = CHR ''+'' then (False, xs) else (False, s)))
      in if ds = [] then None
         else (case parse_digits 0 ds of
                 None \<Rightarrow> None
               | Some n \<Rightarrow> (let v = (if neg then - n else n) in
                   if - (2 ^ 63) \<le> v \<and> v < 2 ^ 63 then Some v else None)))"

subsection \<open>Facts about strings\<close>

lemma has_prefix_iff: "has_prefix s p \<longleftrightarrow> (\<exists>r. s = p @ r)"
  by (metis append_eq_conv_conj append_take_drop_id has_prefix_def)

lemma has_suffix_iff: "has_suffix s p \<longleftrightarrow> (\<exists>r. s = r @ p)"
  unfolding has_suffix_def
  by (metis add_diff_cancel_right' append_eq_conv_conj append_take_drop_id le_add2 length_append)

lemma contains_str_iff: "contains_str s p \<longleftrightarrow> (\<exists>a b. s = a @ p @ b)"
proof (induction s)
  case Nil
  then show ?case by (simp add: has_prefix_iff)
next
  case (Cons x xs)
  have "(\<exists>a b. x # xs = a @ p @ b) \<longleftrightarrow>
      (\<exists>b. x # xs = p @ b) \<or> (\<exists>a b. xs = a @ p @ b)"
    by (metis append_Cons append_Nil list.sel(3) tl_append2)
  with Cons.IH show ?case by (simp add: has_prefix_iff)
qed

lemma trim_right_prefix: "\<exists>r. s = trim_right s x @ r \<and> set r \<subseteq> {x}"
proof -
  have "rev s = takeWhile (\<lambda>y. y = x) (rev s) @ dropWhile (\<lambda>y. y = x) (rev s)"
    by simp
  then have "s = rev (dropWhile (\<lambda>y. y = x) (rev s)) @ rev (takeWhile (\<lambda>y. y = x) (rev s))"
    by (metis rev_append rev_rev_ident)
  moreover have "set (rev (takeWhile (\<lambda>y. y = x) (rev s))) \<subseteq> {x}"
    by (auto dest: set_takeWhileD)
  ultimately show ?thesis unfolding trim_right_def by blast
qed

lemma length_trim_right: "length (trim_right s x) \<le> length s"
  by (metis le_add1 length_append trim_right_prefix)

lemma set_trim_right: "set (trim_right s x) \<subseteq> set s"
  by (metis Un_upper1 set_append trim_right_prefix)

lemma nat_base_nonempty: "nat_base b n \<noteq> []"
  by (subst nat_base.simps) simp

lemma nat_base_digits:
  assumes "2 \<le> b" "b \<le> 16"
  shows "set (nat_base b n) \<subseteq> set hex_digits"
  using assms
proof (induction b n rule: nat_base.induct)
  case (1 b n)
  have mem: "i < b \<Longrightarrow> hex_digits ! i \<in> set hex_digits" for i
    using 1(3) by (intro nth_mem) (simp add: hex_digits_def)
  show ?case
  proof (cases "n < b")
    case True
    then show ?thesis using 1(2) mem by (subst nat_base.simps) simp
  next
    case False
    moreover have "n mod b < b" using 1(2) by simp
    ultimately show ?thesis
      using "1.IH" 1(2,3) mem [of "n mod b"]
      by (subst nat_base.simps) simp
  qed
qed

lemma length_nat_base:
  assumes "2 \<le> b" "n < b ^ k" "0 < k"
  shows "length (nat_base b n) \<le> k"
  using assms
proof (induction k arbitrary: n)
  case 0
  then show ?case by simp
next
  case (Suc k)
  show ?case
  proof (cases "n < b")
    case True
    then show ?thesis by (subst nat_base.simps) simp
  next
    case False
    with Suc.prems have "0 < k" by (cases k) auto
    moreover have "n div b < b ^ k"
      using Suc.prems by (simp add: less_mult_imp_div_less mult.commute)
    ultimately have "length (nat_base b (n div b)) \<le> k"
      using Suc.IH Suc.prems(1) by simp
    with False Suc.prems(1) show ?thesis by (subst nat_base.simps) simp
  qed
qed

section \<open>Time\<close>

text \<open>
  A time.Time is an instant: nanoseconds since the Unix epoch. Go's zero Time is the first
  instant of year 1, which is what \<open>IsZero\<close> tests for; a nil pointer to a
  time counts as zero too. A time.Duration is a number of nanoseconds.
\<close>

type_synonym time = int
type_synonym duration = int

definition second :: duration where "second = 1000000000"
definition minute :: duration where "minute = 60 * second"
definition hour :: duration where "hour = 60 * minute"

definition time_zero :: time where "time_zero = - 62135596800 * second"

definition time_is_zero :: "time \<Rightarrow> bool" where
  "time_is_zero t \<longleftrightarrow> t = time_zero"

definition time_ptr_is_zero :: "time option \<Rightarrow> bool" where
  "time_ptr_is_zero p = (case p of None \<Rightarrow> True | Some t \<Rightarrow> time_is_zero t)"

text \<open>Time.Sub saturates at the smallest and largest Duration.\<close>

definition time_sub :: "time \<Rightarrow> time \<Rightarrow> duration" where
  "time_sub a b = max (- (2 ^ 63)) (min (2 ^ 63 - 1) (a - b))"

lemma time_ptr_is_zero_None [simp]: "time_ptr_is_zero None"
  by (simp add: time_ptr_is_zero_def)

section \<open>Integer division\<close>

text \<open>Go's integer division truncates towards zero.\<close>

definition go_div :: "int \<Rightarrow> int \<Rightarrow> int" where
  "go_div a b = sgn a * sgn b * (\<bar>a\<bar> div \<bar>b\<bar>)"

lemma go_div_nonneg: "0 \<le> a \<Longrightarrow> 0 < b \<Longrightarrow> go_div a b = a div b"
  by (cases "a = 0") (simp_all add: go_div_def)

section \<open>Lists and options\<close>

lemma filter_eq_NilD: "filter P xs = [] \<Longrightarrow> x \<in> set xs \<Longrightarrow> \<not> P x"
  by (simp add: filter_empty_conv)

text \<open>The first element a predicate holds for splits the list.\<close>

lemma find_SomeD: "find P xs = Some x \<Longrightarrow> x \<in> set xs \<and> P x"
  by (induction xs) (auto split: if_splits)

lemma split_Cons_all:
  "(\<forall>xs y ys. x # zs = xs @ y # ys \<longrightarrow> Q xs y) \<longleftrightarrow>
     Q [] x \<and> (\<forall>xs y ys. zs = xs @ y # ys \<longrightarrow> Q (x # xs) y)"
proof -
  have "x # zs = xs @ y # ys \<longleftrightarrow>
      (xs = [] \<and> y = x \<and> ys = zs) \<or> (\<exists>xs'. xs = x # xs' \<and> zs = xs' @ y # ys)" for xs y ys
    by (cases xs) auto
  then show ?thesis by (auto 4 3)
qed

lemma separator_append_inject:
  assumes "x \<notin> set a" "x \<notin> set b" "a @ x # c = b @ x # d"
  shows "a = b \<and> c = d"
proof -
  have "takeWhile (\<lambda>y. y \<noteq> x) (a @ x # c) = a"
    using assms(1) by (intro takeWhile_tail [THEN trans]) (auto simp: takeWhile_append)
  moreover have "takeWhile (\<lambda>y. y \<noteq> x) (b @ x # d) = b"
    using assms(2) by (intro takeWhile_tail [THEN trans]) (auto simp: takeWhile_append)
  ultimately have "a = b" using assms(3) by simp
  then show ?thesis using assms(3) by simp
qed

section \<open>Guarded updates\<close>

text \<open>
  Many of the provider's rules reject a requested change of some state (a version, a volume
  size, a certificate source) or let it through. A run takes a list of requests and performs the
  accepted ones.
\<close>

fun guarded_run :: "('s \<Rightarrow> 'r \<Rightarrow> bool) \<Rightarrow> ('s \<Rightarrow> 'r \<Rightarrow> 's) \<Rightarrow> 's \<Rightarrow> 'r list \<Rightarrow> 's" where
  "guarded_run ok upd s [] = s"
| "guarded_run ok upd s (r # rs) = guarded_run ok upd (if ok s r then upd s r else s) rs"

lemma guarded_run_steps: "(\<lambda>s s'. \<exists>r. ok s r \<and> s' = upd s r)\<^sup>*\<^sup>* s (guarded_run ok upd s rs)"
proof (induction rs arbitrary: s)
  case (Cons r rs)
  show ?case
  proof (cases "ok s r")
    case True
    then have "\<exists>r'. ok s r' \<and> upd s r = upd s r'" by blast
    then show ?thesis using True Cons.IH [of "upd s r"] by (simp add: converse_rtranclp_into_rtranclp)
  qed (simp add: Cons.IH)
qed simp

text \<open>Steps that only go one way: every step moves the state along a preorder.\<close>

locale one_way =
  fixes step :: "'s \<Rightarrow> 's \<Rightarrow> bool"
    and le :: "'s \<Rightarrow> 's \<Rightarrow> bool"
  assumes le_refl: "le s s"
    and le_trans: "le s s' \<Longrightarrow> le s' s'' \<Longrightarrow> le s s''"
    and step_le: "step s s' \<Longrightarrow> le s s'"
begin

lemma steps_le: "step\<^sup>*\<^sup>* s s' \<Longrightarrow> le s s'"
  by (induction rule: rtranclp_induct) (blast intro: le_refl le_trans step_le)+

end

text \<open>The contract of a rule that guards updates: every accepted request moves the state along a preorder.\<close>

locale guarded_update =
  fixes ok :: "'s \<Rightarrow> 'r \<Rightarrow> bool"
    and upd :: "'s \<Rightarrow> 'r \<Rightarrow> 's"
    and le :: "'s \<Rightarrow> 's \<Rightarrow> bool"
  assumes le_refl: "le s s"
    and le_trans: "le s s' \<Longrightarrow> le s' s'' \<Longrightarrow> le s s''"
    and le_step: "ok s r \<Longrightarrow> le s (upd s r)"

sublocale guarded_update \<subseteq> accepted: one_way "\<lambda>s s'. \<exists>r. ok s r \<and> s' = upd s r" le
  by unfold_locales (use le_refl le_trans le_step in blast)+

context guarded_update
begin

lemma run_le: "le s (guarded_run ok upd s rs)"
  by (rule accepted.steps_le [OF guarded_run_steps])

end

end
