(* ===== verification/Objects.thy ===== *)
theory Objects
  imports Prelude
begin

text \<open>
  The data the provider reads and writes. The Kubernetes, TiDB Operator, OpenEverest,
  cert-manager and monitoring types come from other modules; a record here holds the
  fields of such a type that the provider uses. The topology and component parameter
  types and the constants of internal/common/spec.go are the provider's own.

  A nil pointer is \<^const>\<open>None\<close>; a map is a partial function; a resource.Quantity is
  its serialised form, and every operation on it is a parameter (theory Runtime).
\<close>

section \<open>Constants: internal/common/spec.go\<close>

definition ProviderName :: string where "ProviderName = ''tidb''"

datatype comp = PD | TiKV | TiDB | TiFlash | TiProxy

text \<open>The component names (ComponentPD and so on).\<close>

fun comp_name :: "comp \<Rightarrow> string" where
  "comp_name PD = ''pd''"
| "comp_name TiKV = ''tikv''"
| "comp_name TiDB = ''tidb''"
| "comp_name TiFlash = ''tiflash''"
| "comp_name TiProxy = ''tiproxy''"

lemma comp_name_inject [simp]: "comp_name a = comp_name b \<longleftrightarrow> a = b"
  by (cases a; cases b) simp_all

definition TopologyCluster :: string where "TopologyCluster = ''cluster''"

section \<open>Topology and component parameters: definition/\<close>

text \<open>definition/topologies/cluster/types.go. The label maps are lists in the order Go happens to
  iterate over them, each key once.\<close>

record Prometheus =
  pr_Enabled :: bool
  pr_Interval :: string
  pr_PodMonitorLabels :: "(string \<times> string) list"

record VictoriaMetrics =
  vm_Enabled :: bool
  vm_Interval :: string
  vm_PodScrapeLabels :: "(string \<times> string) list"

record Monitoring =
  mon_Prometheus :: "Prometheus option"
  mon_VictoriaMetrics :: "VictoriaMetrics option"

record IssuerRef =
  ir_Name :: string
  ir_Kind :: string

record CertManager =
  cm_Enabled :: bool
  cm_IssuerRef :: "IssuerRef option"

record TLS =
  tls_Cluster :: bool
  tls_Client :: bool
  tls_CertManager :: "CertManager option"

record ClusterTopologyParameters =
  tp_Monitoring :: "Monitoring option"
  tp_TLS :: "TLS option"

text \<open>The zero value of the TLS struct.\<close>

definition zero_TLS :: TLS where
  "zero_TLS = \<lparr>tls_Cluster = False, tls_Client = False, tls_CertManager = None\<rparr>"

text \<open>definition/components/types.go: every component's parameters are one inline TOML file.\<close>

record PdParameters =
  pp_Config :: string

record TikvParameters =
  kp_Config :: string

record TidbParameters =
  dp_Config :: string

record TiflashParameters =
  fp_Config :: string

record TiproxyParameters =
  xp_Config :: string

section \<open>Kubernetes objects\<close>

type_synonym uid = string
type_synonym quantity = string
type_synonym labels = "string \<rightharpoonup> string"

record owner_ref =
  or_kind :: string
  or_name :: string
  or_uid :: uid
  or_controller :: bool

record obj_meta =
  om_name :: string
  om_namespace :: string
  om_uid :: uid
  om_labels :: labels
  om_annotations :: labels
  om_created :: time
  om_deletion :: "time option"
  om_owners :: "owner_ref list"
  om_finalizers :: "string list"

definition bare_meta :: "string \<Rightarrow> string \<Rightarrow> obj_meta" where
  "bare_meta ns n = \<lparr>om_name = n, om_namespace = ns, om_uid = '''', om_labels = Map.empty,
     om_annotations = Map.empty, om_created = time_zero, om_deletion = None, om_owners = [],
     om_finalizers = []\<rparr>"

text \<open>DeletionTimestamp.IsZero(): the object is not being deleted.\<close>

definition not_deleting :: "obj_meta \<Rightarrow> bool" where
  "not_deleting m = time_ptr_is_zero (om_deletion m)"

text \<open>Indexing a Go map gives the zero value for a missing key.\<close>

definition lookup_str :: "labels \<Rightarrow> string \<Rightarrow> string" where
  "lookup_str m k = (case m k of None \<Rightarrow> '''' | Some v \<Rightarrow> v)"

record secret =
  sec_meta :: obj_meta
  sec_type :: string
  sec_data :: "string \<rightharpoonup> string"

record config_map =
  cmap_meta :: obj_meta
  cmap_data :: "string \<rightharpoonup> string"

datatype cond_status = CondTrue | CondFalse | CondUnknown

record condition =
  cond_type :: string
  cond_status :: cond_status
  cond_message :: string

section \<open>TiDB Operator: Cluster and component groups\<close>

text \<open>TLSCluster and ClusterSecurity are pointers in ClusterSpec; the session token
  reference is a pointer in turn.\<close>

record cluster_security =
  cs_session_token_ref :: "string option"

record cluster =
  cl_meta :: obj_meta
  cl_bootstrap_sql :: "string option"
  cl_tls :: "bool option"
  cl_gates :: "string list"
  cl_security :: "cluster_security option"

record volume =
  vol_name :: string
  vol_mount :: string
  vol_storage :: quantity
  vol_class :: "string option"

record container =
  ct_name :: string
  ct_image :: string
  ct_command :: "string list"
  ct_env :: "(string \<times> string) list"
  ct_requests :: "(string \<times> quantity) list"
  ct_limits :: "(string \<times> quantity) list"

text \<open>The pod fields the overlay sets; affinity, tolerations and spread constraints are
  copied unread, so they are kept serialised.\<close>

record pod_spec =
  ps_scheduler :: string
  ps_node_selector :: "(string \<times> string) list"
  ps_affinity :: "string option"
  ps_tolerations :: "string list"
  ps_spread :: "string list"
  ps_init :: "container list"

definition empty_pod_spec :: pod_spec where
  "empty_pod_spec = \<lparr>ps_scheduler = '''', ps_node_selector = [], ps_affinity = None,
     ps_tolerations = [], ps_spread = [], ps_init = []\<rparr>"

record pod_overlay =
  po_labels :: labels
  po_spec :: "pod_spec option"

record overlay =
  ov_pod :: "pod_overlay option"

definition empty_pod_overlay :: pod_overlay where
  "empty_pod_overlay = \<lparr>po_labels = Map.empty, po_spec = None\<rparr>"

text \<open>CommonStatus and GroupStatus.\<close>

record group_status =
  gs_conditions :: "condition list"
  gs_update_revision :: string
  gs_current_revision :: string
  gs_replicas :: int
  gs_ready :: int
  gs_updated :: int
  gs_current :: int
  gs_version :: string

definition zero_group_status :: group_status where
  "zero_group_status = \<lparr>gs_conditions = [], gs_update_revision = '''', gs_current_revision = '''',
     gs_replicas = 0, gs_ready = 0, gs_updated = 0, gs_current = 0, gs_version = ''''\<rparr>"

text \<open>
  PDGroup, TiKVGroup, TiDBGroup, TiFlashGroup and TiProxyGroup have the same shape in
  everything the provider reads and sets, so one record with the component stands for the
  five. \<open>g_mysql_tls\<close> is Security.TLS.MySQL.Enabled (\<^const>\<open>None\<close> when a pointer
  on the way is nil), \<open>g_backend_tls\<close> is TiProxy's Security.TLS.Backend.Enabled;
  replicas are 32-bit and never computed with, so integers.
\<close>

record group =
  g_meta :: obj_meta
  g_comp :: comp
  g_cluster :: string
  g_features :: "string list"
  g_replicas :: "int option"
  g_version :: string
  g_image :: "string option"
  g_cpu :: "quantity option"
  g_memory :: "quantity option"
  g_volumes :: "volume list"
  g_config :: string
  g_overlay :: "overlay option"
  g_mysql_tls :: "bool option"
  g_backend_tls :: "bool option"
  g_status :: group_status

text \<open>One PD, TiKV, TiDB, TiFlash or TiProxy member.\<close>

record member =
  mb_name :: string
  mb_conditions :: "condition list"
  mb_features :: "string list"

section \<open>OpenEverest: Instance, Backup, Restore, BackupStorage\<close>

record storage =
  st_size :: quantity
  st_class :: "string option"

record policy =
  pol_scheduler :: string
  pol_node_selector :: "(string \<times> string) list"
  pol_affinity :: "string option"
  pol_tolerations :: "string list"
  pol_spread :: string

text \<open>ComponentSpec; the limits of the resource requirements are the only part the
  provider reads of them.\<close>

record component_spec =
  co_replicas :: "int option"
  co_version :: string
  co_image :: string
  co_resources :: "(string \<rightharpoonup> quantity) option"
  co_storage :: "storage option"
  co_policy :: "policy option"
  co_parameters :: "string option"

definition zero_component :: component_spec where
  "zero_component = \<lparr>co_replicas = None, co_version = '''', co_image = '''', co_resources = None,
     co_storage = None, co_policy = None, co_parameters = None\<rparr>"

definition component_of :: "(string \<rightharpoonup> component_spec) \<Rightarrow> comp \<Rightarrow> component_spec" where
  "component_of comps k = (case comps (comp_name k) of None \<Rightarrow> zero_component | Some c \<Rightarrow> c)"

datatype retention_type = RetentionCount | RetentionTime | RetentionOther string

record retention =
  rt_type :: retention_type
  rt_count :: "int option"
  rt_duration :: string

record schedule =
  sch_name :: string
  sch_enabled :: bool
  sch_cron :: string
  sch_retention :: "retention option"
  sch_parameters :: "string option"

record backup_storage_ref =
  bs_ref :: string
  bs_schedules :: "schedule list"
  bs_pitr :: "bool option"

record instance_backup =
  ib_enabled :: bool
  ib_class :: string
  ib_storages :: "backup_storage_ref list"

datatype phase = PhProvisioning | PhReady | PhUpdating | PhRestoring | PhFailed | PhOther string

record topology =
  to_parameters :: "string option option"

record inst =
  in_meta :: obj_meta
  in_provider :: string
  in_components :: "string \<rightharpoonup> component_spec"
  in_version :: string
  in_topology :: "topology option"
  in_backup :: "instance_backup option"
  in_has_data_source :: bool
  in_phase :: phase

datatype backup_state = BkNone | BkPending | BkRunning | BkSucceeded | BkFailed

datatype deletion_policy = PolicyDelete | PolicyRetain | PolicyUnset

record backup =
  bk_meta :: obj_meta
  bk_instance :: "string option"
  bk_class :: string
  bk_storage :: string
  bk_schedule :: string
  bk_policy :: deletion_policy
  bk_parameters :: "string option"
  bk_state :: backup_state

text \<open>A Restore's data source: its type, the backup it names and the point in time.\<close>

datatype ds_type = DsBackup | DsPointInTime | DsOther string
datatype recovery_target = RecoverLatest | RecoverDate

record pit_source =
  pit_storage :: string
  pit_target :: recovery_target
  pit_date :: time

record restore =
  rs_meta :: obj_meta
  rs_instance :: string
  rs_type :: ds_type
  rs_backup :: "string option"
  rs_pit :: "pit_source option"

record s3_spec =
  s3_bucket :: string
  s3_region :: string
  s3_endpoint :: string

record backup_storage =
  bst_name :: string
  bst_s3 :: "s3_spec option"

section \<open>BR: Backup and Restore of br.pingcap.com\<close>

datatype s3_provider = S3AWS | S3Other

record s3_storage =
  ss_provider :: s3_provider
  ss_region :: string
  ss_bucket :: string
  ss_endpoint :: string
  ss_prefix :: string
  ss_secret :: string

datatype br_mode = ModeSnapshot | ModeLog | ModeUnset
datatype clean_policy = CleanDelete | CleanRetain | CleanUnset
datatype br_phase = BrNone | BrScheduled | BrRunning | BrPrepare | BrComplete | BrFailed
  | BrInvalid | BrCleanFailed | BrOther string

record br_config =
  brc_cluster :: string
  brc_namespace :: string

record br_backup =
  bb_meta :: obj_meta
  bb_account :: string
  bb_full :: bool
  bb_mode :: br_mode
  bb_log_start :: bool
  bb_clean :: clean_policy
  bb_s3 :: "s3_storage option"
  bb_br :: "br_config option"
  bb_phase :: br_phase
  bb_started :: time
  bb_completed :: time
  bb_size :: string
  bb_conditions :: "condition list"
  bb_commit_ts :: string
  bb_checkpoint_ts :: string
  bb_truncate_ts :: string

record br_restore =
  br_meta :: obj_meta
  br_account :: string
  br_full :: bool
  br_pitr :: bool
  br_s3 :: "s3_storage option"
  br_full_s3 :: "s3_storage option"
  br_restored_ts :: string
  br_br :: "br_config option"
  br_phase :: br_phase
  br_started :: time
  br_completed :: time
  br_conditions :: "condition list"

definition zero_br_backup :: "string \<Rightarrow> string \<Rightarrow> br_backup" where
  "zero_br_backup ns n = \<lparr>bb_meta = bare_meta ns n, bb_account = '''', bb_full = False,
     bb_mode = ModeUnset, bb_log_start = False, bb_clean = CleanUnset, bb_s3 = None, bb_br = None,
     bb_phase = BrNone, bb_started = time_zero, bb_completed = time_zero, bb_size = '''',
     bb_conditions = [], bb_commit_ts = '''', bb_checkpoint_ts = '''', bb_truncate_ts = ''''\<rparr>"

definition zero_br_restore :: "string \<Rightarrow> string \<Rightarrow> br_restore" where
  "zero_br_restore ns n = \<lparr>br_meta = bare_meta ns n, br_account = '''', br_full = False,
     br_pitr = False, br_s3 = None, br_full_s3 = None, br_restored_ts = '''', br_br = None,
     br_phase = BrNone, br_started = time_zero, br_completed = time_zero, br_conditions = []\<rparr>"

section \<open>cert-manager and monitoring objects\<close>

record issuer_reference =
  iref_name :: string
  iref_kind :: string
  iref_group :: string

datatype issuer_config = SelfSigned | CAFrom string

record issuer =
  is_meta :: obj_meta
  is_config :: issuer_config

datatype key_usage = UsageDigitalSignature | UsageKeyEncipherment | UsageServerAuth | UsageClientAuth

record certificate =
  ce_meta :: obj_meta
  ce_is_ca :: bool
  ce_common_name :: string
  ce_organizations :: "string list"
  ce_dns_names :: "string list"
  ce_ips :: "string list"
  ce_secret :: string
  ce_duration :: duration
  ce_usages :: "key_usage list"
  ce_issuer :: issuer_reference

text \<open>crypto/x509: a parsed Certificate (its DER, the one field the provider reads, and what CheckSignatureFrom reads
  of a parent: BasicConstraintsValid, IsCA, KeyUsage and the public key) and the parts of a
  Certificate template it fills in. A crypto/rsa private key is kept serialised.\<close>

datatype ext_usage = ServerAuth | ClientAuth
datatype x509_usage = CertSign | CRLSign | DigitalSignature | KeyEncipherment

record x509_cert =
  xc_raw :: string
  xc_not_after :: time
  xc_constraints :: bool
  xc_is_ca :: bool
  xc_usage :: "x509_usage list"
  xc_public :: string

type_synonym rsa_key = string

record cert_template =
  xt_serial :: nat
  xt_common_name :: string
  xt_organization :: "string list"
  xt_not_before :: time
  xt_not_after :: time
  xt_usage :: "x509_usage list"
  xt_ext_usage :: "ext_usage list"
  xt_constraints :: bool
  xt_is_ca :: bool
  xt_dns :: "string list"
  xt_ips :: "string list"

record scrape_tls =
  stl_secret :: string
  stl_ca_key :: string
  stl_cert_key :: string
  stl_key_key :: string
  stl_server_name :: string

record scrape_endpoint =
  se_port :: string
  se_path :: string
  se_interval :: string
  se_keep :: "string \<times> string"
  se_tls :: "scrape_tls option"

record scrape_object =
  so_meta :: obj_meta
  so_selector :: "(string \<times> string) list"
  so_target_labels :: "string list"
  so_endpoints :: "scrape_endpoint list"

record policy_rule =
  ru_groups :: "string list"
  ru_resources :: "string list"
  ru_verbs :: "string list"

section \<open>Any object\<close>

datatype kind = KCluster | KGroup comp | KMember comp | KSecret | KConfigMap | KBackup
  | KBRBackup | KBRRestore | KCertificate | KIssuer | KPodMonitor | KVMPodScrape
  | KServiceAccount | KRole | KRoleBinding | KInstance | KRestore

datatype obj = OCluster cluster | OGroup group | OSecret secret | OConfigMap config_map
  | OBackup backup | OBRBackup br_backup | OBRRestore br_restore
  | OCertificate certificate | OIssuer issuer | OPodMonitor scrape_object
  | OVMPodScrape scrape_object | OServiceAccount obj_meta
  | ORole obj_meta "policy_rule list"
  | ORoleBinding obj_meta "string \<times> string \<times> string" "string \<times> string \<times> string"
  | ORestore restore | OMember comp obj_meta | OInstance inst

fun obj_kind :: "obj \<Rightarrow> kind" where
  "obj_kind (OCluster _) = KCluster"
| "obj_kind (OGroup g) = KGroup (g_comp g)"
| "obj_kind (OSecret _) = KSecret"
| "obj_kind (OConfigMap _) = KConfigMap"
| "obj_kind (OBackup _) = KBackup"
| "obj_kind (OBRBackup _) = KBRBackup"
| "obj_kind (OBRRestore _) = KBRRestore"
| "obj_kind (OCertificate _) = KCertificate"
| "obj_kind (OIssuer _) = KIssuer"
| "obj_kind (OPodMonitor _) = KPodMonitor"
| "obj_kind (OVMPodScrape _) = KVMPodScrape"
| "obj_kind (OServiceAccount _) = KServiceAccount"
| "obj_kind (ORole _ _) = KRole"
| "obj_kind (ORoleBinding _ _ _) = KRoleBinding"
| "obj_kind (ORestore _) = KRestore"
| "obj_kind (OMember k _) = KMember k"
| "obj_kind (OInstance _) = KInstance"

fun obj_meta_of :: "obj \<Rightarrow> obj_meta" where
  "obj_meta_of (OCluster x) = cl_meta x"
| "obj_meta_of (OGroup x) = g_meta x"
| "obj_meta_of (OSecret x) = sec_meta x"
| "obj_meta_of (OConfigMap x) = cmap_meta x"
| "obj_meta_of (OBackup x) = bk_meta x"
| "obj_meta_of (OBRBackup x) = bb_meta x"
| "obj_meta_of (OBRRestore x) = br_meta x"
| "obj_meta_of (OCertificate x) = ce_meta x"
| "obj_meta_of (OIssuer x) = is_meta x"
| "obj_meta_of (OPodMonitor x) = so_meta x"
| "obj_meta_of (OVMPodScrape x) = so_meta x"
| "obj_meta_of (OServiceAccount m) = m"
| "obj_meta_of (ORole m _) = m"
| "obj_meta_of (ORoleBinding m _ _) = m"
| "obj_meta_of (ORestore x) = rs_meta x"
| "obj_meta_of (OMember _ m) = m"
| "obj_meta_of (OInstance x) = in_meta x"

section \<open>Unstructured objects and decoded TOML\<close>

datatype json = JNull | JBool bool | JNum int | JStr string | JArr "json list"
  | JObj "(string \<times> json) list"

text \<open>
  A Go value as package reflect shows it. \<open>custom\<close>: its type marshals itself
  (CanConvertToUnstructured). A struct field has its Go name, whether it is embedded, and its
  json tag. \<open>GOther\<close> is every other kind.
\<close>

record go_field =
  gf_name :: string
  gf_anonymous :: bool
  gf_tag :: string

datatype goval = GInvalid
  | GPtr "goval option"
  | GStruct bool "(go_field \<times> goval) list"
  | GMap bool bool "(string \<times> goval) list"
  | GSeq bool "goval list"
  | GOther bool

text \<open>A value in a decoded TOML document: a table (map[string]any), or any other value.\<close>

datatype toml = TTable "string \<Rightarrow> toml option" | TStr string | TInt int | TBool bool | TOther string

type_synonym toml_table = "string \<rightharpoonup> toml"

end
