(* ===== verification/Runtime.thy ===== *)
theory Runtime
  imports Objects
begin

text \<open>
  What the provider runs on: the OpenEverest runtime's Context, the Kubernetes client and the
  other modules it imports. None of that code is in the repository, so all of it is a parameter:
  the pure functions are the fields of a \<open>lib\<close>, and everything that talks to the
  cluster is an \<open>env\<close>, whose answers may depend on the whole history of calls (other
  controllers may act at any time). An operation of the provider is a program over an
  arbitrary \<open>env\<close> that returns a value or an error, with the calls it made in order.
\<close>

section \<open>Errors\<close>

text \<open>What the API and the libraries can answer, as far as the provider tells answers apart
  (apierrors.IsNotFound, apierrors.IsAlreadyExists, meta.IsNoMatchError).\<close>

datatype api_err = NotFound | AlreadyExists | NoMatch | OtherErr string

text \<open>
  The errors the provider returns: an error passed on, one wrapped by fmt.Errorf with %w, a
  message of its own (fmt.Errorf, errors.New), the runtime's WaitFor, and a BackupConfigError.
  \<open>NoReturn\<close> is no error of the code: it marks a run that does not return.
\<close>

datatype err = Passed api_err | Wrapped string err | Message string | WaitFor string
  | BackupConfigError string string | NoReturn

text \<open>The API error under the wrapping, as errors.As finds it.\<close>

fun api_cause :: "err \<Rightarrow> api_err option" where
  "api_cause (Passed e) = Some e"
| "api_cause (Wrapped _ e) = api_cause e"
| "api_cause _ = None"

definition is_not_found :: "err \<Rightarrow> bool" where
  "is_not_found e \<longleftrightarrow> api_cause e = Some NotFound"

text \<open>client.IgnoreNotFound.\<close>

definition ignore_not_found :: "api_err option \<Rightarrow> api_err option" where
  "ignore_not_found r = (if r = Some NotFound then None else r)"

section \<open>Calls\<close>

datatype call =
    Get kind string
  | Exists kind string
  | ListMembers comp "(string \<times> string) list"
  | ListBackups
  | ListBackupsOf string string
  | GetProviderSpec
  | GetBackupStorage string
  | GetCredentials string
  | GetDataSourceStatus
  | RESTMapping kind
  | ReadEnv string
  | Now
  | RandomInt nat
  | GenerateKey nat
  | SignCert cert_template
  | Apply obj
  | ServerSideApply obj json
  | CreateOrUpdate obj
  | Create obj
  | Update obj
  | Delete kind string
  | AdoptSecret string owner_ref
  | SetDataSourceStatus bool string
  | ReconcileDataSource

type_synonym hist = "call list"

text \<open>The calls that change something outside the provider.\<close>

fun is_write :: "call \<Rightarrow> bool" where
  "is_write (Apply _) = True"
| "is_write (ServerSideApply _ _) = True"
| "is_write (CreateOrUpdate _) = True"
| "is_write (Create _) = True"
| "is_write (Update _) = True"
| "is_write (Delete _ _) = True"
| "is_write (AdoptSecret _ _) = True"
| "is_write (SetDataSourceStatus _ _) = True"
| "is_write ReconcileDataSource = True"
| "is_write _ = False"

definition writes :: "hist \<Rightarrow> hist" where
  "writes t = filter is_write t"

section \<open>The environment\<close>

text \<open>
  c.Get and c.Exists of one kind of object. controllerutil.CreateOrUpdate takes the object and
  the function that changes it, and answers with the object as the API server then has it; the
  call is recorded with the object it was given.
\<close>

record 'a reader =
  rd_get :: "hist \<Rightarrow> string \<Rightarrow> api_err + 'a"
  rd_exists :: "hist \<Rightarrow> string \<Rightarrow> api_err + 'a option"

text \<open>A seeding restore's status as the runtime keeps it.\<close>

record ds_status =
  ds_done :: bool
  ds_message :: string

text \<open>
  crypto/rsa's GenerateKey and crypto/x509's CreateCertificate, which signs a template on behalf of a parent
  (\<^const>\<open>None\<close>: the template itself) and gives the certificate as DER.
\<close>

record env =
  ev_cluster :: "cluster reader"
  ev_group :: "comp \<Rightarrow> group reader"
  ev_secret :: "secret reader"
  ev_backup :: "backup reader"
  ev_br_backup :: "br_backup reader"
  ev_br_restore :: "br_restore reader"
  ev_certificate :: "certificate reader"
  ev_instance :: "inst reader"
  ev_members :: "hist \<Rightarrow> comp \<Rightarrow> (string \<times> string) list \<Rightarrow> api_err + member list"
  ev_backups :: "hist \<Rightarrow> api_err + backup list"
  ev_backups_of :: "hist \<Rightarrow> string \<Rightarrow> string \<Rightarrow> api_err + backup list"
  ev_provider_spec :: "hist \<Rightarrow> api_err + string"
  ev_backup_storage :: "hist \<Rightarrow> string \<Rightarrow> api_err + backup_storage"
  ev_credentials :: "hist \<Rightarrow> string \<Rightarrow> api_err + string \<times> string"
  ev_data_source :: "hist \<Rightarrow> ds_status option"
  ev_rest_mapping :: "hist \<Rightarrow> kind \<Rightarrow> api_err option"
  ev_getenv :: "hist \<Rightarrow> string \<Rightarrow> string"
  ev_now :: "hist \<Rightarrow> time"
  ev_random :: "hist \<Rightarrow> nat \<Rightarrow> api_err + nat"
  ev_gen_key :: "hist \<Rightarrow> nat \<Rightarrow> api_err + rsa_key"
  ev_sign :: "hist \<Rightarrow> cert_template \<Rightarrow> x509_cert option \<Rightarrow> string \<Rightarrow> rsa_key \<Rightarrow> api_err + string"
  ev_write :: "hist \<Rightarrow> call \<Rightarrow> api_err option"
  ev_cou_secret :: "hist \<Rightarrow> secret \<Rightarrow> (secret \<Rightarrow> api_err + secret) \<Rightarrow> api_err + secret"
  ev_cou_backup :: "hist \<Rightarrow> br_backup \<Rightarrow> (br_backup \<Rightarrow> api_err + br_backup) \<Rightarrow> api_err + br_backup"
  ev_cou_restore :: "hist \<Rightarrow> br_restore \<Rightarrow> (br_restore \<Rightarrow> api_err + br_restore) \<Rightarrow> api_err + br_restore"

section \<open>The libraries\<close>

text \<open>
  Pure functions of other modules: golang.org/x/mod/semver, BurntSushi/toml, resource.Quantity,
  the OpenEverest runtime's version catalog and parameter decoding, robfig/cron,
  TiDB Operator's TSO helpers, Kubernetes' validation and conversion helpers, and net/url's
  parser, of which only the host name of a parsed URL is used. \<open>api_const\<close> and
  \<open>api_port\<close> give the value of a constant of the TiDB Operator API or the runtime by its
  Go name (LabelKeyCluster, CondReady and so on).
\<close>

record lib =
  semver_valid :: "string \<Rightarrow> bool"
  semver_compare :: "string \<Rightarrow> string \<Rightarrow> int"
  toml_decode :: "string \<Rightarrow> toml_table option"
  toml_encode :: "toml_table \<Rightarrow> string option"
  toml_max_replicas :: "string \<Rightarrow> string + int"
  q_cmp :: "quantity \<Rightarrow> quantity \<Rightarrow> int"
  q_value :: "quantity \<Rightarrow> int"
  q_is_zero :: "quantity \<Rightarrow> bool"
  q_string :: "quantity \<Rightarrow> string"
  limits_cpu :: "(string \<rightharpoonup> quantity) \<Rightarrow> quantity option"
  limits_memory :: "(string \<rightharpoonup> quantity) \<Rightarrow> quantity option"
  effective_bundle :: "string \<Rightarrow> inst \<Rightarrow> string"
  resolve_bundle :: "string \<Rightarrow> string \<Rightarrow> api_err + (string \<rightharpoonup> string) option"
  image_for_version :: "string \<Rightarrow> string \<Rightarrow> string \<Rightarrow> string"
  default_image :: "string \<Rightarrow> string \<Rightarrow> string"
  try_decode_component :: "component_spec \<Rightarrow> PdParameters option"
  try_decode_topology :: "inst \<Rightarrow> ClusterTopologyParameters option"
  decode_topology :: "inst \<Rightarrow> api_err + ClusterTopologyParameters"
  object_meta :: "inst \<Rightarrow> string \<Rightarrow> obj_meta"
  pod_labels :: "inst \<Rightarrow> string \<Rightarrow> labels"
  topology_spread :: "policy \<Rightarrow> labels \<Rightarrow> string list"
  cron_parse :: "string \<Rightarrow> string + (time \<Rightarrow> time)"
  ts_parse :: "string \<Rightarrow> string + 64 word"
  time_to_ts :: "time \<Rightarrow> 64 word"
  time_rfc3339 :: "time \<Rightarrow> string"
  parse_rfc3339 :: "string \<Rightarrow> time option"
  duration_string :: "duration \<Rightarrow> string"
  parse_model_duration :: "string \<Rightarrow> bool"
  qualified_name_error :: "string \<Rightarrow> string option"
  label_value_error :: "string \<Rightarrow> string option"
  url_hostname :: "string \<Rightarrow> string option"
  parse_labels :: "string \<Rightarrow> string + (string \<rightharpoonup> string)"
  pem_decode :: "string \<Rightarrow> string option"
  pem_encode :: "string \<Rightarrow> string \<Rightarrow> string"
  x509_parse :: "string \<Rightarrow> string + x509_cert"
  pkcs1_parse :: "string \<Rightarrow> string + rsa_key"
  pkcs1_marshal :: "rsa_key \<Rightarrow> string"
  rsa_public :: "rsa_key \<Rightarrow> string"
  stream_instance :: "restore \<Rightarrow> string"
  controller_reference :: "obj \<Rightarrow> obj \<Rightarrow> api_err + obj"
  controller_of :: "owner_ref list \<Rightarrow> owner_ref option"
  new_controller_ref :: "obj \<Rightarrow> owner_ref"
  remove_finalizer :: "string list \<Rightarrow> string \<Rightarrow> string list \<times> bool"
  find_condition :: "condition list \<Rightarrow> string \<Rightarrow> condition option"
  validate_backup_succeeded :: "backup \<Rightarrow> string option"
  gvk_for_object :: "obj \<Rightarrow> api_err option"
  reflect_value :: "obj \<Rightarrow> goval"
  api_const :: "string \<Rightarrow> string"
  api_port :: "string \<Rightarrow> int"
  to_unstructured :: "obj \<Rightarrow> api_err + json"

text \<open>The runtime's Context of one reconcile: the Instance (its name and namespace are
  c.Name() and c.Namespace()) and the libraries.\<close>

record ctx =
  cx_instance :: inst
  cx_lib :: lib

definition c_name :: "ctx \<Rightarrow> string" where "c_name c = om_name (in_meta (cx_instance c))"
definition c_namespace :: "ctx \<Rightarrow> string" where
  "c_namespace c = om_namespace (in_meta (cx_instance c))"
definition c_components :: "ctx \<Rightarrow> (string \<rightharpoonup> component_spec)" where
  "c_components c = in_components (cx_instance c)"
definition c_object_meta :: "ctx \<Rightarrow> string \<Rightarrow> obj_meta" where
  "c_object_meta c n = object_meta (cx_lib c) (cx_instance c) n"

text \<open>What is documented of the metadata helpers: c.ObjectMeta gives the name it is asked for, and
  SetControllerReference changes neither the name nor the kind of an object.\<close>

definition meta_laws :: "lib \<Rightarrow> bool" where
  "meta_laws L \<longleftrightarrow> (\<forall>i n. om_name (object_meta L i n) = n) \<and>
     (\<forall>x y z. controller_reference L x y = Inr z \<longrightarrow>
        om_name (obj_meta_of z) = om_name (obj_meta_of y) \<and> obj_kind z = obj_kind y)"

text \<open>controllerutil.SetControllerReference changes the owner references of an object and nothing else, and
  makes the owner the one metav1.GetControllerOf finds.\<close>

fun with_meta :: "obj_meta \<Rightarrow> obj \<Rightarrow> obj" where
  "with_meta m (OCluster x) = OCluster (x\<lparr>cl_meta := m\<rparr>)"
| "with_meta m (OGroup x) = OGroup (x\<lparr>g_meta := m\<rparr>)"
| "with_meta m (OSecret x) = OSecret (x\<lparr>sec_meta := m\<rparr>)"
| "with_meta m (OConfigMap x) = OConfigMap (x\<lparr>cmap_meta := m\<rparr>)"
| "with_meta m (OBackup x) = OBackup (x\<lparr>bk_meta := m\<rparr>)"
| "with_meta m (OBRBackup x) = OBRBackup (x\<lparr>bb_meta := m\<rparr>)"
| "with_meta m (OBRRestore x) = OBRRestore (x\<lparr>br_meta := m\<rparr>)"
| "with_meta m (OCertificate x) = OCertificate (x\<lparr>ce_meta := m\<rparr>)"
| "with_meta m (OIssuer x) = OIssuer (x\<lparr>is_meta := m\<rparr>)"
| "with_meta m (OPodMonitor x) = OPodMonitor (x\<lparr>so_meta := m\<rparr>)"
| "with_meta m (OVMPodScrape x) = OVMPodScrape (x\<lparr>so_meta := m\<rparr>)"
| "with_meta m (OServiceAccount x) = OServiceAccount m"
| "with_meta m (ORole x rules) = ORole m rules"
| "with_meta m (ORoleBinding x a b) = ORoleBinding m a b"
| "with_meta m (ORestore x) = ORestore (x\<lparr>rs_meta := m\<rparr>)"
| "with_meta m (OMember k x) = OMember k m"
| "with_meta m (OInstance x) = OInstance (x\<lparr>in_meta := m\<rparr>)"

lemma with_meta_simps [simp]: "obj_meta_of (with_meta m x) = m" "obj_kind (with_meta m x) = obj_kind x"
  by (cases x; simp)+

definition owner_laws :: "lib \<Rightarrow> bool" where
  "owner_laws L \<longleftrightarrow> (\<forall>i n. om_name (object_meta L i n) = n) \<and>
     (\<forall>x y z. controller_reference L x y = Inr z \<longrightarrow>
        (\<exists>os ref. z = with_meta ((obj_meta_of y)\<lparr>om_owners := os\<rparr>) y \<and> controller_of L os = Some ref \<and>
           or_uid ref = om_uid (obj_meta_of x)))"

lemma owner_lawsE:
  assumes "owner_laws L" "controller_reference L x y = Inr z"
  obtains os ref where "z = with_meta ((obj_meta_of y)\<lparr>om_owners := os\<rparr>) y" "controller_of L os = Some ref"
    "or_uid ref = om_uid (obj_meta_of x)"
  using assms unfolding owner_laws_def by blast

lemma owner_laws_meta: "owner_laws L \<Longrightarrow> meta_laws L"
  by (fastforce simp: meta_laws_def elim: owner_lawsE simp: owner_laws_def)

section \<open>Operations\<close>

type_synonym 'a io = "env \<Rightarrow> hist \<Rightarrow> (err + 'a) \<times> hist"

definition ret :: "'a \<Rightarrow> 'a io" where
  "ret x = (\<lambda>E h. (Inr x, []))"

definition fail :: "err \<Rightarrow> 'a io" where
  "fail e = (\<lambda>E h. (Inl e, []))"

text \<open>Make one call and hand its answer, errors included, to the rest.\<close>

definition ask :: "call \<Rightarrow> (env \<Rightarrow> hist \<Rightarrow> 'a) \<Rightarrow> 'a io" where
  "ask k f = (\<lambda>E h. (Inr (f E h), [k]))"

definition bnd :: "'a io \<Rightarrow> ('a \<Rightarrow> 'b io) \<Rightarrow> 'b io" where
  "bnd m f = (\<lambda>E h. case m E h of
     (Inl e, t) \<Rightarrow> (Inl e, t)
   | (Inr x, t) \<Rightarrow> (case f x E (h @ t) of (r, t') \<Rightarrow> (r, t @ t')))"

definition thn :: "unit io \<Rightarrow> 'b io \<Rightarrow> 'b io" where
  "thn m m' = bnd m (\<lambda>_. m')"

text \<open>The statement \<open>if err != nil { return err }\<close>, and the same with a wrapped error.\<close>

definition or_fail :: "api_err + 'a \<Rightarrow> 'a io" where
  "or_fail r = (case r of Inl e \<Rightarrow> fail (Passed e) | Inr x \<Rightarrow> ret x)"

definition or_wrap :: "string \<Rightarrow> api_err + 'a \<Rightarrow> 'a io" where
  "or_wrap s r = (case r of Inl e \<Rightarrow> fail (Wrapped s (Passed e)) | Inr x \<Rightarrow> ret x)"

definition ok_or_fail :: "api_err option \<Rightarrow> unit io" where
  "ok_or_fail r = (case r of Some e \<Rightarrow> fail (Passed e) | None \<Rightarrow> ret ())"

definition ok_or_wrap :: "string \<Rightarrow> api_err option \<Rightarrow> unit io" where
  "ok_or_wrap s r = (case r of Some e \<Rightarrow> fail (Wrapped s (Passed e)) | None \<Rightarrow> ret ())"

definition err_or_ok :: "err option \<Rightarrow> unit io" where
  "err_or_ok r = (case r of Some e \<Rightarrow> fail e | None \<Rightarrow> ret ())"

text \<open>Replace an error by a wrapped one.\<close>

definition wrapping :: "string \<Rightarrow> 'a io \<Rightarrow> 'a io" where
  "wrapping s m = (\<lambda>E h. case m E h of (Inl e, t) \<Rightarrow> (Inl (Wrapped s e), t) | (Inr x, t) \<Rightarrow> (Inr x, t))"

text \<open>Run an operation and go on with its value or its error.\<close>

definition attempt :: "'a io \<Rightarrow> (err + 'a) io" where
  "attempt m = (\<lambda>E h. case m E h of (r, t) \<Rightarrow> (Inr r, t))"

text \<open>A write: the call itself is the request.\<close>

definition do_write :: "call \<Rightarrow> api_err option io" where
  "do_write k = ask k (\<lambda>E h. ev_write E h k)"

definition apply_obj :: "obj \<Rightarrow> unit io" where
  "apply_obj x = bnd (do_write (Apply x)) ok_or_fail"

definition delete_obj :: "kind \<Rightarrow> string \<Rightarrow> unit io" where
  "delete_obj k n = bnd (do_write (Delete k n)) ok_or_fail"

definition get_cluster :: "string \<Rightarrow> (api_err + cluster) io" where
  "get_cluster n = ask (Get KCluster n) (\<lambda>E h. rd_get (ev_cluster E) h n)"

definition exists_cluster :: "string \<Rightarrow> (api_err + cluster option) io" where
  "exists_cluster n = ask (Exists KCluster n) (\<lambda>E h. rd_exists (ev_cluster E) h n)"

definition get_group :: "comp \<Rightarrow> string \<Rightarrow> (api_err + group) io" where
  "get_group k n = ask (Get (KGroup k) n) (\<lambda>E h. rd_get (ev_group E k) h n)"

definition exists_group :: "comp \<Rightarrow> string \<Rightarrow> (api_err + group option) io" where
  "exists_group k n = ask (Exists (KGroup k) n) (\<lambda>E h. rd_exists (ev_group E k) h n)"

definition get_secret :: "string \<Rightarrow> (api_err + secret) io" where
  "get_secret n = ask (Get KSecret n) (\<lambda>E h. rd_get (ev_secret E) h n)"

definition exists_secret :: "string \<Rightarrow> (api_err + secret option) io" where
  "exists_secret n = ask (Exists KSecret n) (\<lambda>E h. rd_exists (ev_secret E) h n)"

definition get_backup :: "string \<Rightarrow> (api_err + backup) io" where
  "get_backup n = ask (Get KBackup n) (\<lambda>E h. rd_get (ev_backup E) h n)"

definition get_br_backup :: "string \<Rightarrow> (api_err + br_backup) io" where
  "get_br_backup n = ask (Get KBRBackup n) (\<lambda>E h. rd_get (ev_br_backup E) h n)"

definition exists_br_backup :: "string \<Rightarrow> (api_err + br_backup option) io" where
  "exists_br_backup n = ask (Exists KBRBackup n) (\<lambda>E h. rd_exists (ev_br_backup E) h n)"

definition get_br_restore :: "string \<Rightarrow> (api_err + br_restore) io" where
  "get_br_restore n = ask (Get KBRRestore n) (\<lambda>E h. rd_get (ev_br_restore E) h n)"

definition exists_br_restore :: "string \<Rightarrow> (api_err + br_restore option) io" where
  "exists_br_restore n = ask (Exists KBRRestore n) (\<lambda>E h. rd_exists (ev_br_restore E) h n)"

definition exists_certificate :: "string \<Rightarrow> (api_err + certificate option) io" where
  "exists_certificate n = ask (Exists KCertificate n) (\<lambda>E h. rd_exists (ev_certificate E) h n)"

definition list_members :: "comp \<Rightarrow> (string \<times> string) list \<Rightarrow> (api_err + member list) io" where
  "list_members k sel = ask (ListMembers k sel) (\<lambda>E h. ev_members E h k sel)"

definition provider_spec :: "(api_err + string) io" where
  "provider_spec = ask GetProviderSpec (\<lambda>E h. ev_provider_spec E h)"

definition get_backup_storage :: "string \<Rightarrow> (api_err + backup_storage) io" where
  "get_backup_storage n = ask (GetBackupStorage n) (\<lambda>E h. ev_backup_storage E h n)"

definition get_data_source_status :: "ds_status option io" where
  "get_data_source_status = ask GetDataSourceStatus (\<lambda>E h. ev_data_source E h)"

definition rest_mapping :: "kind \<Rightarrow> api_err option io" where
  "rest_mapping k = ask (RESTMapping k) (\<lambda>E h. ev_rest_mapping E h k)"

lemmas read_defs = get_cluster_def exists_cluster_def get_group_def exists_group_def
  get_secret_def exists_secret_def get_backup_def get_br_backup_def exists_br_backup_def
  get_br_restore_def exists_br_restore_def exists_certificate_def list_members_def
  provider_spec_def get_backup_storage_def get_data_source_status_def rest_mapping_def

text \<open>Traverse a list with an operation per element.\<close>

fun each :: "('a \<Rightarrow> unit io) \<Rightarrow> 'a list \<Rightarrow> unit io" where
  "each f [] = ret ()"
| "each f (x # xs) = thn (f x) (each f xs)"

section \<open>Running operations\<close>

lemma ret_run [io_run]: "ret x E h = (Inr x, [])" by (simp add: ret_def)
lemma fail_run [io_run]: "fail e E h = (Inl e, [])" by (simp add: fail_def)
lemma ask_run [io_run]: "ask k f E h = (Inr (f E h), [k])" by (simp add: ask_def)
lemma if_run [io_run]: "(if b then m else m') E h = (if b then m E h else m' E h)" by simp
lemma attempt_run [io_run]: "attempt m E h = (Inr (fst (m E h)), snd (m E h))"
  by (simp add: attempt_def case_prod_unfold)
lemma do_write_run [io_run]: "do_write k E h = (Inr (ev_write E h k), [k])"
  by (simp add: do_write_def ask_run)

lemma bnd_run_Inl [io_run]: "m E h = (Inl e, t) \<Longrightarrow> bnd m f E h = (Inl e, t)"
  by (simp add: bnd_def)

lemma bnd_run_Inr [io_run]:
  "m E h = (Inr x, t) \<Longrightarrow> bnd m f E h = (fst (f x E (h @ t)), t @ snd (f x E (h @ t)))"
  by (simp add: bnd_def case_prod_unfold)

lemma bnd_ask [io_run]:
  "bnd (ask k f) g E h = (fst (g (f E h) E (h @ [k])), k # snd (g (f E h) E (h @ [k])))"
  by (simp add: bnd_run_Inr ask_run)

lemma bnd_ret [simp]: "bnd (ret x) f = f x"
  by (rule ext)+ (simp add: bnd_def ret_def case_prod_unfold)

lemma bnd_fail [simp]: "bnd (fail e) f = fail e"
  by (rule ext)+ (simp add: bnd_def fail_def)

lemma thn_ret [simp]: "thn (ret x) m = m" by (simp add: thn_def)
lemma thn_fail [simp]: "thn (fail e) m = fail e" by (simp add: thn_def)

lemma bnd_assoc: "bnd (bnd m f) g = bnd m (\<lambda>x. bnd (f x) g)"
  by (rule ext)+ (auto simp: bnd_def split: sum.splits prod.splits)

lemma bnd_Inr_iff:
  "bnd m f E h = (Inr y, t) \<longleftrightarrow>
     (\<exists>x t1 t2. m E h = (Inr x, t1) \<and> f x E (h @ t1) = (Inr y, t2) \<and> t = t1 @ t2)"
  by (auto simp: bnd_def split: sum.splits prod.splits)

lemma bnd_Inl_iff:
  "bnd m f E h = (Inl e, t) \<longleftrightarrow> m E h = (Inl e, t) \<or>
     (\<exists>x t1 t2. m E h = (Inr x, t1) \<and> f x E (h @ t1) = (Inl e, t2) \<and> t = t1 @ t2)"
  by (auto simp: bnd_def split: sum.splits prod.splits)

lemma thn_Inr_iff:
  "thn m m' E h = (Inr y, t) \<longleftrightarrow>
     (\<exists>t1 t2. m E h = (Inr (), t1) \<and> m' E (h @ t1) = (Inr y, t2) \<and> t = t1 @ t2)"
  by (simp add: thn_def bnd_Inr_iff)

lemma err_or_ok_simps [simp]: "err_or_ok None = ret ()" "err_or_ok (Some e) = fail e"
  by (simp_all add: err_or_ok_def)

lemma err_or_ok_Inr: "err_or_ok r E h = (Inr u, t) \<longleftrightarrow> r = None \<and> t = []"
  by (cases r) (auto simp: ret_run fail_run)

lemma err_or_ok_ok [simp]: "fst (err_or_ok r E h) = Inr () \<longleftrightarrow> r = None"
  by (cases r) (auto simp: ret_run fail_run)

lemma bnd_ok_iff:
  "fst (bnd m f E h) = Inr y \<longleftrightarrow>
     (\<exists>x t. m E h = (Inr x, t) \<and> fst (f x E (h @ t)) = Inr y)"
  by (auto simp: bnd_def split: sum.splits prod.splits)

lemma thn_ok_iff:
  "fst (thn m m' E h) = Inr y \<longleftrightarrow> fst (m E h) = Inr () \<and> fst (m' E (h @ snd (m E h))) = Inr y"
  by (cases "m E h") (auto simp: thn_def bnd_ok_iff)

lemma bnd_InrE:
  assumes "bnd m f E h = (Inr y, t)"
  obtains x t1 t2 where "m E h = (Inr x, t1)" "f x E (h @ t1) = (Inr y, t2)" "t = t1 @ t2"
  using assms unfolding bnd_Inr_iff by blast

lemma or_fail_Inr [simp]: "or_fail (Inr x) = ret x" by (simp add: or_fail_def)
lemma or_fail_Inl [simp]: "or_fail (Inl e) = fail (Passed e)" by (simp add: or_fail_def)
lemma or_wrap_Inr [simp]: "or_wrap s (Inr x) = ret x" by (simp add: or_wrap_def)
lemma or_wrap_Inl [simp]: "or_wrap s (Inl e) = fail (Wrapped s (Passed e))" by (simp add: or_wrap_def)
lemma ok_or_fail_None [simp]: "ok_or_fail None = ret ()" by (simp add: ok_or_fail_def)
lemma ok_or_fail_Some [simp]: "ok_or_fail (Some e) = fail (Passed e)" by (simp add: ok_or_fail_def)
lemma ok_or_wrap_None [simp]: "ok_or_wrap s None = ret ()" by (simp add: ok_or_wrap_def)
lemma ok_or_wrap_Some [simp]: "ok_or_wrap s (Some e) = fail (Wrapped s (Passed e))"
  by (simp add: ok_or_wrap_def)

text \<open>Taking a successful run apart.\<close>

lemmas io_Inr = bnd_Inr_iff thn_Inr_iff ask_run ret_run fail_run do_write_run err_or_ok_Inr
  or_fail_def or_wrap_def ok_or_fail_def ok_or_wrap_def

text \<open>Everything needed to compute a run in a concrete environment.\<close>

lemmas io_eval = Let_def bnd_def thn_def ret_def fail_def ask_def do_write_def or_fail_def or_wrap_def
  ok_or_fail_def ok_or_wrap_def err_or_ok_def wrapping_def attempt_def apply_obj_def delete_obj_def read_defs

section \<open>The calls an operation can make\<close>

text \<open>
  \<open>calls_in P m\<close>: in every environment and from every history, every call of \<open>m\<close>
  satisfies \<open>P\<close>.
\<close>

definition calls_in :: "(call \<Rightarrow> bool) \<Rightarrow> 'a io \<Rightarrow> bool" where
  "calls_in P m \<longleftrightarrow> (\<forall>E h. \<forall>k \<in> set (snd (m E h)). P k)"

definition read_only :: "'a io \<Rightarrow> bool" where
  "read_only m \<longleftrightarrow> calls_in (\<lambda>k. \<not> is_write k) m"

lemma calls_in_ret [calls_intro]: "calls_in P (ret x)"
  by (simp add: calls_in_def ret_def)

lemma calls_in_fail [calls_intro]: "calls_in P (fail e)"
  by (simp add: calls_in_def fail_def)

lemma calls_in_ask [calls_intro]: "P k \<Longrightarrow> calls_in P (ask k f)"
  by (simp add: calls_in_def ask_def)

lemma calls_in_do_write [calls_intro]: "P k \<Longrightarrow> calls_in P (do_write k)"
  by (simp add: do_write_def calls_in_ask)

lemma calls_in_bnd [calls_intro]:
  assumes "calls_in P m" "\<And>x. calls_in P (f x)"
  shows "calls_in P (bnd m f)"
  unfolding calls_in_def
proof (intro allI)
  fix E h
  obtain r t where m: "m E h = (r, t)" by fastforce
  have t: "\<forall>k \<in> set t. P k" using assms(1) m unfolding calls_in_def by (metis snd_conv)
  show "\<forall>k \<in> set (snd (bnd m f E h)). P k"
  proof (cases r)
    case (Inl e)
    with m t show ?thesis by (simp add: bnd_run_Inl)
  next
    case (Inr x)
    moreover have "\<forall>k \<in> set (snd (f x E (h @ t))). P k"
      using assms(2) [of x] unfolding calls_in_def by blast
    ultimately show ?thesis using m t by (auto simp: bnd_run_Inr)
  qed
qed

lemma calls_in_thn [calls_intro]:
  "calls_in P m \<Longrightarrow> calls_in P m' \<Longrightarrow> calls_in P (thn m m')"
  by (simp add: thn_def calls_in_bnd)

lemma calls_in_if [calls_intro]:
  "(b \<Longrightarrow> calls_in P m) \<Longrightarrow> (\<not> b \<Longrightarrow> calls_in P m') \<Longrightarrow> calls_in P (if b then m else m')"
  by simp

lemma calls_in_or_fail [calls_intro]: "calls_in P (or_fail r)"
  by (cases r) (simp_all add: calls_in_ret calls_in_fail)

lemma calls_in_or_wrap [calls_intro]: "calls_in P (or_wrap s r)"
  by (cases r) (simp_all add: calls_in_ret calls_in_fail)

lemma calls_in_ok_or_fail [calls_intro]: "calls_in P (ok_or_fail r)"
  by (cases r) (simp_all add: calls_in_ret calls_in_fail)

lemma calls_in_ok_or_wrap [calls_intro]: "calls_in P (ok_or_wrap s r)"
  by (cases r) (simp_all add: calls_in_ret calls_in_fail)

lemma calls_in_wrapping [calls_intro]: "calls_in P m \<Longrightarrow> calls_in P (wrapping s m)"
  unfolding calls_in_def wrapping_def by (simp add: case_prod_unfold split: sum.split)

lemma calls_in_attempt [calls_intro]: "calls_in P m \<Longrightarrow> calls_in P (attempt m)"
  unfolding calls_in_def attempt_def by (simp add: case_prod_unfold)

lemma calls_in_err_or_ok [calls_intro]: "calls_in P (err_or_ok r)"
  by (cases r) (simp_all add: calls_in_ret calls_in_fail)

lemma calls_in_each [calls_intro]:
  "(\<And>x. x \<in> set xs \<Longrightarrow> calls_in P (f x)) \<Longrightarrow> calls_in P (each f xs)"
  by (induction xs) (auto intro: calls_intro)

lemma calls_in_apply_obj [calls_intro]: "P (Apply x) \<Longrightarrow> calls_in P (apply_obj x)"
  unfolding apply_obj_def by (intro calls_intro)

lemma calls_in_delete_obj [calls_intro]: "P (Delete k n) \<Longrightarrow> calls_in P (delete_obj k n)"
  unfolding delete_obj_def by (intro calls_intro)

lemma calls_in_option [calls_intro]:
  "calls_in P m \<Longrightarrow> (\<And>x. r = Some x \<Longrightarrow> calls_in P (f x)) \<Longrightarrow>
   calls_in P (case r of None \<Rightarrow> m | Some x \<Rightarrow> f x)"
  by (cases r) simp_all

lemma calls_in_sum [calls_intro]:
  "(\<And>x. r = Inl x \<Longrightarrow> calls_in P (f x)) \<Longrightarrow> (\<And>y. r = Inr y \<Longrightarrow> calls_in P (g y)) \<Longrightarrow>
   calls_in P (case r of Inl x \<Rightarrow> f x | Inr y \<Rightarrow> g y)"
  by (cases r) simp_all

lemma each_calls [calls_intro]:
  "(\<And>x. x \<in> set xs \<Longrightarrow> calls_in P (f x)) \<Longrightarrow> calls_in P (each f xs)"
  by (induction xs) (auto intro!: calls_intro)

lemma calls_inD: "calls_in P m \<Longrightarrow> m E h = (r, t) \<Longrightarrow> k \<in> set t \<Longrightarrow> P k"
  unfolding calls_in_def by (metis snd_conv)

lemma calls_in_mono: "calls_in P m \<Longrightarrow> (\<And>k. P k \<Longrightarrow> Q k) \<Longrightarrow> calls_in Q m"
  unfolding calls_in_def by blast

lemma read_only_writes: "read_only m \<Longrightarrow> writes (snd (m E h)) = []"
  unfolding read_only_def calls_in_def writes_def by (simp add: filter_empty_conv)

lemma writes_append [simp]: "writes (a @ b) = writes a @ writes b"
  by (simp add: writes_def)

lemma writes_Cons [simp]: "writes (k # t) = (if is_write k then k # writes t else writes t)"
  by (simp add: writes_def)

lemma writes_Nil [simp]: "writes [] = []"
  by (simp add: writes_def)

section \<open>What an operation does in one environment\<close>

text \<open>
  \<open>runs E P Q m\<close>: in the environment \<open>E\<close>, from every history, every call of
  \<open>m\<close> satisfies \<open>P\<close> and every value it returns satisfies \<open>Q\<close>.
\<close>

definition runs :: "env \<Rightarrow> (call \<Rightarrow> bool) \<Rightarrow> ('a \<Rightarrow> bool) \<Rightarrow> 'a io \<Rightarrow> bool" where
  "runs E P Q m \<longleftrightarrow> (\<forall>h r t. m E h = (r, t) \<longrightarrow> (\<forall>k \<in> set t. P k) \<and> (\<forall>x. r = Inr x \<longrightarrow> Q x))"

lemma runs_ret [runs_intro]: "Q x \<Longrightarrow> runs E P Q (ret x)"
  by (simp add: runs_def ret_def)

lemma runs_fail [runs_intro]: "runs E P Q (fail e)"
  by (simp add: runs_def fail_def)

lemma runs_ask: "P k \<Longrightarrow> (\<And>h. Q (f E h)) \<Longrightarrow> runs E P Q (ask k f)"
  by (auto simp: runs_def ask_def)

lemma runs_do_write: "P k \<Longrightarrow> (\<And>r. Q r) \<Longrightarrow> runs E P Q (do_write k)"
  by (simp add: do_write_def runs_ask)

lemma runs_bnd:
  assumes "runs E P Q m" "\<And>x. Q x \<Longrightarrow> runs E P R (f x)"
  shows "runs E P R (bnd m f)"
  unfolding runs_def
proof (intro allI impI)
  fix h r t
  assume run: "bnd m f E h = (r, t)"
  obtain r1 t1 where m: "m E h = (r1, t1)" by fastforce
  with assms(1) have P1: "\<forall>k \<in> set t1. P k" and Q1: "\<And>x. r1 = Inr x \<Longrightarrow> Q x"
    unfolding runs_def by blast+
  show "(\<forall>k \<in> set t. P k) \<and> (\<forall>x. r = Inr x \<longrightarrow> R x)"
  proof (cases r1)
    case (Inl e)
    with m run P1 show ?thesis by (auto simp: bnd_run_Inl)
  next
    case (Inr x)
    obtain r2 t2 where f: "f x E (h @ t1) = (r2, t2)" by fastforce
    with assms(2) [OF Q1 [OF Inr]] have "(\<forall>k \<in> set t2. P k) \<and> (\<forall>y. r2 = Inr y \<longrightarrow> R y)"
      unfolding runs_def by blast
    with m run Inr f P1 show ?thesis by (auto simp: bnd_run_Inr)
  qed
qed

lemma runs_thn [runs_intro]: "runs E P (\<lambda>_. True) m \<Longrightarrow> runs E P R m' \<Longrightarrow> runs E P R (thn m m')"
  unfolding thn_def by (rule runs_bnd)

lemma runs_if [runs_intro]:
  "(b \<Longrightarrow> runs E P Q m) \<Longrightarrow> (\<not> b \<Longrightarrow> runs E P Q m') \<Longrightarrow> runs E P Q (if b then m else m')"
  by simp

lemma runs_option [runs_intro]:
  "(r = None \<Longrightarrow> runs E P Q m) \<Longrightarrow> (\<And>x. r = Some x \<Longrightarrow> runs E P Q (f x)) \<Longrightarrow>
   runs E P Q (case r of None \<Rightarrow> m | Some x \<Rightarrow> f x)"
  by (cases r) simp_all

lemma runs_sum [runs_intro]:
  "(\<And>x. r = Inl x \<Longrightarrow> runs E P Q (f x)) \<Longrightarrow> (\<And>y. r = Inr y \<Longrightarrow> runs E P Q (g y)) \<Longrightarrow>
   runs E P Q (case r of Inl x \<Rightarrow> f x | Inr y \<Rightarrow> g y)"
  by (cases r) simp_all

lemma runs_or_fail [runs_intro]: "(\<And>x. r = Inr x \<Longrightarrow> Q x) \<Longrightarrow> runs E P Q (or_fail r)"
  by (cases r) (simp_all add: runs_ret runs_fail)

lemma runs_or_wrap [runs_intro]: "(\<And>x. r = Inr x \<Longrightarrow> Q x) \<Longrightarrow> runs E P Q (or_wrap s r)"
  by (cases r) (simp_all add: runs_ret runs_fail)

lemma runs_ok_or_fail [runs_intro]: "(r = None \<Longrightarrow> Q ()) \<Longrightarrow> runs E P Q (ok_or_fail r)"
  by (cases r) (simp_all add: runs_ret runs_fail)

lemma runs_ok_or_wrap [runs_intro]: "(r = None \<Longrightarrow> Q ()) \<Longrightarrow> runs E P Q (ok_or_wrap s r)"
  by (cases r) (simp_all add: runs_ret runs_fail)

lemma runs_err_or_ok [runs_intro]: "(r = None \<Longrightarrow> Q ()) \<Longrightarrow> runs E P Q (err_or_ok r)"
  by (cases r) (simp_all add: runs_ret runs_fail)

lemma runs_wrapping [runs_intro]: "runs E P Q m \<Longrightarrow> runs E P Q (wrapping s m)"
  unfolding runs_def wrapping_def by (auto split: prod.splits sum.splits)

lemma runs_attempt [runs_intro]:
  "runs E P (\<lambda>x. R (Inr x)) m \<Longrightarrow> (\<And>e. R (Inl e)) \<Longrightarrow> runs E P R (attempt m)"
  unfolding runs_def attempt_def by (auto split: prod.splits) (metis obj_sumE)

lemma runs_each [runs_intro]:
  "(\<And>x. x \<in> set xs \<Longrightarrow> runs E P (\<lambda>_. True) (f x)) \<Longrightarrow> runs E P (\<lambda>_. True) (each f xs)"
  by (induction xs) (auto intro!: runs_intro)

lemma runs_weaken: "runs E P Q m \<Longrightarrow> (\<And>x. Q x \<Longrightarrow> R x) \<Longrightarrow> runs E P R m"
  unfolding runs_def by blast

lemma runs_calls_mono: "runs E P R m \<Longrightarrow> (\<And>k. P k \<Longrightarrow> P' k) \<Longrightarrow> runs E P' R m"
  unfolding runs_def by blast

lemma runs_calls: "calls_in P m \<Longrightarrow> runs E P (\<lambda>_. True) m"
  unfolding runs_def calls_in_def by (metis snd_conv)

lemma runs_callD: "runs E P Q m \<Longrightarrow> k \<in> set (snd (m E h)) \<Longrightarrow> P k"
  unfolding runs_def by (metis prod.collapse)

lemma runs_valueD: "runs E P Q m \<Longrightarrow> m E h = (Inr x, t) \<Longrightarrow> Q x"
  unfolding runs_def by blast

text \<open>The answers of a reader that serves a fixed table.\<close>

definition serves :: "'a reader \<Rightarrow> (string \<rightharpoonup> 'a) \<Rightarrow> bool" where
  "serves R S \<longleftrightarrow> (\<forall>h n. rd_get R h n = (case S n of None \<Rightarrow> Inl NotFound | Some x \<Rightarrow> Inr x) \<and>
     rd_exists R h n = Inr (S n))"

lemma servesD:
  "serves R S \<Longrightarrow> rd_get R h n = (case S n of None \<Rightarrow> Inl NotFound | Some x \<Rightarrow> Inr x)"
  "serves R S \<Longrightarrow> rd_exists R h n = Inr (S n)"
  by (simp_all add: serves_def)

text \<open>Steps whose answer is known: what follows is checked with that answer.\<close>

lemma runs_bnd_ask [runs_intro]:
  "P k \<Longrightarrow> (\<And>h. runs E P R (g (f E h))) \<Longrightarrow> runs E P R (bnd (ask k f) g)"
  by (rule runs_bnd [of E P "\<lambda>x. \<exists>h. x = f E h"]) (auto simp: runs_def ask_def)

lemma runs_bnd_do_write [runs_intro]:
  "P k \<Longrightarrow> (\<And>r. runs E P R (g r)) \<Longrightarrow> runs E P R (bnd (do_write k) g)"
  by (simp add: do_write_def runs_bnd_ask)

lemma runs_bnd_or_fail [runs_intro]:
  "(\<And>x. r = Inr x \<Longrightarrow> runs E P R (g x)) \<Longrightarrow> runs E P R (bnd (or_fail r) g)"
  by (cases r) (simp_all add: runs_fail)

lemma runs_bnd_or_wrap [runs_intro]:
  "(\<And>x. r = Inr x \<Longrightarrow> runs E P R (g x)) \<Longrightarrow> runs E P R (bnd (or_wrap s r) g)"
  by (cases r) (simp_all add: runs_fail)

lemma runs_bnd_known:
  "(\<And>h. f E h = x) \<Longrightarrow> P k \<Longrightarrow> runs E P R (g x) \<Longrightarrow> runs E P R (bnd (ask k f) g)"
  by (rule runs_bnd_ask) simp_all

lemma runs_bnd_get_secret:
  "serves (ev_secret E) S \<Longrightarrow> P (Get KSecret n) \<Longrightarrow>
   runs E P R (g (case S n of None \<Rightarrow> Inl NotFound | Some x \<Rightarrow> Inr x)) \<Longrightarrow> runs E P R (bnd (get_secret n) g)"
  unfolding get_secret_def by (rule runs_bnd_known) (simp_all add: servesD)

lemma runs_bnd_exists_secret:
  "serves (ev_secret E) S \<Longrightarrow> P (Exists KSecret n) \<Longrightarrow> runs E P R (g (Inr (S n))) \<Longrightarrow>
   runs E P R (bnd (exists_secret n) g)"
  unfolding exists_secret_def by (rule runs_bnd_known) (simp_all add: servesD)

lemma runs_bnd_get_group:
  "serves (ev_group E k) S \<Longrightarrow> P (Get (KGroup k) n) \<Longrightarrow>
   runs E P R (g (case S n of None \<Rightarrow> Inl NotFound | Some x \<Rightarrow> Inr x)) \<Longrightarrow> runs E P R (bnd (get_group k n) g)"
  unfolding get_group_def by (rule runs_bnd_known) (simp_all add: servesD)

lemma runs_bnd_exists_group:
  "serves (ev_group E k) S \<Longrightarrow> P (Exists (KGroup k) n) \<Longrightarrow> runs E P R (g (Inr (S n))) \<Longrightarrow>
   runs E P R (bnd (exists_group k n) g)"
  unfolding exists_group_def by (rule runs_bnd_known) (simp_all add: servesD)

lemma runs_bnd_get_cluster:
  "serves (ev_cluster E) S \<Longrightarrow> P (Get KCluster n) \<Longrightarrow>
   runs E P R (g (case S n of None \<Rightarrow> Inl NotFound | Some x \<Rightarrow> Inr x)) \<Longrightarrow> runs E P R (bnd (get_cluster n) g)"
  unfolding get_cluster_def by (rule runs_bnd_known) (simp_all add: servesD)

lemma runs_bnd_exists_cluster:
  "serves (ev_cluster E) S \<Longrightarrow> P (Exists KCluster n) \<Longrightarrow> runs E P R (g (Inr (S n))) \<Longrightarrow>
   runs E P R (bnd (exists_cluster n) g)"
  unfolding exists_cluster_def by (rule runs_bnd_known) (simp_all add: servesD)

lemma runs_bnd_exists_br_backup:
  "serves (ev_br_backup E) S \<Longrightarrow> P (Exists KBRBackup n) \<Longrightarrow> runs E P R (g (Inr (S n))) \<Longrightarrow>
   runs E P R (bnd (exists_br_backup n) g)"
  unfolding exists_br_backup_def by (rule runs_bnd_known) (simp_all add: servesD)

lemma runs_bnd_get_br_backup:
  "serves (ev_br_backup E) S \<Longrightarrow> P (Get KBRBackup n) \<Longrightarrow>
   runs E P R (g (case S n of None \<Rightarrow> Inl NotFound | Some x \<Rightarrow> Inr x)) \<Longrightarrow> runs E P R (bnd (get_br_backup n) g)"
  unfolding get_br_backup_def by (rule runs_bnd_known) (simp_all add: servesD)

lemma runs_bnd_exists_br_restore:
  "serves (ev_br_restore E) S \<Longrightarrow> P (Exists KBRRestore n) \<Longrightarrow> runs E P R (g (Inr (S n))) \<Longrightarrow>
   runs E P R (bnd (exists_br_restore n) g)"
  unfolding exists_br_restore_def by (rule runs_bnd_known) (simp_all add: servesD)

lemma runs_bnd_get_backup:
  "serves (ev_backup E) S \<Longrightarrow> P (Get KBackup n) \<Longrightarrow>
   runs E P R (g (case S n of None \<Rightarrow> Inl NotFound | Some x \<Rightarrow> Inr x)) \<Longrightarrow> runs E P R (bnd (get_backup n) g)"
  unfolding get_backup_def by (rule runs_bnd_known) (simp_all add: servesD)

lemma runs_apply_obj [runs_intro]: "P (Apply x) \<Longrightarrow> (\<And>r. Q r) \<Longrightarrow> runs E P Q (apply_obj x)"
  unfolding apply_obj_def by (intro runs_intro) simp_all

section \<open>The order of calls\<close>

text \<open>
  \<open>marks E P m\<close>: a successful run of \<open>m\<close> makes a call that satisfies \<open>P\<close>.
  \<open>precedes E P Q m\<close>: in every run, before any call that satisfies \<open>Q\<close> comes one that
  satisfies \<open>P\<close>.
\<close>

definition marks :: "env \<Rightarrow> (call \<Rightarrow> bool) \<Rightarrow> 'a io \<Rightarrow> bool" where
  "marks E P m \<longleftrightarrow> (\<forall>h x t. m E h = (Inr x, t) \<longrightarrow> (\<exists>k \<in> set t. P k))"

definition precedes :: "env \<Rightarrow> (call \<Rightarrow> bool) \<Rightarrow> (call \<Rightarrow> bool) \<Rightarrow> 'a io \<Rightarrow> bool" where
  "precedes E P Q m \<longleftrightarrow> (\<forall>h a k b. snd (m E h) = a @ k # b \<and> Q k \<longrightarrow> (\<exists>k' \<in> set a. P k'))"

lemma marks_fail [marks_intro]: "marks E P (fail e)"
  by (simp add: marks_def fail_def)

lemma marks_do_write [marks_intro]: "P k \<Longrightarrow> marks E P (bnd (do_write k) f)"
  by (auto simp: marks_def bnd_Inr_iff do_write_run)

lemma marks_bnd: "marks E P m \<Longrightarrow> marks E P (bnd m f)"
  unfolding marks_def bnd_Inr_iff by fastforce

lemma marks_ask: "P k \<Longrightarrow> marks E P (ask k f)"
  by (simp add: marks_def ask_run)

lemma marks_bnd_after: "(\<And>x. marks E P (f x)) \<Longrightarrow> marks E P (bnd m f)"
  unfolding marks_def bnd_Inr_iff by fastforce

lemma marks_bnd_value:
  "runs E Q R m \<Longrightarrow> (\<And>x. R x \<Longrightarrow> marks E P (f x)) \<Longrightarrow> marks E P (bnd m f)"
  unfolding marks_def bnd_Inr_iff runs_def by (metis Un_iff set_append)

lemma marks_thn: "marks E P m \<Longrightarrow> marks E P (thn m m')"
  unfolding thn_def by (rule marks_bnd)

lemma marks_thn_after: "marks E P m' \<Longrightarrow> marks E P (thn m m')"
  unfolding thn_def by (rule marks_bnd_after)

lemma marks_apply_obj [marks_intro]: "P (Apply x) \<Longrightarrow> marks E P (apply_obj x)"
  unfolding apply_obj_def by (rule marks_do_write)

lemma marks_wrapping [marks_intro]: "marks E P m \<Longrightarrow> marks E P (wrapping s m)"
  unfolding marks_def wrapping_def by (auto split: prod.splits sum.splits)

lemma marks_each:
  "x \<in> set xs \<Longrightarrow> marks E P (f x) \<Longrightarrow> marks E P (each f xs)"
  by (induction xs) (auto intro: marks_thn marks_thn_after)

lemma precedes_never: "runs E (\<lambda>k. \<not> Q k) R m \<Longrightarrow> precedes E P Q m"
  unfolding precedes_def runs_def by (metis in_set_conv_decomp prod.collapse)

lemma precedes_bnd:
  assumes "precedes E P Q m" "\<And>x. precedes E P Q (f x)"
  shows "precedes E P Q (bnd m f)"
  unfolding precedes_def
proof (intro allI impI, elim conjE)
  fix h a k b
  assume t: "snd (bnd m f E h) = a @ k # b" and "Q k"
  obtain r t1 where m: "m E h = (r, t1)" by fastforce
  show "\<exists>k' \<in> set a. P k'"
  proof (cases r)
    case (Inl e)
    with assms(1) t m \<open>Q k\<close> show ?thesis by (metis bnd_run_Inl precedes_def snd_conv)
  next
    case (Inr x)
    let ?t2 = "snd (f x E (h @ t1))"
    from t m Inr have eq: "t1 @ ?t2 = a @ k # b" by (simp add: bnd_run_Inr)
    then consider b' where "t1 = a @ k # b'" | a' where "a = t1 @ a'" "?t2 = a' @ k # b"
      by (auto simp: append_eq_append_conv2 append_eq_Cons_conv)
    then show ?thesis
    proof cases
      case 1
      with assms(1) m \<open>Q k\<close> show ?thesis by (metis precedes_def snd_conv)
    next
      case 2
      with assms(2) \<open>Q k\<close> show ?thesis unfolding precedes_def by (metis Un_iff set_append)
    qed
  qed
qed

lemma precedes_mark:
  assumes "runs E (\<lambda>k. \<not> Q k) R m" "marks E P m"
  shows "precedes E P Q (bnd m f)"
  unfolding precedes_def
proof (intro allI impI, elim conjE)
  fix h a k b
  assume t: "snd (bnd m f E h) = a @ k # b" and "Q k"
  obtain r t1 where m: "m E h = (r, t1)" by fastforce
  with assms(1) have no: "k \<notin> set t1" using \<open>Q k\<close> unfolding runs_def by blast
  show "\<exists>k' \<in> set a. P k'"
  proof (cases r)
    case (Inl e)
    with t m no show ?thesis by (simp add: bnd_run_Inl)
  next
    case (Inr x)
    with assms(2) m obtain k' where "k' \<in> set t1" "P k'" unfolding marks_def by blast
    moreover from t m Inr have "t1 @ snd (f x E (h @ t1)) = a @ k # b" by (simp add: bnd_run_Inr)
    with no have "set t1 \<subseteq> set a"
      by (auto simp: append_eq_append_conv2 append_eq_Cons_conv)
    ultimately show ?thesis by blast
  qed
qed

lemma precedes_bnd_value:
  assumes "runs E (\<lambda>k. \<not> Q k) R m" "\<And>x. R x \<Longrightarrow> precedes E P Q (f x)"
  shows "precedes E P Q (bnd m f)"
  unfolding precedes_def
proof (intro allI impI, elim conjE)
  fix h a k b
  assume t: "snd (bnd m f E h) = a @ k # b" and "Q k"
  obtain r t1 where m: "m E h = (r, t1)" by fastforce
  with assms(1) have no: "k \<notin> set t1" and R: "\<And>x. r = Inr x \<Longrightarrow> R x" using \<open>Q k\<close> unfolding runs_def by blast+
  show "\<exists>k' \<in> set a. P k'"
  proof (cases r)
    case (Inl e)
    with t m no show ?thesis by (simp add: bnd_run_Inl)
  next
    case (Inr x)
    let ?t2 = "snd (f x E (h @ t1))"
    from t m Inr have "t1 @ ?t2 = a @ k # b" by (simp add: bnd_run_Inr)
    with no obtain a' where "a = t1 @ a'" "?t2 = a' @ k # b"
      by (auto simp: append_eq_append_conv2 append_eq_Cons_conv)
    with assms(2) [OF R [OF Inr]] \<open>Q k\<close> show ?thesis unfolding precedes_def by (metis Un_iff set_append)
  qed
qed

lemma precedes_thn:
  "precedes E P Q m \<Longrightarrow> precedes E P Q m' \<Longrightarrow> precedes E P Q (thn m m')"
  unfolding thn_def by (rule precedes_bnd)

lemma precedes_thn_mark:
  "runs E (\<lambda>k. \<not> Q k) R m \<Longrightarrow> marks E P m \<Longrightarrow> precedes E P Q (thn m m')"
  unfolding thn_def by (rule precedes_mark)

lemma precedes_thn_skip:
  "runs E (\<lambda>k. \<not> Q k) R m \<Longrightarrow> precedes E P Q m' \<Longrightarrow> precedes E P Q (thn m m')"
  unfolding thn_def by (rule precedes_bnd_value)

lemma precedes_ret [precedes_intro]: "precedes E P Q (ret x)"
  by (simp add: precedes_def ret_def)

lemma precedes_fail [precedes_intro]: "precedes E P Q (fail e)"
  by (simp add: precedes_def fail_def)

lemma precedes_if [precedes_intro]:
  "(b \<Longrightarrow> precedes E P Q m) \<Longrightarrow> (\<not> b \<Longrightarrow> precedes E P Q m') \<Longrightarrow> precedes E P Q (if b then m else m')"
  by simp

lemma precedes_option [precedes_intro]:
  "(r = None \<Longrightarrow> precedes E P Q m) \<Longrightarrow> (\<And>x. r = Some x \<Longrightarrow> precedes E P Q (f x)) \<Longrightarrow>
   precedes E P Q (case r of None \<Rightarrow> m | Some x \<Rightarrow> f x)"
  by (cases r) simp_all

lemma precedes_sum [precedes_intro]:
  "(\<And>x. r = Inl x \<Longrightarrow> precedes E P Q (f x)) \<Longrightarrow> (\<And>y. r = Inr y \<Longrightarrow> precedes E P Q (g y)) \<Longrightarrow>
   precedes E P Q (case r of Inl x \<Rightarrow> f x | Inr y \<Rightarrow> g y)"
  by (cases r) simp_all

lemma precedes_bnd_ask [precedes_intro]:
  "\<not> Q k \<Longrightarrow> (\<And>x. precedes E P Q (g x)) \<Longrightarrow> precedes E P Q (bnd (ask k f) g)"
  by (rule precedes_bnd_value [of E Q "\<lambda>_. True"]) (simp_all add: runs_ask)

lemma precedes_bnd_or_fail [precedes_intro]:
  "(\<And>x. precedes E P Q (g x)) \<Longrightarrow> precedes E P Q (bnd (or_fail r) g)"
  by (cases r) (simp_all add: precedes_fail)

lemma precedes_bnd_or_wrap [precedes_intro]:
  "(\<And>x. precedes E P Q (g x)) \<Longrightarrow> precedes E P Q (bnd (or_wrap s r) g)"
  by (cases r) (simp_all add: precedes_fail)

lemma precedesD: "precedes E P Q m \<Longrightarrow> snd (m E h) = a @ k # b \<Longrightarrow> Q k \<Longrightarrow> \<exists>k' \<in> set a. P k'"
  unfolding precedes_def by blast

end
