(* ===== verification/Components.thy ===== *)
theory Components
  imports Runtime
begin

text \<open>
  The per-component helpers of internal/provider/sync.go: which optional components an Instance
  runs, and how one component's spec becomes replicas, resources, volume, image and
  configuration.
\<close>

section \<open>Optional components\<close>

text \<open>The pair (spec, true) is \<^const>\<open>Some\<close>, (zero spec, false) is \<^const>\<open>None\<close>.\<close>

definition enabledTiFlash :: "(string \<rightharpoonup> component_spec) \<Rightarrow> component_spec option" where
  "enabledTiFlash comps =
     (case comps (comp_name TiFlash) of
        None \<Rightarrow> None
      | Some c \<Rightarrow> (if co_replicas c = Some 0 then None else Some c))"

definition enabledTiProxy :: "(string \<rightharpoonup> component_spec) \<Rightarrow> component_spec option" where
  "enabledTiProxy comps =
     (case comps (comp_name TiProxy) of
        None \<Rightarrow> None
      | Some c \<Rightarrow> (if co_replicas c = Some 0 then None else Some c))"

text \<open>What the clients of either operation rely on: an optional component runs iff its spec is
  present and does not ask for zero replicas, and it depends on that spec alone.\<close>

locale optional_component =
  fixes k :: comp
    and enabled :: "(string \<rightharpoonup> component_spec) \<Rightarrow> component_spec option"
  assumes enabled_iff:
    "enabled comps = Some c \<longleftrightarrow> comps (comp_name k) = Some c \<and> co_replicas c \<noteq> Some 0"
begin

lemma disabled_iff:
  "enabled comps = None \<longleftrightarrow>
     (\<forall>c. comps (comp_name k) = Some c \<longrightarrow> co_replicas c = Some 0)"
  by (metis enabled_iff not_None_eq)

lemma enabled_component_of: "enabled comps = Some c \<Longrightarrow> component_of comps k = c"
  by (simp add: enabled_iff component_of_def)

lemma enabled_cong: "comps (comp_name k) = comps' (comp_name k) \<Longrightarrow> enabled comps = enabled comps'"
  by (metis enabled_iff not_None_eq)

lemma enabled_upd_other:
  "n \<noteq> comp_name k \<Longrightarrow> enabled (comps(n \<mapsto> c)) = enabled comps"
  by (rule enabled_cong) simp

end

interpretation tiflash: optional_component TiFlash enabledTiFlash
  by unfold_locales (auto simp: enabledTiFlash_def split: option.splits)

interpretation tiproxy: optional_component TiProxy enabledTiProxy
  by unfold_locales (auto simp: enabledTiProxy_def split: option.splits)

section \<open>Replicas\<close>

definition defaultPDReplicas :: int where "defaultPDReplicas = 3"
definition defaultTiKVReplicas :: int where "defaultTiKVReplicas = 3"
definition defaultTiDBReplicas :: int where "defaultTiDBReplicas = 2"
definition defaultTiFlashReplicas :: int where "defaultTiFlashReplicas = 1"
definition defaultTiProxyReplicas :: int where "defaultTiProxyReplicas = 2"

definition replicasOrDefault :: "int option \<Rightarrow> int \<Rightarrow> int" where
  "replicasOrDefault r d = (case r of Some n \<Rightarrow> n | None \<Rightarrow> d)"

lemma replicasOrDefault_simps [simp]:
  "replicasOrDefault None d = d" "replicasOrDefault (Some n) d = n"
  by (simp_all add: replicasOrDefault_def)

definition groupIsReady :: "int option \<Rightarrow> int \<Rightarrow> bool" where
  "groupIsReady desired ready = (case desired of None \<Rightarrow> False | Some d \<Rightarrow> d > 0 \<and> ready \<ge> d)"

section \<open>Volumes\<close>

definition dataVolumeName :: string where "dataVolumeName = ''data''"
definition defaultVolumeSize :: quantity where "defaultVolumeSize = ''10Gi''"

definition dataVolumeSize :: "lib \<Rightarrow> storage option \<Rightarrow> quantity" where
  "dataVolumeSize L s =
     (case s of
        None \<Rightarrow> defaultVolumeSize
      | Some st \<Rightarrow> (if q_is_zero L (st_size st) then defaultVolumeSize else st_size st))"

definition dataVolume :: "lib \<Rightarrow> storage option \<Rightarrow> string \<Rightarrow> volume" where
  "dataVolume L s mountType =
     \<lparr>vol_name = dataVolumeName, vol_mount = mountType, vol_storage = dataVolumeSize L s,
      vol_class = (case s of None \<Rightarrow> None | Some st \<Rightarrow> st_class st)\<rparr>"

section \<open>Resources, configuration, images\<close>

text \<open>toResources: the CPU and memory limits that are present and not zero, as (CPU, Memory).\<close>

definition toResources :: "lib \<Rightarrow> (string \<rightharpoonup> quantity) option \<Rightarrow> quantity option \<times> quantity option" where
  "toResources L r =
     (case r of
        None \<Rightarrow> (None, None)
      | Some limits \<Rightarrow>
          ((case limits_cpu L limits of
              None \<Rightarrow> None
            | Some q \<Rightarrow> (if q_is_zero L q then None else Some q)),
           (case limits_memory L limits of
              None \<Rightarrow> None
            | Some q \<Rightarrow> (if q_is_zero L q then None else Some q))))"

definition componentConfig :: "lib \<Rightarrow> component_spec \<Rightarrow> string" where
  "componentConfig L co =
     (case try_decode_component L co of None \<Rightarrow> '''' | Some p \<Rightarrow> pp_Config p)"

definition resolveImage :: "lib \<Rightarrow> string \<Rightarrow> string \<Rightarrow> component_spec \<Rightarrow> string" where
  "resolveImage L spec name co =
     (if co_image co \<noteq> '''' then co_image co
      else if co_version co \<noteq> '''' \<and> image_for_version L spec name (co_version co) \<noteq> ''''
        then image_for_version L spec name (co_version co)
      else default_image L spec name)"

end
