(* ===== verification/Samples.thy ===== *)
theory Samples
  imports Runtime
begin

text \<open>
  A concrete library and a concrete environment, at which the witnesses instantiate the
  parameters. The environment answers every read from a fixed store and accepts every
  write; the library orders versions by their first digit, knows the few quantities the
  witnesses use, and parses no TOML but the empty document.
\<close>

section \<open>A store and the environment that serves it\<close>

record store =
  so_cluster :: "string \<rightharpoonup> cluster"
  so_group :: "comp \<Rightarrow> string \<rightharpoonup> group"
  so_secret :: "string \<rightharpoonup> secret"
  so_backup :: "string \<rightharpoonup> backup"
  so_br_backup :: "string \<rightharpoonup> br_backup"
  so_br_restore :: "string \<rightharpoonup> br_restore"
  so_certificate :: "string \<rightharpoonup> certificate"
  so_instance :: "string \<rightharpoonup> inst"
  so_members :: "comp \<Rightarrow> member list"
  so_backups :: "backup list"
  so_storage :: "string \<rightharpoonup> backup_storage"
  so_now :: time

definition empty_store :: store where
  "empty_store = \<lparr>so_cluster = Map.empty, so_group = (\<lambda>_. Map.empty), so_secret = Map.empty,
     so_backup = Map.empty, so_br_backup = Map.empty, so_br_restore = Map.empty,
     so_certificate = Map.empty, so_instance = Map.empty, so_members = (\<lambda>_. []), so_backups = [],
     so_storage = Map.empty, so_now = 0\<rparr>"

definition serve :: "(string \<rightharpoonup> 'a) \<Rightarrow> 'a reader" where
  "serve m = \<lparr>rd_get = (\<lambda>h n. case m n of None \<Rightarrow> Inl NotFound | Some x \<Rightarrow> Inr x),
              rd_exists = (\<lambda>h n. Inr (m n))\<rparr>"

definition env_of :: "store \<Rightarrow> env" where
  "env_of s = \<lparr>ev_cluster = serve (so_cluster s), ev_group = (\<lambda>k. serve (so_group s k)),
     ev_secret = serve (so_secret s), ev_backup = serve (so_backup s),
     ev_br_backup = serve (so_br_backup s), ev_br_restore = serve (so_br_restore s),
     ev_certificate = serve (so_certificate s), ev_instance = serve (so_instance s),
     ev_members = (\<lambda>h k sel. Inr (so_members s k)),
     ev_backups = (\<lambda>h. Inr (so_backups s)),
     ev_backups_of = (\<lambda>h ns n. Inr (so_backups s)),
     ev_provider_spec = (\<lambda>h. Inr []),
     ev_backup_storage = (\<lambda>h n. case so_storage s n of None \<Rightarrow> Inl NotFound | Some x \<Rightarrow> Inr x),
     ev_credentials = (\<lambda>h n. Inr (''id'', ''key'')),
     ev_data_source = (\<lambda>h. None),
     ev_rest_mapping = (\<lambda>h k. None),
     ev_getenv = (\<lambda>h n. []),
     ev_now = (\<lambda>h. so_now s),
     ev_random = (\<lambda>h n. Inr 0),
     ev_gen_key = (\<lambda>h n. Inr ''key''),
     ev_sign = (\<lambda>h tpl parent pub key. Inr (xt_common_name tpl)),
     ev_write = (\<lambda>h k. None),
     ev_cou_secret = (\<lambda>h x f. f (case so_secret s (om_name (sec_meta x)) of None \<Rightarrow> x | Some y \<Rightarrow> y)),
     ev_cou_backup = (\<lambda>h x f. f (case so_br_backup s (om_name (bb_meta x)) of None \<Rightarrow> x | Some y \<Rightarrow> y)),
     ev_cou_restore = (\<lambda>h x f. f (case so_br_restore s (om_name (br_meta x)) of None \<Rightarrow> x | Some y \<Rightarrow> y))\<rparr>"

lemma serve_simps [simp]:
  "rd_get (serve m) h n = (case m n of None \<Rightarrow> Inl NotFound | Some x \<Rightarrow> Inr x)"
  "rd_exists (serve m) h n = Inr (m n)"
  by (simp_all add: serve_def)

lemma env_of_simps [simp]:
  "ev_cluster (env_of s) = serve (so_cluster s)"
  "ev_group (env_of s) k = serve (so_group s k)"
  "ev_secret (env_of s) = serve (so_secret s)"
  "ev_backup (env_of s) = serve (so_backup s)"
  "ev_br_backup (env_of s) = serve (so_br_backup s)"
  "ev_br_restore (env_of s) = serve (so_br_restore s)"
  "ev_certificate (env_of s) = serve (so_certificate s)"
  "ev_instance (env_of s) = serve (so_instance s)"
  "ev_members (env_of s) h k sel = Inr (so_members s k)"
  "ev_backups (env_of s) h = Inr (so_backups s)"
  "ev_backups_of (env_of s) h ns n = Inr (so_backups s)"
  "ev_provider_spec (env_of s) h = Inr []"
  "ev_backup_storage (env_of s) h n = (case so_storage s n of None \<Rightarrow> Inl NotFound | Some x \<Rightarrow> Inr x)"
  "ev_credentials (env_of s) h n = Inr (''id'', ''key'')"
  "ev_data_source (env_of s) h = None"
  "ev_rest_mapping (env_of s) h k' = None"
  "ev_getenv (env_of s) h n = []"
  "ev_now (env_of s) h = so_now s"
  "ev_random (env_of s) h m = Inr 0"
  "ev_gen_key (env_of s) h m = Inr ''key''"
  "ev_sign (env_of s) h tpl parent pub key = Inr (xt_common_name tpl)"
  "ev_write (env_of s) h q = None"
  "ev_cou_secret (env_of s) h sx sf = sf (case so_secret s (om_name (sec_meta sx)) of None \<Rightarrow> sx | Some y \<Rightarrow> y)"
  "ev_cou_backup (env_of s) h bx bf = bf (case so_br_backup s (om_name (bb_meta bx)) of None \<Rightarrow> bx | Some y \<Rightarrow> y)"
  "ev_cou_restore (env_of s) h rx rf = rf (case so_br_restore s (om_name (br_meta rx)) of None \<Rightarrow> rx | Some y \<Rightarrow> y)"
  by (simp_all add: env_of_def)

lemma serves_serve: "serves (serve m) m"
  by (simp add: serves_def)

section \<open>A library\<close>

definition sample_rank :: "string \<Rightarrow> int" where
  "sample_rank v = (case v of [_, d] \<Rightarrow> 1 + of_char d | _ \<Rightarrow> 0)"

definition sample_quantity :: "string \<Rightarrow> int" where
  "sample_quantity q =
     (if q = ''2560Mi'' then 2560 * 2 ^ 20
      else if q = ''4Gi'' then 4 * 2 ^ 30
      else if q = ''6Gi'' then 6 * 2 ^ 30
      else if q = ''8Gi'' then 8 * 2 ^ 30
      else if q = ''10Gi'' then 10 * 2 ^ 30
      else if q = ''100Gi'' then 100 * 2 ^ 30
      else 0)"

text \<open>The controller reference to an object.\<close>

definition sample_owner :: "obj \<Rightarrow> owner_ref" where
  "sample_owner x = \<lparr>or_kind = ''Owner'', or_name = om_name (obj_meta_of x), or_uid = om_uid (obj_meta_of x), or_controller = True\<rparr>"

text \<open>A certificate that is a CA if its DER begins with a C; there is one key.\<close>

definition sample_cert :: "string \<Rightarrow> x509_cert" where
  "sample_cert der = (let ca = has_prefix der ''C'' in
     \<lparr>xc_raw = der, xc_not_after = 0, xc_constraints = ca, xc_is_ca = ca,
      xc_usage = (if ca then [CertSign, CRLSign, DigitalSignature] else [DigitalSignature, KeyEncipherment]), xc_public = ''key''\<rparr>)"

definition sample_lib :: lib where
  "sample_lib = \<lparr>
     semver_valid = (\<lambda>v. sample_rank v > 0),
     semver_compare = (\<lambda>v w. sample_rank v - sample_rank w),
     toml_decode = (\<lambda>s. if s = [] then Some Map.empty else None),
     toml_encode = (\<lambda>t. if t = Map.empty then Some '''' else None),
     toml_max_replicas = (\<lambda>s. Inr 0),
     q_cmp = (\<lambda>a b. sgn (sample_quantity a - sample_quantity b)),
     q_value = sample_quantity,
     q_is_zero = (\<lambda>q. sample_quantity q = 0),
     q_string = (\<lambda>q. q),
     limits_cpu = (\<lambda>m. m ''cpu''),
     limits_memory = (\<lambda>m. m ''memory''),
     effective_bundle = (\<lambda>s i. []),
     resolve_bundle = (\<lambda>s n. Inl NotFound),
     image_for_version = (\<lambda>s n v. ''img:'' @ v),
     default_image = (\<lambda>s n. ''img''),
     try_decode_component = (\<lambda>co. map_option PdParameters.make (co_parameters co)),
     try_decode_topology = (\<lambda>i. None),
     decode_topology = (\<lambda>i. Inl NotFound),
     object_meta = (\<lambda>i n. (bare_meta (om_namespace (in_meta i)) n)\<lparr>
        om_labels := [''core.openeverest.io/instance'' \<mapsto> om_name (in_meta i)]\<rparr>),
     pod_labels = (\<lambda>i n. [''core.openeverest.io/component'' \<mapsto> n]),
     topology_spread = (\<lambda>p l. []),
     cron_parse = (\<lambda>s. if s = [] then Inl ''empty'' else Inr (\<lambda>t. hour * (t div hour) + hour)),
     ts_parse = (\<lambda>s. Inr (of_nat (length s) * 2 ^ 18)),
     time_to_ts = (\<lambda>t. of_int t),
     time_rfc3339 = (\<lambda>t. itoa t),
     parse_rfc3339 = (\<lambda>s. None),
     duration_string = (\<lambda>d. itoa d),
     parse_model_duration = (\<lambda>s. True),
     qualified_name_error = (\<lambda>s. None),
     label_value_error = (\<lambda>s. None),
     url_hostname = (\<lambda>s. Some s),
     parse_labels = (\<lambda>s. Inr Map.empty),
     pem_decode = (\<lambda>s. case s of [] \<Rightarrow> None | b # bs \<Rightarrow> if b = CHR ''-'' then Some bs else None),
     pem_encode = (\<lambda>ty der. CHR ''-'' # der),
     x509_parse = (\<lambda>der. Inr (sample_cert der)),
     pkcs1_parse = Inr, pkcs1_marshal = (\<lambda>k. k), rsa_public = (\<lambda>k. k),
     stream_instance = rs_instance,
     controller_reference = (\<lambda>x y. Inr (with_meta ((obj_meta_of y)\<lparr>om_owners := [sample_owner x]\<rparr>) y)),
     controller_of = find or_controller,
     new_controller_ref = (\<lambda>x. \<lparr>or_kind = ''Certificate'', or_name = om_name (obj_meta_of x),
        or_uid = om_uid (obj_meta_of x), or_controller = True\<rparr>),
     remove_finalizer = (\<lambda>fs f. (filter (\<lambda>x. x \<noteq> f) fs, f \<in> set fs)),
     find_condition = (\<lambda>cs t. find (\<lambda>co. cond_type co = t) cs),
     validate_backup_succeeded = (\<lambda>b. if bk_state b = BkSucceeded then None else Some ''not succeeded''),
     gvk_for_object = (\<lambda>x. None),
     reflect_value = (\<lambda>x. GPtr None),
     api_const = (\<lambda>s. s),
     api_port = (\<lambda>s. if s = ''DefaultTiProxyPortClient'' then 6000 else 4000),
     to_unstructured = (\<lambda>x. Inr (JObj []))\<rparr>"

lemma sample_lib_simps [simp]:
  "semver_valid sample_lib v \<longleftrightarrow> sample_rank v > 0"
  "semver_compare sample_lib v w = sample_rank v - sample_rank w"
  "toml_decode sample_lib s = (if s = [] then Some Map.empty else None)"
  "toml_encode sample_lib tt = (if tt = Map.empty then Some '''' else None)"
  "toml_max_replicas sample_lib s = Inr 0"
  "q_cmp sample_lib a b = sgn (sample_quantity a - sample_quantity b)"
  "q_value sample_lib = sample_quantity"
  "q_is_zero sample_lib q \<longleftrightarrow> sample_quantity q = 0"
  "q_string sample_lib q = q"
  "limits_cpu sample_lib m = m ''cpu''"
  "limits_memory sample_lib m = m ''memory''"
  "effective_bundle sample_lib s i = []"
  "resolve_bundle sample_lib s n = Inl NotFound"
  "image_for_version sample_lib s n v = ''img:'' @ v"
  "default_image sample_lib s n = ''img''"
  "try_decode_component sample_lib co = map_option PdParameters.make (co_parameters co)"
  "try_decode_topology sample_lib i = None"
  "decode_topology sample_lib i = Inl NotFound"
  "cron_parse sample_lib s = (if s = [] then Inl ''empty'' else Inr (\<lambda>t. hour * (t div hour) + hour))"
  "ts_parse sample_lib s = Inr (of_nat (length s) * 2 ^ 18)"
  "time_to_ts sample_lib t = of_int t"
  "time_rfc3339 sample_lib t = itoa t"
  "parse_rfc3339 sample_lib s = None"
  "duration_string sample_lib t = itoa t"
  "topology_spread sample_lib p l = []"
  "pod_labels sample_lib i n = [''core.openeverest.io/component'' \<mapsto> n]"
  "object_meta sample_lib i n = (bare_meta (om_namespace (in_meta i)) n)\<lparr>
        om_labels := [''core.openeverest.io/instance'' \<mapsto> om_name (in_meta i)]\<rparr>"
  "qualified_name_error sample_lib s = None"
  "label_value_error sample_lib s = None"
  "parse_model_duration sample_lib s"
  "url_hostname sample_lib s = Some s"
  "parse_labels sample_lib s = Inr Map.empty"
  "pem_decode sample_lib s = (case s of [] \<Rightarrow> None | b # bs \<Rightarrow> if b = CHR ''-'' then Some bs else None)"
  "pem_encode sample_lib ty der = CHR ''-'' # der"
  "x509_parse sample_lib der = Inr (sample_cert der)"
  "pkcs1_parse sample_lib = Inr" "pkcs1_marshal sample_lib rk = rk" "rsa_public sample_lib rk = rk"
  "stream_instance sample_lib = rs_instance"
  "controller_reference sample_lib ob ob' = Inr (with_meta ((obj_meta_of ob')\<lparr>om_owners := [sample_owner ob]\<rparr>) ob')"
  "controller_of sample_lib = find or_controller"
  "new_controller_ref sample_lib ob = \<lparr>or_kind = ''Certificate'', or_name = om_name (obj_meta_of ob),
        or_uid = om_uid (obj_meta_of ob), or_controller = True\<rparr>"
  "remove_finalizer sample_lib fs f = (filter (\<lambda>x. x \<noteq> f) fs, f \<in> set fs)"
  "find_condition sample_lib cs ty = find (\<lambda>co. cond_type co = ty) cs"
  "validate_backup_succeeded sample_lib bk = (if bk_state bk = BkSucceeded then None else Some ''not succeeded'')"
  "gvk_for_object sample_lib ob = None"
  "reflect_value sample_lib ob = GPtr None"
  "api_const sample_lib s = s"
  "api_port sample_lib s = (if s = ''DefaultTiProxyPortClient'' then 6000 else 4000)"
  "to_unstructured sample_lib ob = Inr (JObj [])"
  by (simp_all add: sample_lib_def)

lemma sample_owner_laws: "owner_laws sample_lib"
  by (simp add: owner_laws_def bare_meta_def) (intro allI exI conjI, rule refl, simp add: sample_owner_def, simp add: sample_owner_def)

lemma sample_meta_laws: "meta_laws sample_lib"
  by (rule owner_laws_meta [OF sample_owner_laws])

definition sample_instance :: inst where
  "sample_instance = \<lparr>in_meta = (bare_meta ''ns'' ''db'')\<lparr>om_uid := ''u1''\<rparr>, in_provider = ProviderName,
     in_components = [''pd'' \<mapsto> zero_component, ''tikv'' \<mapsto> zero_component, ''tidb'' \<mapsto> zero_component],
     in_version = [], in_topology = None, in_backup = None, in_has_data_source = False,
     in_phase = PhReady\<rparr>"

definition sample_ctx :: ctx where
  "sample_ctx = \<lparr>cx_instance = sample_instance, cx_lib = sample_lib\<rparr>"

lemma sample_ctx_simps [simp]:
  "c_name sample_ctx = ''db''" "c_namespace sample_ctx = ''ns''" "cx_lib sample_ctx = sample_lib"
  "cx_instance sample_ctx = sample_instance"
  "c_components sample_ctx = [''pd'' \<mapsto> zero_component, ''tikv'' \<mapsto> zero_component, ''tidb'' \<mapsto> zero_component]"
  by (simp_all add: sample_ctx_def sample_instance_def c_name_def c_namespace_def
      c_components_def bare_meta_def)

text \<open>A group of the sample Instance.\<close>

definition sample_group :: "comp \<Rightarrow> string \<Rightarrow> int \<Rightarrow> group" where
  "sample_group k v n = \<lparr>g_meta = bare_meta ''ns'' ''db'', g_comp = k, g_cluster = ''db'', g_features = [],
     g_replicas = Some n, g_version = v, g_image = None, g_cpu = None, g_memory = None,
     g_volumes = [], g_config = [], g_overlay = None, g_mysql_tls = None, g_backend_tls = None,
     g_status = zero_group_status\<rparr>"

lemma sample_group_simps [simp]:
  "g_version (sample_group k v n) = v" "g_replicas (sample_group k v n) = Some n"
  "g_comp (sample_group k v n) = k" "g_volumes (sample_group k v n) = []"
  "g_memory (sample_group k v n) = None" "g_status (sample_group k v n) = zero_group_status"
  "g_meta (sample_group k v n) = bare_meta ''ns'' ''db''"
  "g_features (sample_group k v n) = []" "g_config (sample_group k v n) = []"
  "g_mysql_tls (sample_group k v n) = None" "g_overlay (sample_group k v n) = None"
  by (simp_all add: sample_group_def)

definition sample_cluster :: cluster where
  "sample_cluster = \<lparr>cl_meta = (bare_meta ''ns'' ''db'')\<lparr>om_uid := ''c1''\<rparr>,
     cl_bootstrap_sql = None, cl_tls = None, cl_gates = [], cl_security = None\<rparr>"

text \<open>The sample Instance with other components.\<close>

definition sample_ctx_with :: "(string \<rightharpoonup> component_spec) \<Rightarrow> ctx" where
  "sample_ctx_with comps = sample_ctx\<lparr>cx_instance := sample_instance\<lparr>in_components := comps\<rparr>\<rparr>"

lemma sample_ctx_with_simps [simp]:
  "c_name (sample_ctx_with m) = ''db''" "c_namespace (sample_ctx_with m) = ''ns''"
  "cx_lib (sample_ctx_with m) = sample_lib" "c_components (sample_ctx_with m) = m"
  "cx_instance (sample_ctx_with m) = sample_instance\<lparr>in_components := m\<rparr>"
  by (simp_all add: sample_ctx_with_def sample_ctx_def sample_instance_def c_name_def
      c_namespace_def c_components_def bare_meta_def)

lemma zero_component_simps [simp]:
  "co_replicas zero_component = None" "co_version zero_component = []"
  "co_image zero_component = []" "co_resources zero_component = None"
  "co_storage zero_component = None" "co_policy zero_component = None"
  "co_parameters zero_component = None"
  by (simp_all add: zero_component_def)

lemma empty_store_simps [simp]:
  "so_cluster empty_store = Map.empty" "so_group empty_store = (\<lambda>_. Map.empty)"
  "so_secret empty_store = Map.empty" "so_backup empty_store = Map.empty"
  "so_br_backup empty_store = Map.empty" "so_br_restore empty_store = Map.empty"
  "so_certificate empty_store = Map.empty" "so_instance empty_store = Map.empty"
  "so_members empty_store = (\<lambda>_. [])" "so_backups empty_store = []"
  "so_storage empty_store = Map.empty" "so_now empty_store = 0"
  by (simp_all add: empty_store_def)

end
