(* ===== verification/Calendar.thy ===== *)
theory Calendar
  imports Prelude
begin

text \<open>
  The civil calendar behind Go's Time.AddDate, Time.Date and Time.Format, in UTC: days are
  counted from 1 January 1970, months by their index 12 * year + month - 1. AddDate moves the
  month index and the day of the month and lets both overflow into the next month, as
  time.Date normalises them. Dates are computed without bounds; Go's are 64-bit. The scheduler takes
  its clock in the local zone of the process, which in the image the Dockerfile builds is UTC; a zone with
  daylight saving time would shift a retention window that is computed in it by an hour.
\<close>

section \<open>Years and months\<close>

definition leap :: "int \<Rightarrow> bool" where
  "leap y \<longleftrightarrow> y mod 4 = 0 \<and> (y mod 100 \<noteq> 0 \<or> y mod 400 = 0)"

definition year_len :: "int \<Rightarrow> int" where "year_len y = (if leap y then 366 else 365)"

text \<open>The length of month 0 (January) to 11 of a year.\<close>

definition month_len :: "int \<Rightarrow> nat \<Rightarrow> int" where
  "month_len y m = [31, if leap y then 29 else 28, 31, 30, 31, 30, 31, 31, 30, 31, 30, 31] ! m"

text \<open>Days before the k-th year of a 400-year era, and before the m-th month of a year.\<close>

fun years_before :: "int \<Rightarrow> nat \<Rightarrow> int" where
  "years_before y 0 = 0"
| "years_before y (Suc k) = year_len y + years_before (y + 1) k"

fun months_before :: "int \<Rightarrow> nat \<Rightarrow> int" where
  "months_before y 0 = 0"
| "months_before y (Suc m) = months_before y m + month_len y m"

definition era_days :: int where "era_days = 146097"

text \<open>The day number of the first day of a year, and of a month given by its index.\<close>

definition year_start :: "int \<Rightarrow> int" where
  "year_start y = era_days * ((y - 1970) div 400) + years_before 1970 (nat ((y - 1970) mod 400))"

definition month_start :: "int \<Rightarrow> int" where
  "month_start mi = year_start (mi div 12) + months_before (mi div 12) (nat (mi mod 12))"

section \<open>From a day number to a date\<close>

text \<open>The year a day falls in, and the days left of it, counting forward from a year.\<close>

function find_year :: "int \<Rightarrow> int \<Rightarrow> int \<times> int" where
  "find_year y d = (if d < year_len y then (y, d) else find_year (y + 1) (d - year_len y))"
  by pat_completeness auto
termination
  by (relation "measure (\<lambda>(y, d). nat d)") (auto simp: year_len_def split: if_splits)

declare find_year.simps [simp del]

text \<open>The month a day of the year falls in (0 to 11), and the day of that month from 0.\<close>

definition find_month :: "int \<Rightarrow> int \<Rightarrow> nat \<times> int" where
  "find_month y d =
     (let m = length (takeWhile (\<lambda>m. months_before y (Suc m) \<le> d) [0..<11]) in (m, d - months_before y m))"

text \<open>The month index and the day of the month (from 0) of a day number.\<close>

definition civil :: "int \<Rightarrow> int \<times> int" where
  "civil n =
     (case find_year 1970 (n mod era_days) of (y, d) \<Rightarrow>
       (let y' = y + 400 * (n div era_days) in
        case find_month y' d of (m, k) \<Rightarrow> (12 * y' + int m, k)))"

section \<open>AddDate and Format\<close>

definition day_ns :: duration where "day_ns = 24 * hour"

text \<open>AddDate(0, months, days).\<close>

definition add_date :: "time \<Rightarrow> int \<Rightarrow> int \<Rightarrow> time" where
  "add_date t months days =
     (case civil (t div day_ns) of (mi, k) \<Rightarrow>
        (month_start (mi + months) + k + days) * day_ns + t mod day_ns)"

definition pad :: "nat \<Rightarrow> int \<Rightarrow> string" where
  "pad w n = (let s = nat_base 10 (nat n) in replicate (w - length s) CHR ''0'' @ s)"

text \<open>The layout 200601021504: year, month, day, hour and minute.\<close>

definition format_minute :: "time \<Rightarrow> string" where
  "format_minute t =
     (case civil (t div day_ns) of (mi, k) \<Rightarrow>
        pad 4 (mi div 12) @ pad 2 (mi mod 12 + 1) @ pad 2 (k + 1) @
        pad 2 (t mod day_ns div hour) @ pad 2 (t mod hour div minute))"

section \<open>The calendar is consistent\<close>

lemma succ_div_mod:
  fixes x n :: int
  assumes "0 < n"
  shows "x mod n = n - 1 \<Longrightarrow> (x + 1) div n = x div n + 1 \<and> (x + 1) mod n = 0"
    and "x mod n \<noteq> n - 1 \<Longrightarrow> (x + 1) div n = x div n \<and> (x + 1) mod n = x mod n + 1"
proof -
  obtain q r where x: "x = n * q + r" and r: "x div n = q" "x mod n = r" "0 \<le> r" "r < n"
    using assms by (metis mult_div_mod_eq pos_mod_bound pos_mod_sign)
  show "x mod n = n - 1 \<Longrightarrow> (x + 1) div n = x div n + 1 \<and> (x + 1) mod n = 0"
    unfolding r using assms by (simp add: x)
  assume "x mod n \<noteq> n - 1"
  with r have "0 \<le> r + 1" "r + 1 < n" by auto
  then have "(n * q + (r + 1)) div n = q" "(n * q + (r + 1)) mod n = r + 1" by simp_all
  then show "(x + 1) div n = x div n \<and> (x + 1) mod n = x mod n + 1"
    unfolding r by (simp add: x add.assoc)
qed

lemma leap_shift: "leap (y + 400 * e) = leap y"
  by (simp add: leap_def mod_add_right_eq flip: mod_add_right_eq [of y "400 * e"])

lemma year_len_shift: "year_len (y + 400 * e) = year_len y"
  by (simp add: year_len_def leap_shift)

lemma month_len_shift: "month_len (y + 400 * e) m = month_len y m"
  by (simp add: month_len_def leap_shift)

lemma months_before_shift: "months_before (y + 400 * e) m = months_before y m"
  by (induction m) (simp_all add: month_len_shift)

lemma year_len_pos: "0 < year_len y"
  by (simp add: year_len_def)

lemma month_len_bounds:
  assumes "m < 12"
  shows "28 \<le> month_len y m \<and> month_len y m \<le> 31"
proof -
  have "month_len y m \<in> set [31, if leap y then 29 else 28, 31, 30, 31, 30, 31, 31, 30, 31, 30, 31]"
    unfolding month_len_def using assms by (intro nth_mem) simp
  then show ?thesis by auto
qed

lemma months_before_12: "months_before y 12 = year_len y"
  by (simp add: numeral_eq_Suc month_len_def year_len_def)

lemma years_before_Suc: "years_before y (Suc k) = years_before y k + year_len (y + int k)"
proof (induction k arbitrary: y)
  case (Suc k)
  from Suc.IH [of "y + 1"] show ?case by (simp add: add.assoc)
qed simp

lemma years_before_era: "years_before 1970 400 = era_days"
  by code_simp

lemma years_before_mono: "k \<le> l \<Longrightarrow> years_before y k \<le> years_before y l"
proof (induction l)
  case (Suc l)
  then show ?case
    using year_len_pos [of "y + int l"] by (cases "k = Suc l") (auto simp: years_before_Suc simp del: years_before.simps)
qed simp

lemma year_start_Suc: "year_start (y + 1) = year_start y + year_len y"
proof -
  let ?e = "(y - 1970) div 400" and ?k = "(y - 1970) mod 400"
  have y: "y = 1970 + ?k + 400 * ?e" by simp
  have k: "0 \<le> ?k" "?k < 400" by simp_all
  have len: "year_len (1970 + int (nat ?k)) = year_len y"
    using k year_len_shift [of "1970 + ?k" ?e] y by simp
  show ?thesis
  proof (cases "?k = 399")
    case True
    then have "(y + 1 - 1970) div 400 = ?e + 1" "(y + 1 - 1970) mod 400 = 0"
      using succ_div_mod(1) [of 400 "y - 1970"] by (simp_all add: algebra_simps)
    moreover have "years_before 1970 399 + year_len (1970 + int 399) = era_days"
      using years_before_Suc [of 1970 399] years_before_era by simp
    ultimately show ?thesis
      using True len by (simp add: year_start_def algebra_simps)
  next
    case False
    then have "(y + 1 - 1970) div 400 = ?e" "(y + 1 - 1970) mod 400 = ?k + 1"
      using succ_div_mod(2) [of 400 "y - 1970"] by (simp_all add: algebra_simps)
    moreover have "nat (?k + 1) = Suc (nat ?k)" using k by simp
    ultimately show ?thesis
      using len by (simp add: year_start_def years_before_Suc del: years_before.simps)
  qed
qed

lemma month_start_Suc: "month_start (mi + 1) = month_start mi + month_len (mi div 12) (nat (mi mod 12))"
proof (cases "mi mod 12 = 11")
  case True
  then have "(mi + 1) div 12 = mi div 12 + 1" "(mi + 1) mod 12 = 0"
    using succ_div_mod(1) [of 12 mi] by simp_all
  moreover have "months_before (mi div 12) 11 + month_len (mi div 12) 11 = year_len (mi div 12)"
    using months_before_12 [of "mi div 12"] by (simp add: numeral_eq_Suc)
  ultimately show ?thesis using True by (simp add: month_start_def year_start_Suc)
next
  case False
  then have "(mi + 1) div 12 = mi div 12" "(mi + 1) mod 12 = mi mod 12 + 1"
    using succ_div_mod(2) [of 12 mi] by simp_all
  moreover have "nat (mi mod 12 + 1) = Suc (nat (mi mod 12))" by (simp add: nat_add_distrib)
  ultimately show ?thesis by (simp add: month_start_def)
qed

text \<open>Going n months back goes between 28 and 31 days back for each of them.\<close>

lemma month_start_back:
  "month_start mi - 31 * int n \<le> month_start (mi - int n) \<and> month_start (mi - int n) \<le> month_start mi - 28 * int n"
proof (induction n)
  case (Suc n)
  let ?m = "mi - int (Suc n)"
  have "month_start (?m + 1) = month_start ?m + month_len (?m div 12) (nat (?m mod 12))"
    by (rule month_start_Suc)
  moreover have "28 \<le> month_len (?m div 12) (nat (?m mod 12)) \<and> month_len (?m div 12) (nat (?m mod 12)) \<le> 31"
    by (rule month_len_bounds) (simp add: nat_less_iff)
  ultimately show ?case using Suc.IH by simp
qed simp

lemma find_year_spec:
  assumes "find_year y d = (y', d')" "0 \<le> d"
  shows "\<exists>k. y' = y + int k \<and> d = years_before y k + d' \<and> 0 \<le> d' \<and> d' < year_len y'"
  using assms
proof (induction y d arbitrary: y' d' rule: find_year.induct)
  case (1 y d)
  show ?case
  proof (cases "d < year_len y")
    case True
    with 1 show ?thesis by (intro exI [of _ 0]) (simp add: find_year.simps)
  next
    case False
    with 1(2) have "find_year (y + 1) (d - year_len y) = (y', d')"
      by (simp add: find_year.simps [of y d])
    with 1(1) False obtain k where "y' = y + 1 + int k"
      "d - year_len y = years_before (y + 1) k + d'" "0 \<le> d'" "d' < year_len y'"
      by fastforce
    then show ?thesis by (intro exI [of _ "Suc k"]) simp
  qed
qed

lemma find_month_spec:
  assumes "find_month y d = (m, k)" "0 \<le> d" "d < year_len y"
  shows "m < 12 \<and> d = months_before y m + k \<and> 0 \<le> k \<and> k < month_len y m"
proof -
  let ?P = "\<lambda>m. months_before y (Suc m) \<le> d"
  have m: "m = length (takeWhile ?P [0..<11])" and k: "k = d - months_before y m"
    using assms(1) by (auto simp: find_month_def Let_def)
  have le: "m \<le> 11" using length_takeWhile_le [of ?P "[0..<11]"] by (simp add: m)
  have below: "?P i" if "i < m" for i
  proof -
    have "takeWhile ?P [0..<11] ! i = i"
      using that le by (simp add: takeWhile_nth m)
    then show ?thesis using that nth_mem [of i "takeWhile ?P [0..<11]"] set_takeWhileD m by metis
  qed
  have upper: "d < months_before y (Suc m)"
  proof (cases "m = 11")
    case True
    have "Suc 11 = 12" by simp
    with True assms(3) show ?thesis using months_before_12 [of y] by metis
  next
    case False
    then have "\<not> ?P ([0..<11] ! m)"
      using le by (intro nth_length_takeWhile [of ?P "[0..<11]", folded m]) simp
    then show ?thesis using False le by simp
  qed
  have lower: "months_before y m \<le> d"
    using below [of "m - 1"] assms(2) by (cases m) auto
  show ?thesis using le upper lower k by auto
qed

lemma civil_spec:
  assumes "civil n = (mi, k)"
  shows "n = month_start mi + k \<and> 0 \<le> k \<and> k < month_len (mi div 12) (nat (mi mod 12))"
proof -
  obtain y d where yd: "find_year 1970 (n mod era_days) = (y, d)" by fastforce
  have pos: "0 \<le> n mod era_days" "n mod era_days < era_days" by (simp_all add: era_days_def)
  from find_year_spec [OF yd pos(1)] obtain j where
    j: "y = 1970 + int j" "n mod era_days = years_before 1970 j + d" "0 \<le> d" "d < year_len y"
    by blast
  have "j < 400"
  proof (rule ccontr)
    assume "\<not> j < 400"
    then have "era_days \<le> years_before 1970 j" using years_before_mono [of 400 j 1970] years_before_era by simp
    with j pos show False by simp
  qed
  let ?e = "n div era_days" and ?y = "y + 400 * (n div era_days)"
  obtain m l where ml: "find_month ?y d = (m, l)" by fastforce
  have "d < year_len ?y" using j(4) by (simp add: year_len_shift)
  from find_month_spec [OF ml j(3) this] have
    m: "m < 12" "d = months_before ?y m + l" "0 \<le> l" "l < month_len ?y m" by auto
  from assms yd ml have mi: "mi = 12 * ?y + int m" and k: "k = l"
    by (auto simp: civil_def Let_def)
  have "(12 * z + int m) div 12 = z \<and> (12 * z + int m) mod 12 = int m" for z
    using m(1) by simp
  then have div: "mi div 12 = ?y" "mi mod 12 = int m" unfolding mi by blast+
  have "(?y - 1970) div 400 = ?e" "(?y - 1970) mod 400 = int j"
    using j(1) \<open>j < 400\<close> by simp_all
  then have "year_start ?y = era_days * ?e + years_before 1970 j"
    by (simp add: year_start_def)
  then have "month_start mi + k = era_days * ?e + n mod era_days"
    using m j div k by (simp add: month_start_def)
  then show ?thesis using m div k by simp
qed

lemma day_ns_pos: "0 < day_ns"
  by (simp add: day_ns_def hour_def minute_def second_def)

text \<open>Moving by days alone moves by whole days; moving back by months moves back by 28 to 31 days a
  month.\<close>

lemma add_date_days: "add_date t 0 d = t + d * day_ns"
proof -
  obtain mi k where c: "civil (t div day_ns) = (mi, k)" by fastforce
  from civil_spec [OF c] have "month_start mi + k = t div day_ns" by simp
  then have "add_date t 0 d = (t div day_ns + d) * day_ns + t mod day_ns"
    by (simp add: add_date_def c)
  then show ?thesis by (simp add: algebra_simps)
qed

lemma add_date_months:
  "t - 31 * int n * day_ns \<le> add_date t (- int n) 0 \<and> add_date t (- int n) 0 \<le> t - 28 * int n * day_ns"
proof -
  obtain q r where t: "t = q * day_ns + r" and qr: "t div day_ns = q" "t mod day_ns = r"
    by (metis div_mult_mod_eq)
  obtain mi k where c: "civil q = (mi, k)" by fastforce
  from civil_spec [OF c] have tk: "month_start mi + k = q" by simp
  have eq: "add_date t (- int n) 0 = (month_start (mi - int n) + k) * day_ns + r"
    by (simp add: add_date_def qr c)
  have "(q - 31 * int n) * day_ns \<le> (month_start (mi - int n) + k) * day_ns"
    "(month_start (mi - int n) + k) * day_ns \<le> (q - 28 * int n) * day_ns"
    using month_start_back [of mi n] tk day_ns_pos by (auto intro!: mult_right_mono)
  then show ?thesis unfolding eq unfolding t by (simp add: algebra_simps)
qed

end
