(* ===== verification/BackupSchedule.thy ===== *)
theory BackupSchedule
  imports Components Samples Calendar "HOL-Library.List_Lexorder" "HOL-Library.Char_ord"
    "HOL-Library.Multiset"
begin

unbundle bit_operations_syntax

text \<open>
  internal/provider/backup_schedule.go: the BackupScheduler, which turns the cron schedules of an
  Instance into Backups and deletes the ones a schedule's retention no longer keeps. The cron
  expressions are parsed and iterated by robfig/cron, a parameter: a parsed schedule is the
  function Next from an instant to the next activation (the zero time when there is none).
\<close>

section \<open>Slots\<close>

definition scheduleStartingDeadline :: duration where "scheduleStartingDeadline = 10 * minute"
definition scheduleRetryInterval :: duration where "scheduleRetryInterval = minute"
definition maxScheduledBackupNameLength :: int where "maxScheduledBackupNameLength = 56"

text \<open>The loop of latestSlot; \<^const>\<open>None\<close> when it does not end.\<close>

partial_function (option) slot_loop :: "(time \<Rightarrow> time) \<Rightarrow> time \<Rightarrow> time \<Rightarrow> time \<Rightarrow> time option" where
  "slot_loop next now slot t =
     (if \<not> time_is_zero t \<and> \<not> t > now then slot_loop next now t (next t) else Some slot)"

definition latestSlot :: "(time \<Rightarrow> time) \<Rightarrow> time \<Rightarrow> duration \<Rightarrow> time option" where
  "latestSlot next now window = slot_loop next now time_zero (next (now + (- window - second)))"

definition earliest :: "time \<Rightarrow> time \<Rightarrow> time" where
  "earliest a b = (if time_is_zero a \<or> (\<not> time_is_zero b \<and> b < a) then b else a)"

section \<open>Names\<close>

text \<open>The width of the first rune of a non-empty byte string, as Go decodes UTF-8: 1 for ASCII and
  for every byte that starts no valid sequence.\<close>

definition cont_byte :: "int \<Rightarrow> bool" where "cont_byte b \<longleftrightarrow> 128 \<le> b \<and> b \<le> 191"

definition byte_at :: "string \<Rightarrow> nat \<Rightarrow> int" where
  "byte_at s i = (if i < length s then of_char (s ! i) else 0)"

definition rune_width :: "string \<Rightarrow> nat" where
  "rune_width s =
     (let b0 = byte_at s 0; b1 = byte_at s 1; b2 = byte_at s 2; b3 = byte_at s 3 in
      if 194 \<le> b0 \<and> b0 \<le> 223 \<and> cont_byte b1 then 2
      else if ((b0 = 224 \<and> 160 \<le> b1 \<and> b1 \<le> 191) \<or> (b0 = 237 \<and> 128 \<le> b1 \<and> b1 \<le> 159) \<or>
               (225 \<le> b0 \<and> b0 \<le> 239 \<and> b0 \<noteq> 237 \<and> cont_byte b1)) \<and> cont_byte b2 then 3
      else if ((b0 = 240 \<and> 144 \<le> b1 \<and> b1 \<le> 191) \<or> (b0 = 244 \<and> 128 \<le> b1 \<and> b1 \<le> 143) \<or>
               (241 \<le> b0 \<and> b0 \<le> 243 \<and> cont_byte b1)) \<and> cont_byte b2 \<and> cont_byte b3 then 4
      else 1)"

definition is_lower :: "char \<Rightarrow> bool" where "is_lower x \<longleftrightarrow> (97::nat) \<le> of_char x \<and> (of_char x :: nat) \<le> 122"
definition is_upper :: "char \<Rightarrow> bool" where "is_upper x \<longleftrightarrow> (65::nat) \<le> of_char x \<and> (of_char x :: nat) \<le> 90"
definition is_digit :: "char \<Rightarrow> bool" where "is_digit x \<longleftrightarrow> (48::nat) \<le> of_char x \<and> (of_char x :: nat) \<le> 57"

definition dns_char :: "char \<Rightarrow> char" where
  "dns_char x =
     (if is_lower x \<or> is_digit x \<or> x = CHR ''-'' then x
      else if is_upper x then char_of ((of_char x :: nat) + 32)
      else CHR ''-'')"

text \<open>dnsLabel maps every rune; a rune of several bytes is none of the allowed characters.\<close>

function dnsLabel :: "string \<Rightarrow> string" where
  "dnsLabel s =
     (case s of
        [] \<Rightarrow> []
      | x # xs \<Rightarrow>
          (if rune_width s \<le> 1 then dns_char x # dnsLabel xs
           else CHR ''-'' # dnsLabel (drop (rune_width s) s)))"
  by pat_completeness auto
termination
  by (relation "measure length") auto

declare dnsLabel.simps [simp del]

text \<open>The 32-bit FNV-1a hash.\<close>

definition fnv32a :: "string \<Rightarrow> 32 word" where
  "fnv32a s = foldl (\<lambda>h x. (h XOR of_char x) * 16777619) 2166136261 s"

text \<open>The suffix with a slot's time, the hash of the unsanitised name, and the whole name.\<close>

definition slot_suffix :: "time \<Rightarrow> string" where
  "slot_suffix slot = ''-'' @ format_minute slot"

definition hash_part :: "string \<Rightarrow> string" where
  "hash_part raw = ''-'' @ nat_base 16 (unat (fnv32a raw))"

definition scheduledBackupName :: "string \<Rightarrow> string \<Rightarrow> time \<Rightarrow> string" where
  "scheduledBackupName instance_name schedule_name slot =
     (let suffix = slot_suffix slot;
          raw = instance_name @ ''-'' @ schedule_name;
          base = dnsLabel raw in
      if base = raw \<and> int (length base + length suffix) \<le> maxScheduledBackupNameLength then base @ suffix
      else
        let hash = hash_part raw;
            limit = maxScheduledBackupNameLength - int (length suffix) - int (length hash);
            base' = (if int (length base) > limit then trim_right (take (nat limit) base) CHR ''-'' else base)
        in base' @ hash @ suffix)"

section \<open>Selecting backups\<close>

definition instanceCanBackUp :: "inst \<Rightarrow> bool" where
  "instanceCanBackUp i \<longleftrightarrow> in_phase i = PhReady \<or> in_phase i = PhUpdating"

definition backupsOfSchedule :: "backup list \<Rightarrow> string \<Rightarrow> backup list" where
  "backupsOfSchedule all sched = filter (\<lambda>b. bk_schedule b = sched) all"

definition backupFinished :: "backup \<Rightarrow> bool" where
  "backupFinished b \<longleftrightarrow> bk_state b = BkSucceeded \<or> bk_state b = BkFailed"

abbreviation backup_name :: "backup \<Rightarrow> string" where "backup_name b \<equiv> om_name (bk_meta b)"
abbreviation backup_created :: "backup \<Rightarrow> time" where "backup_created b \<equiv> om_created (bk_meta b)"

fun inProgressBackup :: "backup list \<Rightarrow> string" where
  "inProgressBackup [] = ''''"
| "inProgressBackup (b # bs) =
     (if not_deleting (bk_meta b) \<and> \<not> backupFinished b then backup_name b else inProgressBackup bs)"

section \<open>Retention\<close>

text \<open>The order of sort.Slice in expiredBackups: newest first, then by descending name. It is a
  linear order on the creation time and the name.\<close>

datatype backup_key = BackupKey (key_created: time) (key_name: string)

instantiation backup_key :: linorder
begin

definition less_eq_backup_key :: "backup_key \<Rightarrow> backup_key \<Rightarrow> bool" where
  "a \<le> b \<longleftrightarrow> key_created a > key_created b \<or> (key_created a = key_created b \<and> key_name a \<ge> key_name b)"

definition less_backup_key :: "backup_key \<Rightarrow> backup_key \<Rightarrow> bool" where
  "a < b \<longleftrightarrow> key_created a > key_created b \<or> (key_created a = key_created b \<and> key_name a > key_name b)"

instance
  by intro_classes (auto simp: less_eq_backup_key_def less_backup_key_def backup_key.expand)

end

definition backup_key_of :: "backup \<Rightarrow> backup_key" where
  "backup_key_of b = BackupKey (backup_created b) (backup_name b)"

definition finished_backups :: "backup list \<Rightarrow> backup list" where
  "finished_backups bs =
     sort_key backup_key_of (filter (\<lambda>b. not_deleting (bk_meta b) \<and> backupFinished b) bs)"

text \<open>Count retention: everything after the N-th successful backup.\<close>

fun after_count :: "int \<Rightarrow> int \<Rightarrow> backup list \<Rightarrow> backup list" where
  "after_count n succeeded [] = []"
| "after_count n succeeded (b # bs) =
     (if bk_state b \<noteq> BkSucceeded then after_count n succeeded bs
      else if succeeded + 1 = n then bs
      else after_count n (succeeded + 1) bs)"

text \<open>Time retention: what was created before the cutoff, but never the newest successful backup.\<close>

fun before_cutoff :: "time \<Rightarrow> bool \<Rightarrow> backup list \<Rightarrow> backup list" where
  "before_cutoff cutoff newest [] = []"
| "before_cutoff cutoff newest (b # bs) =
     (if bk_state b = BkSucceeded \<and> newest then before_cutoff cutoff False bs
      else if \<not> backup_created b < cutoff then before_cutoff cutoff newest bs
      else b # before_cutoff cutoff newest bs)"

definition invalid_duration :: "string \<Rightarrow> err" where
  "invalid_duration d = Message (''invalid retention duration '' @ go_quote d)"

text \<open>-7*n is computed in 64 bits.\<close>

definition weeks_back :: "int \<Rightarrow> int" where
  "weeks_back n = sint (word_of_int (- 7 * n) :: 64 word)"

definition retentionCutoff :: "string \<Rightarrow> time \<Rightarrow> err + time" where
  "retentionCutoff d now =
     (if length d < 2 then Inl (invalid_duration d)
      else (case atoi (butlast d) of
              None \<Rightarrow> Inl (invalid_duration d)
            | Some n \<Rightarrow>
                if n < 1 then Inl (invalid_duration d)
                else if last d = CHR ''d'' then Inr (add_date now 0 (- n))
                else if last d = CHR ''w'' then Inr (add_date now 0 (weeks_back n))
                else if last d = CHR ''m'' then Inr (add_date now (- n) 0)
                else Inl (invalid_duration d)))"

definition expiredBackups :: "backup list \<Rightarrow> retention option \<Rightarrow> time \<Rightarrow> err + backup list" where
  "expiredBackups bs retention now =
     (case retention of
        None \<Rightarrow> Inr []
      | Some r \<Rightarrow>
          (case rt_type r of
             RetentionCount \<Rightarrow>
               (case rt_count r of
                  None \<Rightarrow> Inl (Message ''count retention without a count'')
                | Some n \<Rightarrow> Inr (after_count n 0 (finished_backups bs)))
           | RetentionTime \<Rightarrow>
               (case retentionCutoff (rt_duration r) now of
                  Inl e \<Rightarrow> Inl e
                | Inr cutoff \<Rightarrow> Inr (before_cutoff cutoff True (finished_backups bs)))
           | RetentionOther t \<Rightarrow> Inl (Message (''unknown retention type '' @ go_quote t))))"

section \<open>The reconciler\<close>

text \<open>The Backup created for a slot.\<close>

definition scheduled_backup :: "inst \<Rightarrow> string \<Rightarrow> schedule \<Rightarrow> string \<Rightarrow> backup" where
  "scheduled_backup i storageRef sch name =
     \<lparr>bk_meta = bare_meta (om_namespace (in_meta i)) name, bk_instance = Some (om_name (in_meta i)),
      bk_class = (case in_backup i of None \<Rightarrow> '''' | Some ib \<Rightarrow> ib_class ib),
      bk_storage = storageRef, bk_schedule = sch_name sch, bk_policy = PolicyUnset,
      bk_parameters = sch_parameters sch, bk_state = BkNone\<rparr>"

definition fireDueSlot ::
  "inst \<Rightarrow> string \<Rightarrow> schedule \<Rightarrow> (time \<Rightarrow> time) \<Rightarrow> backup list \<Rightarrow> time \<Rightarrow> time io" where
  "fireDueSlot i storageRef sch cronNext backups now =
     (let next = cronNext now in
      case latestSlot cronNext now scheduleStartingDeadline of
        None \<Rightarrow> fail NoReturn
      | Some slot \<Rightarrow>
          if time_is_zero slot then ret next
          else
            let name = scheduledBackupName (om_name (in_meta i)) (sch_name sch) slot in
            if \<exists>b \<in> set backups. backup_name b = name then ret next
            else if \<not> instanceCanBackUp i then ret (earliest next (now + scheduleRetryInterval))
            else if inProgressBackup backups \<noteq> '''' then ret (earliest next (now + scheduleRetryInterval))
            else
              bnd (do_write (Create (OBackup (scheduled_backup i storageRef sch name)))) (\<lambda>r.
                case r of
                  Some e \<Rightarrow>
                    if e = AlreadyExists then ret next
                    else fail (Wrapped (''create scheduled backup '' @ go_quote name) (Passed e))
                | None \<Rightarrow> ret next))"

text \<open>A retention that cannot be evaluated is only logged.\<close>

definition applyRetention :: "schedule \<Rightarrow> backup list \<Rightarrow> time \<Rightarrow> unit io" where
  "applyRetention sch backups now =
     (case expiredBackups backups (sch_retention sch) now of
        Inl e \<Rightarrow> ret ()
      | Inr expired \<Rightarrow>
          each (\<lambda>b. bnd (do_write (Delete KBackup (backup_name b))) (\<lambda>r.
            ok_or_wrap (''delete expired backup '' @ go_quote (backup_name b)) (ignore_not_found r))) expired)"

text \<open>One schedule of one storage: nothing for a disabled schedule or an invalid expression.\<close>

definition run_schedule :: "lib \<Rightarrow> inst \<Rightarrow> backup list \<Rightarrow> time \<Rightarrow> string \<Rightarrow> schedule \<Rightarrow> time \<Rightarrow> time io" where
  "run_schedule L i items now storageRef sch wake =
     (if \<not> sch_enabled sch then ret wake
      else (case cron_parse L (sch_cron sch) of
              Inl e \<Rightarrow> ret wake
            | Inr cronNext \<Rightarrow>
                let backups = backupsOfSchedule items (sch_name sch) in
                bnd (fireDueSlot i storageRef sch cronNext backups now) (\<lambda>next.
                thn (applyRetention sch backups now) (ret (earliest wake next)))))"

fun run_schedules :: "lib \<Rightarrow> inst \<Rightarrow> backup list \<Rightarrow> time \<Rightarrow> string \<Rightarrow> schedule list \<Rightarrow> time \<Rightarrow> time io" where
  "run_schedules L i items now storageRef [] wake = ret wake"
| "run_schedules L i items now storageRef (sch # schs) wake =
     bnd (run_schedule L i items now storageRef sch wake) (run_schedules L i items now storageRef schs)"

fun run_storages :: "lib \<Rightarrow> inst \<Rightarrow> backup list \<Rightarrow> time \<Rightarrow> backup_storage_ref list \<Rightarrow> time \<Rightarrow> time io" where
  "run_storages L i items now [] wake = ret wake"
| "run_storages L i items now (st # sts) wake =
     bnd (run_schedules L i items now (bs_ref st) (bs_schedules st) wake) (run_storages L i items now sts)"

text \<open>Reconcile returns how long to wait before the next run, if at all.\<close>

definition Reconcile :: "lib \<Rightarrow> string \<Rightarrow> duration option io" where
  "Reconcile L name =
     bnd (ask (Get KInstance name) (\<lambda>E h. rd_get (ev_instance E) h name)) (\<lambda>r.
       case r of
         Inl e \<Rightarrow> if e = NotFound then ret None else fail (Passed e)
       | Inr i \<Rightarrow>
           (case in_backup i of
              None \<Rightarrow> ret None
            | Some ib \<Rightarrow>
                if \<not> not_deleting (in_meta i) \<or> \<not> ib_enabled ib then ret None
                else
                  bnd (ask (ListBackupsOf (om_namespace (in_meta i)) (om_name (in_meta i)))
                         (\<lambda>E h. ev_backups_of E h (om_namespace (in_meta i)) (om_name (in_meta i)))) (\<lambda>l.
                  bnd (or_wrap ''list backups'' l) (\<lambda>items.
                  bnd (ask Now (\<lambda>E h. ev_now E h)) (\<lambda>now.
                  bnd (run_storages L i items now (ib_storages ib) time_zero) (\<lambda>wake.
                    if time_is_zero wake then ret None else ret (Some (time_sub wake now))))))))"

text \<open>Which objects wake the scheduler up (the watch predicates).\<close>

definition isProviderInstance :: "inst \<Rightarrow> bool" where
  "isProviderInstance i \<longleftrightarrow> in_provider i = ProviderName"

definition instanceForScheduledBackup :: "backup \<Rightarrow> (string \<times> string) list" where
  "instanceForScheduledBackup b =
     (case bk_instance b of
        None \<Rightarrow> []
      | Some n \<Rightarrow> if bk_schedule b = '''' then [] else [(om_namespace (bk_meta b), n)])"

definition reasonScheduleInvalid :: string where "reasonScheduleInvalid = ''BackupScheduleInvalid''"

text \<open>validateBackupSchedules collects every schedule whose expression does not parse.\<close>

definition schedule_errors :: "lib \<Rightarrow> instance_backup \<Rightarrow> string list" where
  "schedule_errors L ib =
     concat (map (\<lambda>st. concat (map (\<lambda>sch.
       case cron_parse L (sch_cron sch) of
         Inl e \<Rightarrow> [''schedule '' @ go_quote (sch_name sch) @ '': invalid cron '' @ go_quote (sch_cron sch) @ '': '' @ e]
       | Inr _ \<Rightarrow> []) (bs_schedules st))) (ib_storages ib))"

definition validateBackupSchedules :: "lib \<Rightarrow> instance_backup option \<Rightarrow> err option" where
  "validateBackupSchedules L backup =
     (case backup of
        None \<Rightarrow> None
      | Some ib \<Rightarrow>
          if \<not> ib_enabled ib then None
          else if schedule_errors L ib = [] then None
          else Some (BackupConfigError reasonScheduleInvalid (join_str (schedule_errors L ib) [CHR 0x0A])))"

section \<open>The latest slot\<close>

text \<open>
  What Next of a parsed schedule with the activations \<open>A\<close> gives from year 1 on: the
  first activation after an instant, or the zero time when none follows within a year
  (robfig/cron gives up after five).
\<close>

definition cron_laws :: "(time \<Rightarrow> time) \<Rightarrow> time set \<Rightarrow> bool" where
  "cron_laws next A \<longleftrightarrow> (\<forall>a \<in> A. time_zero < a) \<and>
     (\<forall>t \<ge> time_zero.
        (next t = time_zero \<and> (\<forall>a \<in> A. t < a \<longrightarrow> t + 365 * day_ns < a)) \<or>
        (next t \<in> A \<and> t < next t \<and> (\<forall>a \<in> A. t < a \<longrightarrow> next t \<le> a)))"

lemma cron_lawsE:
  assumes "cron_laws next A" "time_zero \<le> t"
  obtains (none) "next t = time_zero" "\<forall>a \<in> A. t < a \<longrightarrow> t + 365 * day_ns < a"
  | (some) "next t \<in> A" "t < next t" "\<forall>a \<in> A. t < a \<longrightarrow> next t \<le> a" "time_zero < next t"
  using assms unfolding cron_laws_def by blast

text \<open>From an activation on, the loop climbs to the last activation that is not after now.\<close>

lemma slot_loop_from:
  assumes laws: "cron_laws next A" and "t \<in> A" "t \<le> now" "now < t + 365 * day_ns"
  shows "\<exists>s. slot_loop next now t (next t) = Some s \<and> s \<in> A \<and> t \<le> s \<and> s \<le> now \<and>
             (\<forall>a \<in> A. a \<le> now \<longrightarrow> a \<le> s)"
  using assms(2-4)
proof (induction "nat (now - t)" arbitrary: t rule: less_induct)
  case less
  from laws less.prems(1) have "time_zero \<le> t" by (auto simp: cron_laws_def)
  with laws show ?case
  proof (cases rule: cron_lawsE)
    case none
    then have "slot_loop next now t (next t) = Some t"
      by (subst slot_loop.simps) (simp add: time_is_zero_def)
    with none less.prems show ?thesis by force
  next
    case some
    show ?thesis
    proof (cases "next t \<le> now")
      case True
      then have "slot_loop next now t (next t) = slot_loop next now (next t) (next (next t))"
        using some by (subst slot_loop.simps) (simp add: time_is_zero_def)
      moreover have "nat (now - next t) < nat (now - t)" using True some by simp
      ultimately show ?thesis
        using less.hyps [of "next t"] True some less.prems by force
    next
      case False
      then have "slot_loop next now t (next t) = Some t"
        by (subst slot_loop.simps) simp
      with False some less.prems show ?thesis by force
    qed
  qed
qed

lemma latestSlot_result:
  assumes laws: "cron_laws next A" and "time_zero + hour \<le> now"
  obtains (none) "latestSlot next now scheduleStartingDeadline = Some time_zero"
      "\<forall>a \<in> A. a \<le> now \<longrightarrow> a \<le> now - scheduleStartingDeadline - second"
  | (slot) s where "latestSlot next now scheduleStartingDeadline = Some s" "s \<in> A"
      "now - scheduleStartingDeadline - second < s" "s \<le> now" "\<forall>a \<in> A. a \<le> now \<longrightarrow> a \<le> s"
proof -
  let ?w = "now + (- scheduleStartingDeadline - second)"
  have w: "time_zero \<le> ?w" "now < ?w + 365 * day_ns" and day: "0 < day_ns"
    using assms(2)
    by (simp_all add: scheduleStartingDeadline_def hour_def minute_def second_def day_ns_def)
  have run: "latestSlot next now scheduleStartingDeadline = slot_loop next now time_zero (next ?w)"
    by (simp add: latestSlot_def)
  from laws w(1) show ?thesis
  proof (cases rule: cron_lawsE)
    case none
    then have "latestSlot next now scheduleStartingDeadline = Some time_zero"
      unfolding run by (subst slot_loop.simps) (simp add: time_is_zero_def)
    then show ?thesis using that(1) none w(2) by force
  next
    case some
    show ?thesis
    proof (cases "next ?w \<le> now")
      case True
      then have "slot_loop next now time_zero (next ?w) = slot_loop next now (next ?w) (next (next ?w))"
        using some by (subst slot_loop.simps) (simp add: time_is_zero_def)
      moreover have "now < next ?w + 365 * day_ns" using some(2) w(2) by simp
      ultimately show ?thesis
        using slot_loop_from [OF laws some(1) True] that(2) run some by force
    next
      case False
      then have "latestSlot next now scheduleStartingDeadline = Some time_zero"
        unfolding run by (subst slot_loop.simps) simp
      then show ?thesis using that(1) False some by force
    qed
  qed
qed

section \<open>Names of scheduled backups\<close>

definition dns_ok :: "char \<Rightarrow> bool" where
  "dns_ok x \<longleftrightarrow> is_lower x \<or> is_digit x \<or> x = CHR ''-''"

definition slot_year :: "time \<Rightarrow> int" where
  "slot_year t = fst (civil (t div day_ns)) div 12"

lemma is_lower_of_upper: "is_upper x \<Longrightarrow> is_lower (char_of ((of_char x :: nat) + 32))"
  by (simp add: is_upper_def is_lower_def of_char_of)

lemma dns_char_ok: "dns_ok (dns_char x)"
  using is_lower_of_upper [of x] by (simp add: dns_char_def dns_ok_def)

lemma dnsLabel_ok: "set (dnsLabel s) \<subseteq> Collect dns_ok"
proof (induction s rule: dnsLabel.induct)
  case (1 s)
  show ?case
  proof (cases s)
    case Nil
    then show ?thesis by (subst dnsLabel.simps) simp
  next
    case (Cons x xs)
    then show ?thesis using 1 dns_char_ok [of x]
      by (subst dnsLabel.simps) (auto simp: dns_ok_def)
  qed
qed

lemma hex_digits_ok: "set hex_digits \<subseteq> Collect dns_ok"
  by (simp add: hex_digits_def dns_ok_def is_lower_def is_digit_def)

lemma length_hash_part: "length (hash_part raw) \<le> 9"
proof -
  have "unat (fnv32a raw) < 16 ^ 8" using unsigned_less [of "fnv32a raw"] by simp
  then have "length (nat_base 16 (unat (fnv32a raw))) \<le> 8"
    by (intro length_nat_base) simp_all
  then show ?thesis by (simp add: hash_part_def)
qed

lemma mod_div_range:
  fixes t m n :: int
  assumes "0 < m" "0 < n"
  shows "0 \<le> t mod (n * m) div m \<and> t mod (n * m) div m < n"
proof -
  have "t mod (n * m) = m * (t div m mod n) + t mod m"
    using zmod_zmult2_eq [of n t m] assms by (simp add: mult.commute)
  then have "t mod (n * m) div m = t div m mod n" using assms by simp
  then show ?thesis using assms by simp
qed

lemma div_split:
  fixes t m n :: int
  assumes "0 < m" "0 < n"
  shows "t div m = n * (t div (n * m)) + t mod (n * m) div m"
proof -
  have "t = m * (n * (t div (n * m))) + t mod (n * m)"
    using mult_div_mod_eq [of "n * m" t] by (simp add: ac_simps)
  then have "t div m = (m * (n * (t div (n * m))) + t mod (n * m)) div m" by simp
  then show ?thesis using assms by simp
qed

lemma slot_fields:
  assumes "civil (t div day_ns) = (mi, k)"
  shows "t div day_ns = month_start mi + k \<and> 0 \<le> k \<and> k < 31 \<and>
         0 \<le> t mod day_ns div hour \<and> t mod day_ns div hour < 24 \<and>
         0 \<le> t mod hour div minute \<and> t mod hour div minute < 60"
proof -
  have "month_len (mi div 12) (nat (mi mod 12)) \<le> 31"
    by (rule month_len_bounds [THEN conjunct2]) (simp add: nat_less_iff)
  moreover have "0 < hour" "0 < minute" by (simp_all add: hour_def minute_def second_def)
  ultimately show ?thesis
    using civil_spec [OF assms] mod_div_range [of hour 24 t] mod_div_range [of minute 60 t]
    by (auto simp: day_ns_def hour_def)
qed

lemma pad_spec:
  assumes "0 < w" "0 \<le> n" "n < 10 ^ w"
  shows "length (pad w n) = w \<and> set (pad w n) \<subseteq> Collect dns_ok"
proof -
  have "nat n < 10 ^ w" using assms by (metis nat_less_iff of_nat_numeral of_nat_power)
  then have "length (nat_base 10 (nat n)) \<le> w" using assms by (intro length_nat_base) simp_all
  moreover have "set (nat_base 10 (nat n)) \<subseteq> Collect dns_ok"
    using nat_base_digits [of 10 "nat n"] hex_digits_ok by simp
  ultimately show ?thesis by (auto simp: pad_def Let_def dns_ok_def is_digit_def)
qed

lemma parse_digits_append:
  "parse_digits a (xs @ ys) = (case parse_digits a xs of None \<Rightarrow> None | Some b \<Rightarrow> parse_digits b ys)"
  by (induction a xs rule: parse_digits.induct) (auto split: option.splits)

lemma digit_value_hex: "i < 10 \<Longrightarrow> digit_value (hex_digits ! i) = Some (int i)"
  by (auto simp: less_Suc_eq numeral_eq_Suc hex_digits_def digit_value_def)

lemma parse_nat_base: "parse_digits 0 (nat_base 10 n) = Some (int n)"
proof (induction n rule: less_induct)
  case (less n)
  show ?case
  proof (cases "n < 10")
    case True
    then show ?thesis by (subst nat_base.simps) (simp add: digit_value_hex)
  next
    case False
    then have "parse_digits 0 (nat_base 10 (n div 10)) = Some (int (n div 10))" by (intro less) simp
    moreover have "10 * int (n div 10) + int (n mod 10) = int n" by arith
    ultimately show ?thesis using False
      by (subst nat_base.simps) (simp add: parse_digits_append digit_value_hex)
  qed
qed

lemma parse_pad: "0 \<le> n \<Longrightarrow> parse_digits 0 (pad w n) = Some n"
proof -
  have "parse_digits 0 (replicate j CHR ''0'' @ s) = parse_digits 0 s" for j s
    by (induction j) (simp_all add: digit_value_def)
  then show "0 \<le> n \<Longrightarrow> ?thesis" by (simp add: pad_def Let_def parse_nat_base)
qed

lemma pad_inject: "pad w m = pad w n \<Longrightarrow> 0 \<le> m \<Longrightarrow> 0 \<le> n \<Longrightarrow> m = n"
  by (metis option.inject parse_pad)

lemma slot_suffix_spec:
  assumes "0 \<le> slot_year t" "slot_year t < 10000"
  shows "length (slot_suffix t) = 13 \<and> set (slot_suffix t) \<subseteq> Collect dns_ok"
proof -
  obtain mi k where c: "civil (t div day_ns) = (mi, k)" by fastforce
  note f = slot_fields [OF c]
  have "0 \<le> mi mod 12" "mi mod 12 < 12" by simp_all
  with f assms c show ?thesis
    by (simp add: slot_suffix_def format_minute_def slot_year_def pad_spec dns_ok_def)
qed

lemma pad_append_inject:
  assumes "0 < w" "0 \<le> m" "m < 10 ^ w" "0 \<le> n" "n < 10 ^ w" "pad w m @ r = pad w n @ r'"
  shows "m = n \<and> r = r'"
proof -
  have "pad w m = pad w n \<and> r = r'"
    using assms pad_spec [of w m] pad_spec [of w n] by (metis append_eq_append_conv)
  with assms pad_inject show ?thesis by blast
qed

lemma slot_suffix_inject:
  assumes "0 \<le> slot_year t" "slot_year t < 10000" "0 \<le> slot_year t'" "slot_year t' < 10000"
    and eq: "slot_suffix t = slot_suffix t'"
  shows "t div minute = t' div minute"
proof -
  obtain mi k where c: "civil (t div day_ns) = (mi, k)" by fastforce
  obtain mi' k' where c': "civil (t' div day_ns) = (mi', k')" by fastforce
  note f = slot_fields [OF c] and f' = slot_fields [OF c']
  have "0 \<le> mi div 12" "mi div 12 < 10 ^ 4" "0 \<le> mi' div 12" "mi' div 12 < 10 ^ 4"
    using assms c c' by (simp_all add: slot_year_def)
  note p4 = pad_append_inject [of 4, OF _ this]
  note p2 = pad_append_inject [of 2]
  from eq c c' have "pad 4 (mi div 12) @ pad 2 (mi mod 12 + 1) @ pad 2 (k + 1) @
      pad 2 (t mod day_ns div hour) @ pad 2 (t mod hour div minute) @ [] =
    pad 4 (mi' div 12) @ pad 2 (mi' mod 12 + 1) @ pad 2 (k' + 1) @
      pad 2 (t' mod day_ns div hour) @ pad 2 (t' mod hour div minute) @ []"
    by (simp add: slot_suffix_def format_minute_def)
  from p4 [OF _ this] have y: "mi div 12 = mi' div 12" and
    r1: "pad 2 (mi mod 12 + 1) @ pad 2 (k + 1) @
      pad 2 (t mod day_ns div hour) @ pad 2 (t mod hour div minute) @ [] =
     pad 2 (mi' mod 12 + 1) @ pad 2 (k' + 1) @
      pad 2 (t' mod day_ns div hour) @ pad 2 (t' mod hour div minute) @ []"
    by simp_all
  from p2 [OF _ _ _ _ _ r1] have m: "mi mod 12 = mi' mod 12" and
    r2: "pad 2 (k + 1) @ pad 2 (t mod day_ns div hour) @ pad 2 (t mod hour div minute) @ [] =
     pad 2 (k' + 1) @ pad 2 (t' mod day_ns div hour) @ pad 2 (t' mod hour div minute) @ []"
    using pos_mod_bound [of 12 mi] pos_mod_bound [of 12 mi']
    by (simp_all add: add_nonneg_nonneg)
  from p2 [OF _ _ _ _ _ r2] f f' have "k = k'" and
    r3: "pad 2 (t mod day_ns div hour) @ pad 2 (t mod hour div minute) @ [] =
     pad 2 (t' mod day_ns div hour) @ pad 2 (t' mod hour div minute) @ []"
    by simp_all
  from p2 [OF _ _ _ _ _ r3] f f' have h: "t mod day_ns div hour = t' mod day_ns div hour" and
    r4: "pad 2 (t mod hour div minute) @ [] = pad 2 (t' mod hour div minute) @ []"
    by simp_all
  from p2 [OF _ _ _ _ _ r4] f f' have mi: "t mod hour div minute = t' mod hour div minute" by simp
  from y m have "mi = mi'" by (metis mult_div_mod_eq)
  with \<open>k = k'\<close> f f' have day: "t div day_ns = t' div day_ns" by simp
  have hr: "x div hour = 24 * (x div day_ns) + x mod day_ns div hour" for x
    unfolding day_ns_def by (rule div_split) (simp_all add: hour_def minute_def second_def)
  have mn: "x div minute = 60 * (x div hour) + x mod hour div minute" for x
    unfolding hour_def by (rule div_split) (simp_all add: minute_def second_def)
  show ?thesis using day h mi hr [of t] hr [of t'] mn [of t] mn [of t'] by simp
qed

lemma scheduledBackupName_parts:
  obtains base where "scheduledBackupName i s t = base @ slot_suffix t"
    "set base \<subseteq> Collect dns_ok"
    "length (slot_suffix t) = 13 \<longrightarrow> length base \<le> 43"
proof -
  let ?raw = "i @ ''-'' @ s" and ?suffix = "slot_suffix t"
  let ?hash = "hash_part ?raw" and ?label = "dnsLabel (i @ ''-'' @ s)"
  let ?limit = "56 - int (length ?suffix) - int (length ?hash)"
  let ?cut = "if int (length ?label) > ?limit then trim_right (take (nat ?limit) ?label) CHR ''-'' else ?label"
  have cut: "int (length ?cut) \<le> max 0 ?limit" "set ?cut \<subseteq> Collect dns_ok"
    using length_trim_right [of "take (nat ?limit) ?label" "CHR ''-''"] dnsLabel_ok [of ?raw]
      set_trim_right [of "take (nat ?limit) ?label" "CHR ''-''"] set_take_subset [of "nat ?limit" ?label]
    by (fastforce split: if_splits)+
  have hash: "set ?hash \<subseteq> Collect dns_ok"
    using nat_base_digits [of 16 "unat (fnv32a ?raw)"] hex_digits_ok
    by (simp add: hash_part_def dns_ok_def)
  show ?thesis
  proof (cases "?label = ?raw \<and> int (length ?label + length ?suffix) \<le> 56")
    case True
    show ?thesis
      by (rule that [of ?label])
        (use True dnsLabel_ok [of ?raw] in
          \<open>auto simp: scheduledBackupName_def maxScheduledBackupNameLength_def Let_def\<close>)
  next
    case False
    show ?thesis
      by (rule that [of "?cut @ ?hash"])
        (use False cut hash length_hash_part [of ?raw] in
          \<open>auto simp: scheduledBackupName_def maxScheduledBackupNameLength_def Let_def split: if_splits\<close>)
  qed
qed

text \<open>Two Instances of a namespace can share a name: only the concatenation of the Instance's and the
  schedule's name is used.\<close>

lemma scheduledBackupName_ambiguous:
  "scheduledBackupName (a @ ''-'' @ b) c slot = scheduledBackupName a (b @ ''-'' @ c) slot"
  by (simp add: scheduledBackupName_def)

section \<open>What retention expires\<close>

definition finished_backup :: "backup list \<Rightarrow> backup \<Rightarrow> bool" where
  "finished_backup bs b \<longleftrightarrow> b \<in> set bs \<and> not_deleting (bk_meta b) \<and> backupFinished b"

text \<open>The finished successes that come before a backup in the order of sort.Slice.\<close>

definition newer_successes :: "backup list \<Rightarrow> backup \<Rightarrow> backup list" where
  "newer_successes bs b = filter (\<lambda>b'. not_deleting (bk_meta b') \<and> bk_state b' = BkSucceeded \<and>
     backup_key_of b' < backup_key_of b) bs"

lemma set_finished_backups: "set (finished_backups bs) = {b. finished_backup bs b}"
  by (auto simp: finished_backups_def finished_backup_def)

lemma strict_sorted_key:
  "sorted (map f xs) \<Longrightarrow> distinct (map f xs) \<Longrightarrow> sorted_wrt (\<lambda>a b. f a < f b) xs"
  using strict_sorted_iff [of "map f xs"] by (simp add: sorted_wrt_map)

lemma finished_backups_strict:
  assumes "distinct (map backup_name bs)"
  shows "sorted_wrt (\<lambda>a b. backup_key_of a < backup_key_of b) (finished_backups bs)"
proof (rule strict_sorted_key)
  let ?f = "filter (\<lambda>b. not_deleting (bk_meta b) \<and> backupFinished b) bs"
  show "sorted (map backup_key_of (finished_backups bs))"
    by (simp add: finished_backups_def)
  have "distinct (map key_name (map backup_key_of ?f))"
    using distinct_map_filter [OF assms] by (simp add: backup_key_of_def comp_def)
  then have "distinct (map backup_key_of ?f)" by (metis distinct_map)
  moreover have "mset (map backup_key_of (finished_backups bs)) = mset (map backup_key_of ?f)"
    by (simp only: finished_backups_def mset_map mset_sort)
  ultimately show "distinct (map backup_key_of (finished_backups bs))"
    by (metis mset_eq_imp_distinct_iff)
qed

abbreviation succeeded_before :: "backup \<Rightarrow> backup list \<Rightarrow> backup list" where
  "succeeded_before b \<equiv> filter (\<lambda>b'. bk_state b' = BkSucceeded \<and> backup_key_of b' < backup_key_of b)"

lemma newer_successes_finished:
  "length (newer_successes bs b) = length (succeeded_before b (finished_backups bs))"
proof -
  have "mset (succeeded_before b (finished_backups bs)) = mset (newer_successes bs b)"
    by (auto simp: finished_backups_def newer_successes_def backupFinished_def mset_filter
        intro!: multiset_eqI)
  then show ?thesis by (metis size_mset)
qed

lemma after_count_done: "n \<le> s \<Longrightarrow> after_count n s xs = []"
  by (induction n s xs rule: after_count.induct) auto

lemma after_count_subset: "set (after_count n s xs) \<subseteq> set xs"
  by (induction n s xs rule: after_count.induct) auto

lemma after_count_iff:
  assumes "sorted_wrt (\<lambda>a b. backup_key_of a < backup_key_of b) xs" "s < n"
  shows "b \<in> set (after_count n s xs) \<longleftrightarrow> b \<in> set xs \<and> n - s \<le> int (length (succeeded_before b xs))"
  using assms
proof (induction n s xs rule: after_count.induct)
  case (1 n s)
  then show ?case by simp
next
  case (2 n s x xs)
  then have lt: "\<forall>y \<in> set xs. backup_key_of x < backup_key_of y" by simp
  then have none: "b = x \<Longrightarrow> succeeded_before b xs = []"
    by (auto simp: filter_empty_conv dest: order.asym)
  have sub: "b \<in> set (after_count n s' xs) \<Longrightarrow> b \<in> set xs" for s'
    using after_count_subset by blast
  show ?case
  proof (cases "b \<in> set xs")
    case True
    with lt have "b \<noteq> x" "backup_key_of x < backup_key_of b" by auto
    with 2 True show ?thesis by auto
  next
    case False
    with none sub [of s] sub [of "s + 1"] 2(4) show ?thesis by auto
  qed
qed

lemma before_cutoff_iff:
  assumes "sorted_wrt (\<lambda>a b. backup_key_of a < backup_key_of b) xs"
  shows "b \<in> set (before_cutoff cutoff newest xs) \<longleftrightarrow> b \<in> set xs \<and> backup_created b < cutoff \<and>
    \<not> (newest \<and> bk_state b = BkSucceeded \<and> succeeded_before b xs = [])"
  using assms
proof (induction cutoff newest xs rule: before_cutoff.induct)
  case (1 cutoff newest)
  then show ?case by simp
next
  case (2 cutoff newest x xs)
  then have lt: "\<forall>y \<in> set xs. backup_key_of x < backup_key_of y" by simp
  then have none: "succeeded_before x xs = []"
    by (auto simp: filter_empty_conv dest: order.asym)
  show ?case
  proof (cases "b \<in> set xs")
    case True
    with lt have "b \<noteq> x" "backup_key_of x < backup_key_of b" by auto
    with 2 True show ?thesis by auto
  next
    case False
    with 2 none show ?thesis by auto
  qed
qed

lemma expiredBackups_set:
  assumes "distinct (map backup_name bs)" and "expiredBackups bs retention now = Inr xs"
  shows "b \<in> set xs \<longleftrightarrow> finished_backup bs b \<and> (\<exists>r. retention = Some r \<and>
    (case rt_type r of
       RetentionCount \<Rightarrow> (\<exists>n. rt_count r = Some n \<and> 1 \<le> n \<and> n \<le> int (length (newer_successes bs b)))
     | RetentionTime \<Rightarrow> (\<exists>cutoff. retentionCutoff (rt_duration r) now = Inr cutoff \<and>
         backup_created b < cutoff \<and> (bk_state b \<noteq> BkSucceeded \<or> newer_successes bs b \<noteq> []))
     | RetentionOther t \<Rightarrow> False))"
proof (cases retention)
  case None
  with assms(2) show ?thesis by (simp add: expiredBackups_def)
next
  case (Some r)
  note strict = finished_backups_strict [OF assms(1)]
  have mem: "b \<in> set (finished_backups bs) \<longleftrightarrow> finished_backup bs b" for b
    by (simp add: set_finished_backups)
  have newer: "succeeded_before b (finished_backups bs) = [] \<longleftrightarrow> newer_successes bs b = []" for b
    by (metis newer_successes_finished length_0_conv)
  show ?thesis
  proof (cases "rt_type r")
    case RetentionCount
    with Some assms(2) obtain n where
      n: "rt_count r = Some n" "xs = after_count n 0 (finished_backups bs)"
      by (auto simp: expiredBackups_def split: option.splits)
    show ?thesis
    proof (cases "1 \<le> n")
      case True
      with n Some RetentionCount after_count_iff [OF strict, of 0 n] show ?thesis
        by (auto simp: mem newer_successes_finished)
    next
      case False
      with n Some RetentionCount show ?thesis by (simp add: after_count_done)
    qed
  next
    case RetentionTime
    with Some assms(2) obtain cutoff where
      c: "retentionCutoff (rt_duration r) now = Inr cutoff" "xs = before_cutoff cutoff True (finished_backups bs)"
      by (auto simp: expiredBackups_def split: sum.splits)
    with Some RetentionTime before_cutoff_iff [OF strict, of b cutoff True] show ?thesis
      by (auto simp: mem newer)
  next
    case (RetentionOther t)
    with Some assms(2) show ?thesis by (simp add: expiredBackups_def)
  qed
qed

text \<open>A newest success exists and is never expired.\<close>

lemma newest_success:
  assumes "b \<in> set bs" "not_deleting (bk_meta b)" "bk_state b = BkSucceeded"
  shows "\<exists>b' \<in> set bs. not_deleting (bk_meta b') \<and> bk_state b' = BkSucceeded \<and> newer_successes bs b' = []"
  using assms
proof (induction "length (newer_successes bs b)" arbitrary: b rule: less_induct)
  case less
  show ?case
  proof (cases "newer_successes bs b")
    case Nil
    with less.prems show ?thesis by blast
  next
    case (Cons b' r)
    then have b': "b' \<in> set (newer_successes bs b)" by simp
    have sub: "newer_successes bs b' =
        filter (\<lambda>x. backup_key_of x < backup_key_of b') (newer_successes bs b)"
      using b' by (auto simp: newer_successes_def intro!: filter_cong)
    then have "length (newer_successes bs b') < length (newer_successes bs b)"
      using b' by (auto intro: length_filter_less)
    with less.hyps [of b'] b' show ?thesis by (simp add: newer_successes_def)
  qed
qed

section \<open>What the scheduler does to Backups\<close>

text \<open>The writes a run may make for an Instance, given the backups listed and the time read.\<close>

definition may_create :: "lib \<Rightarrow> inst \<Rightarrow> backup list \<Rightarrow> time \<Rightarrow> obj \<Rightarrow> bool" where
  "may_create L i items now x \<longleftrightarrow> instanceCanBackUp i \<and>
     (\<exists>ib st sch next slot. in_backup i = Some ib \<and> ib_enabled ib \<and> st \<in> set (ib_storages ib) \<and>
        sch \<in> set (bs_schedules st) \<and> sch_enabled sch \<and> cron_parse L (sch_cron sch) = Inr next \<and>
        latestSlot next now scheduleStartingDeadline = Some slot \<and> slot \<noteq> time_zero \<and>
        x = OBackup (scheduled_backup i (bs_ref st) sch
              (scheduledBackupName (om_name (in_meta i)) (sch_name sch) slot)) \<and>
        (\<forall>b \<in> set items. bk_schedule b = sch_name sch \<longrightarrow>
           backup_name b \<noteq> scheduledBackupName (om_name (in_meta i)) (sch_name sch) slot \<and>
           (not_deleting (bk_meta b) \<longrightarrow> backupFinished b)))"

definition may_delete :: "inst \<Rightarrow> backup list \<Rightarrow> time \<Rightarrow> string \<Rightarrow> bool" where
  "may_delete i items now n \<longleftrightarrow>
     (\<exists>ib st sch expired b. in_backup i = Some ib \<and> ib_enabled ib \<and> st \<in> set (ib_storages ib) \<and>
        sch \<in> set (bs_schedules st) \<and> sch_enabled sch \<and>
        expiredBackups (backupsOfSchedule items (sch_name sch)) (sch_retention sch) now = Inr expired \<and>
        b \<in> set expired \<and> backup_name b = n)"

definition scheduler_call :: "lib \<Rightarrow> inst \<Rightarrow> backup list \<Rightarrow> time \<Rightarrow> call \<Rightarrow> bool" where
  "scheduler_call L i items now q \<longleftrightarrow> (is_write q \<longrightarrow>
     (\<exists>x. q = Create x \<and> may_create L i items now x) \<or> (\<exists>n. q = Delete KBackup n \<and> may_delete i items now n))"

lemma scheduler_call_simps [simp]:
  "\<not> is_write q \<Longrightarrow> scheduler_call L i items now q"
  "scheduler_call L i items now (Create x) \<longleftrightarrow> may_create L i items now x"
  "scheduler_call L i items now (Delete KBackup n) \<longleftrightarrow> may_delete i items now n"
  by (auto simp: scheduler_call_def)

lemma inProgressBackup_none:
  "inProgressBackup bs = '''' \<Longrightarrow> \<forall>b \<in> set bs. backup_name b \<noteq> '''' \<Longrightarrow> b \<in> set bs \<Longrightarrow>
   not_deleting (bk_meta b) \<Longrightarrow> backupFinished b"
  by (induction bs) (auto split: if_splits)

lemma applyRetention_calls:
  assumes "in_backup i = Some ib" "ib_enabled ib" "st \<in> set (ib_storages ib)"
    "sch \<in> set (bs_schedules st)" "sch_enabled sch"
  shows "calls_in (scheduler_call L i items now) (applyRetention sch (backupsOfSchedule items (sch_name sch)) now)"
  unfolding applyRetention_def
  by (intro calls_intro) (use assms in \<open>auto simp: may_delete_def\<close>)

lemma fireDueSlot_calls:
  assumes "\<forall>b \<in> set items. backup_name b \<noteq> ''''" "in_backup i = Some ib" "ib_enabled ib" "st \<in> set (ib_storages ib)"
    "sch \<in> set (bs_schedules st)" "sch_enabled sch" "cron_parse L (sch_cron sch) = Inr next"
  shows "calls_in (scheduler_call L i items now)
     (fireDueSlot i (bs_ref st) sch next (backupsOfSchedule items (sch_name sch)) now)"
  unfolding fireDueSlot_def Let_def
proof (intro calls_intro)
  fix slot
  assume slot: "latestSlot next now scheduleStartingDeadline = Some slot" "\<not> time_is_zero slot"
    and fresh: "\<not> (\<exists>b \<in> set (backupsOfSchedule items (sch_name sch)).
      backup_name b = scheduledBackupName (om_name (in_meta i)) (sch_name sch) slot)"
    and can: "\<not> \<not> instanceCanBackUp i"
    and idle: "\<not> inProgressBackup (backupsOfSchedule items (sch_name sch)) \<noteq> ''''"
  have "backup_name b \<noteq> scheduledBackupName (om_name (in_meta i)) (sch_name sch) slot \<and>
      (not_deleting (bk_meta b) \<longrightarrow> backupFinished b)"
    if "b \<in> set items" "bk_schedule b = sch_name sch" for b
    using that fresh inProgressBackup_none [of "backupsOfSchedule items (sch_name sch)" b] idle assms(1)
    by (auto simp: backupsOfSchedule_def)
  with assms slot can have "may_create L i items now (OBackup (scheduled_backup i (bs_ref st) sch
      (scheduledBackupName (om_name (in_meta i)) (sch_name sch) slot)))"
    unfolding may_create_def time_is_zero_def by blast
  then show "scheduler_call L i items now (Create (OBackup (scheduled_backup i (bs_ref st) sch
      (scheduledBackupName (om_name (in_meta i)) (sch_name sch) slot))))" by simp
qed

lemma run_schedule_calls:
  assumes "\<forall>b \<in> set items. backup_name b \<noteq> ''''" "in_backup i = Some ib" "ib_enabled ib" "st \<in> set (ib_storages ib)" "sch \<in> set (bs_schedules st)"
  shows "calls_in (scheduler_call L i items now) (run_schedule L i items now (bs_ref st) sch wake)"
  unfolding run_schedule_def Let_def
  by (intro calls_intro fireDueSlot_calls applyRetention_calls) (use assms in auto)

lemma run_schedules_calls:
  assumes "\<forall>b \<in> set items. backup_name b \<noteq> ''''" "in_backup i = Some ib" "ib_enabled ib" "st \<in> set (ib_storages ib)" "set schs \<subseteq> set (bs_schedules st)"
  shows "calls_in (scheduler_call L i items now) (run_schedules L i items now (bs_ref st) schs wake)"
  using assms
  by (induction schs arbitrary: wake) (auto intro!: calls_intro run_schedule_calls)

lemma run_storages_calls:
  assumes "\<forall>b \<in> set items. backup_name b \<noteq> ''''" "in_backup i = Some ib" "ib_enabled ib" "set sts \<subseteq> set (ib_storages ib)"
  shows "calls_in (scheduler_call L i items now) (run_storages L i items now sts wake)"
  using assms
  by (induction sts arbitrary: wake) (auto intro!: calls_intro run_schedules_calls)

lemma Reconcile_calls:
  assumes inst: "rd_get (ev_instance E) h name = Inr i"
    and list: "ev_backups_of E (h @ [Get KInstance name]) (om_namespace (in_meta i)) (om_name (in_meta i)) = Inr items"
    and now: "ev_now E (h @ [Get KInstance name, ListBackupsOf (om_namespace (in_meta i)) (om_name (in_meta i))]) = now"
    and named: "\<forall>b \<in> set items. backup_name b \<noteq> ''''"
    and q: "q \<in> set (snd (Reconcile L name E h))"
  shows "scheduler_call L i items now q"
proof (cases "in_backup i")
  case None
  with inst q show ?thesis by (simp add: Reconcile_def bnd_ask ret_run)
next
  case (Some ib)
  show ?thesis
  proof (cases "\<not> not_deleting (in_meta i) \<or> \<not> ib_enabled ib")
    case True
    with Some inst q show ?thesis by (auto simp: Reconcile_def bnd_ask ret_run)
  next
    case False
    let ?k1 = "Get KInstance name"
    let ?k2 = "ListBackupsOf (om_namespace (in_meta i)) (om_name (in_meta i))"
    let ?rest = "bnd (run_storages L i items now (ib_storages ib) time_zero) (\<lambda>wake.
      if time_is_zero wake then ret None else ret (Some (time_sub wake now)))"
    have "snd (Reconcile L name E h) = ?k1 # ?k2 # Now # snd (?rest E (h @ [?k1, ?k2, Now]))"
      using Some False inst list now by (simp add: Reconcile_def bnd_ask cong: if_cong)
    moreover have "calls_in (scheduler_call L i items now) ?rest"
      by (intro calls_intro run_storages_calls) (use named Some False in auto)
    then have "\<forall>q \<in> set (snd (?rest E h')). scheduler_call L i items now q" for h'
      by (simp add: calls_in_def)
    ultimately show ?thesis using q by auto
  qed
qed

section \<open>Properties\<close>

text \<open>
  ParseStandard also accepts "@every" with a duration \<open>d\<close> of a second or more: Next then gives the instant \<open>d\<close> later,
  on the second, and there is no fixed set of activations. The search ends there as well, but what it finds
  depends on the instant it starts from: with a delay of eleven minutes or more it never finds a slot, with
  one of at most ten minutes it always does.
\<close>

definition every_laws :: "(time \<Rightarrow> time) \<Rightarrow> duration \<Rightarrow> bool" where
  "every_laws next d \<longleftrightarrow> second \<le> d \<and> (\<forall>t. t + d - second < next t \<and> next t \<le> t + d)"

lemma every_laws_sample: "second \<le> d \<Longrightarrow> every_laws (\<lambda>t. t + d - t mod second) d"
  using pos_mod_bound [of second] pos_mod_sign [of second] by (simp add: every_laws_def second_def)

lemma slot_loop_ends:
  assumes "\<And>t. t < next t" "time_zero < t"
  shows "\<exists>s. slot_loop next now slot t = Some s \<and> (if t \<le> now then t \<le> s \<and> s \<le> now else s = slot)"
  using assms(2)
proof (induction "nat (now + 1 - t)" arbitrary: t slot rule: less_induct)
  case less
  show ?case
  proof (cases "t \<le> now")
    case True
    have up: "t < next t" by (rule assms(1))
    with less.prems less.hyps [of "next t" t] True obtain s where
      "slot_loop next now t (next t) = Some s" "if next t \<le> now then next t \<le> s \<and> s \<le> now else s = t"
      by auto
    moreover have "slot_loop next now slot t = slot_loop next now t (next t)"
      using True less.prems by (subst slot_loop.simps) (simp add: time_is_zero_def)
    ultimately show ?thesis using True up by (auto split: if_splits)
  next
    case False
    then have "slot_loop next now slot t = Some slot" by (subst slot_loop.simps) simp
    with False show ?thesis by simp
  qed
qed

lemma latestSlot_every:
  assumes "every_laws next d" "time_zero + hour \<le> now"
  shows "\<exists>s. latestSlot next now scheduleStartingDeadline = Some s"
    and "11 * minute \<le> d \<Longrightarrow> latestSlot next now scheduleStartingDeadline = Some time_zero"
    and "d \<le> 10 * minute \<Longrightarrow> \<exists>s. latestSlot next now scheduleStartingDeadline = Some s \<and>
      now - 10 * minute - second < s \<and> s \<le> now"
proof -
  let ?w = "now + (- scheduleStartingDeadline - second)"
  have up: "t < next t" for t using assms(1) unfolding every_laws_def by (smt (verit))
  have first: "?w + d - second < next ?w" "next ?w \<le> ?w + d" using assms(1) unfolding every_laws_def by blast+
  have "time_zero < next ?w"
    using up [of ?w] assms(2) by (simp add: scheduleStartingDeadline_def hour_def minute_def second_def)
  from slot_loop_ends [of "next", OF up this] obtain s where
    s: "latestSlot next now scheduleStartingDeadline = Some s" "if next ?w \<le> now then next ?w \<le> s \<and> s \<le> now else s = time_zero"
    unfolding latestSlot_def by blast
  then show "\<exists>s. latestSlot next now scheduleStartingDeadline = Some s" by blast
  show "latestSlot next now scheduleStartingDeadline = Some time_zero" if "11 * minute \<le> d"
    using s first(1) that by (simp add: scheduleStartingDeadline_def minute_def second_def)
  show "\<exists>s. latestSlot next now scheduleStartingDeadline = Some s \<and> now - 10 * minute - second < s \<and> s \<le> now"
    if "d \<le> 10 * minute"
    using s first(2) up [of ?w] that by (force simp: scheduleStartingDeadline_def minute_def second_def)
qed

text \<open>C26: the search for a due slot ends, and finds the schedule's latest activation that is not after
  now and less than the starting deadline (ten minutes, and the second the code adds) old, or
  the zero time when there is none. The schedule is one of activation times, a cron expression or a
  descriptor such as "@daily"; see latestSlot_every for "@every".\<close>

theorem latestSlot_spec:
  assumes "cron_laws next A" and "time_zero + hour \<le> now"
  shows "\<exists>s. latestSlot next now scheduleStartingDeadline = Some s \<and>
    (if \<exists>a \<in> A. now - 10 * minute - second < a \<and> a \<le> now
     then s \<in> A \<and> now - 10 * minute - second < s \<and> s \<le> now \<and> (\<forall>a \<in> A. a \<le> now \<longrightarrow> a \<le> s)
     else s = time_zero)"
  using assms
proof (cases rule: latestSlot_result)
  case none
  then show ?thesis by (force simp: scheduleStartingDeadline_def)
next
  case (slot s)
  then show ?thesis by (auto simp: scheduleStartingDeadline_def)
qed

lemma hourly_laws:
  "cron_laws (\<lambda>t. hour * (t div hour) + hour) {a. a mod hour = 0 \<and> time_zero < a}"
proof -
  have h: "0 < hour" by (simp add: hour_def minute_def second_def)
  have nxt: "t < hour * (t div hour) + hour" for t
    using pos_mod_bound [OF h, of t] mult_div_mod_eq [of hour t] by linarith
  have least: "hour * (t div hour) + hour \<le> a" if "a mod hour = 0" "t < a" for a t
  proof -
    from that(1) obtain c where a: "a = hour * c" by (metis mod_0_imp_dvd dvdE)
    have "hour * (t div hour) < hour * c"
      using that(2) a pos_mod_sign [OF h, of t] mult_div_mod_eq [of hour t] by linarith
    then have "t div hour + 1 \<le> c" using h by simp
    then have "hour * (t div hour + 1) \<le> hour * c" using h by simp
    then show ?thesis by (simp add: a distrib_left)
  qed
  have "(hour * (t div hour) + hour) mod hour = 0" for t by simp
  moreover have "time_zero < hour * (t div hour) + hour" if "time_zero \<le> t" for t
    using that nxt [of t] by simp
  ultimately show ?thesis using nxt least unfolding cron_laws_def by auto
qed

theorem latestSlot_spec_witness:
  "latestSlot (\<lambda>t. hour * (t div hour) + hour) (3 * hour + 5 * minute) scheduleStartingDeadline = Some (3 * hour)"
proof -
  let ?A = "{a. a mod hour = 0 \<and> time_zero < a}"
  have year1: "time_zero + hour \<le> 3 * hour + 5 * minute"
    by (simp add: time_zero_def hour_def minute_def second_def)
  have three: "3 * hour \<in> ?A" "3 * hour + 5 * minute - 10 * minute - second < 3 * hour" "3 * hour \<le> 3 * hour + 5 * minute"
    by (simp_all add: time_zero_def hour_def minute_def second_def)
  from latestSlot_spec [OF hourly_laws year1] three obtain s where
    s: "latestSlot (\<lambda>t. hour * (t div hour) + hour) (3 * hour + 5 * minute) scheduleStartingDeadline = Some s"
      "s \<in> ?A" "s \<le> 3 * hour + 5 * minute" "3 * hour \<le> s"
    by (metis (no_types, lifting))
  then have "s mod hour = 0" by simp
  with s have "s = 3 * hour" by (auto simp: hour_def minute_def second_def elim!: dvdE dest!: mod_0_imp_dvd)
  with s show ?thesis by simp
qed

text \<open>C33: for slots in the years 0 to 9999, a scheduled backup's name has at most 56 characters, all
  of them lower-case letters, digits or hyphens, and the slots of one schedule that lie in
  different minutes get different names.\<close>

theorem scheduledBackupName_spec:
  assumes "0 \<le> slot_year slot" "slot_year slot < 10000"
  shows "length (scheduledBackupName i s slot) \<le> 56 \<and>
    set (scheduledBackupName i s slot) \<subseteq> Collect dns_ok \<and>
    (\<forall>slot'. 0 \<le> slot_year slot' \<longrightarrow> slot_year slot' < 10000 \<longrightarrow>
       scheduledBackupName i' s' slot' = scheduledBackupName i s slot \<longrightarrow>
       slot div minute = slot' div minute)"
proof (intro conjI allI impI)
  note suffix = slot_suffix_spec [OF assms]
  obtain base where base: "scheduledBackupName i s slot = base @ slot_suffix slot"
    "set base \<subseteq> Collect dns_ok" "length (slot_suffix slot) = 13 \<longrightarrow> length base \<le> 43"
    by (rule scheduledBackupName_parts [of i s slot])
  with suffix show "length (scheduledBackupName i s slot) \<le> 56"
    "set (scheduledBackupName i s slot) \<subseteq> Collect dns_ok" by auto
  fix slot'
  assume y: "0 \<le> slot_year slot'" "slot_year slot' < 10000"
    and eq: "scheduledBackupName i' s' slot' = scheduledBackupName i s slot"
  obtain base' where "scheduledBackupName i' s' slot' = base' @ slot_suffix slot'"
    by (rule scheduledBackupName_parts [of i' s' slot'])
  with eq base(1) suffix slot_suffix_spec [OF y] have "slot_suffix slot = slot_suffix slot'"
    by (metis append_eq_append_conv)
  with assms y show "slot div minute = slot' div minute" by (rule slot_suffix_inject)
qed

theorem scheduledBackupName_spec_witness:
  "length (scheduledBackupName ''my.Instance-with-a-long-name-that-does-not-fit'' ''Nightly!'' 0) \<le> 56"
proof -
  have "slot_year 0 = 1970"
    by (simp add: slot_year_def civil_def find_year.simps find_month_def Let_def year_len_def leap_def
        era_days_def upt_rec month_len_def)
  then show ?thesis
    using scheduledBackupName_spec [of 0 "''my.Instance-with-a-long-name-that-does-not-fit''" "''Nightly!''"]
    by simp
qed

text \<open>C25: what retention expires. Nothing without a retention; with count N the finished backups that
  at least N finished successes precede in the order newest first; with a time window the ones
  created before the cutoff, except the newest success.\<close>

theorem expiredBackups_spec:
  assumes "distinct (map backup_name bs)" and "expiredBackups bs retention now = Inr xs"
  shows "b \<in> set xs \<longleftrightarrow> finished_backup bs b \<and> (\<exists>r. retention = Some r \<and>
    (case rt_type r of
       RetentionCount \<Rightarrow> (\<exists>n. rt_count r = Some n \<and> 1 \<le> n \<and> n \<le> int (length (newer_successes bs b)))
     | RetentionTime \<Rightarrow> (\<exists>cutoff. retentionCutoff (rt_duration r) now = Inr cutoff \<and>
         backup_created b < cutoff \<and> (bk_state b \<noteq> BkSucceeded \<or> newer_successes bs b \<noteq> []))
     | RetentionOther t \<Rightarrow> False))"
  by (rule expiredBackups_set [OF assms])

definition sample_backup :: "string \<Rightarrow> time \<Rightarrow> backup_state \<Rightarrow> backup" where
  "sample_backup n t st = (scheduled_backup sample_instance ''s3''
     \<lparr>sch_name = ''nightly'', sch_enabled = True, sch_cron = ''0 2 * * *'', sch_retention = None,
      sch_parameters = None\<rparr> n)\<lparr>bk_meta := (bare_meta ''ns'' n)\<lparr>om_created := t\<rparr>, bk_state := st\<rparr>"

lemma sample_backup_simps [simp]:
  "backup_name (sample_backup n t st) = n" "backup_created (sample_backup n t st) = t"
  "bk_state (sample_backup n t st) = st" "not_deleting (bk_meta (sample_backup n t st))"
  "bk_schedule (sample_backup n t st) = ''nightly''"
  "backup_key_of (sample_backup n t st) = BackupKey t n"
  by (simp_all add: sample_backup_def scheduled_backup_def bare_meta_def not_deleting_def backup_key_of_def)

definition sample_backups :: "backup list" where
  "sample_backups = [sample_backup ''a'' 1 BkSucceeded, sample_backup ''b'' 2 BkFailed,
     sample_backup ''c'' 3 BkSucceeded, sample_backup ''d'' 4 BkRunning]"

definition keep_one :: retention where
  "keep_one = \<lparr>rt_type = RetentionCount, rt_count = Some 1, rt_duration = ''''\<rparr>"

lemma sample_backups_expire:
  "expiredBackups sample_backups (Some keep_one) 5 =
     Inr [sample_backup ''b'' 2 BkFailed, sample_backup ''a'' 1 BkSucceeded]"
  by (simp add: expiredBackups_def keep_one_def finished_backups_def sample_backups_def backupFinished_def
      less_eq_backup_key_def)

lemma sample_backups_distinct: "distinct (map backup_name sample_backups)"
  by (simp add: sample_backups_def)

theorem expiredBackups_spec_witness:
  "length (newer_successes sample_backups (sample_backup ''a'' 1 BkSucceeded)) = 1"
  using expiredBackups_spec [OF sample_backups_distinct sample_backups_expire, of "sample_backup ''a'' 1 BkSucceeded"]
  by (simp add: sample_backups_def newer_successes_def less_backup_key_def)

text \<open>C12: retention never removes the last good copy: if a schedule has a successful backup that is not
  being deleted, one is left after the expired ones are gone.\<close>

theorem retention_keeps_a_success:
  assumes "distinct (map backup_name bs)" and "expiredBackups bs retention now = Inr xs"
    and "b \<in> set bs" "not_deleting (bk_meta b)" "bk_state b = BkSucceeded"
  shows "\<exists>b' \<in> set bs - set xs. not_deleting (bk_meta b') \<and> bk_state b' = BkSucceeded"
proof -
  from newest_success [OF assms(3-5)] obtain b' where
    b': "b' \<in> set bs" "not_deleting (bk_meta b')" "bk_state b' = BkSucceeded" "newer_successes bs b' = []"
    by blast
  then have "b' \<notin> set xs"
    unfolding expiredBackups_set [OF assms(1,2)] by (auto split: retention_type.splits)
  with b' show ?thesis by blast
qed

theorem retention_keeps_a_success_witness:
  "\<exists>b' \<in> set sample_backups - {sample_backup ''b'' 2 BkFailed, sample_backup ''a'' 1 BkSucceeded}.
     bk_state b' = BkSucceeded"
  using retention_keeps_a_success [OF sample_backups_distinct sample_backups_expire, of "sample_backup ''a'' 1 BkSucceeded"]
  by (auto simp: sample_backups_def)

text \<open>C34: the cutoff of a retention window. A window of n days or weeks reaches back exactly that many
  days, one of n months between 28 and 31 days a month; every other unit and every n below 1 is an
  error. (n is bounded by a million, far from the 64-bit limits.)\<close>

theorem retentionCutoff_spec:
  assumes "2 \<le> length d" and "atoi (butlast d) = Some n" and "n \<le> 1000000"
  shows "if n < 1 \<or> last d \<notin> set ''dwm'' then retentionCutoff d now = Inl (invalid_duration d)
    else \<exists>cutoff. retentionCutoff d now = Inr cutoff \<and>
      (if last d = CHR ''d'' then cutoff = now - n * day_ns
       else if last d = CHR ''w'' then cutoff = now - 7 * n * day_ns
       else now - 31 * n * day_ns \<le> cutoff \<and> cutoff \<le> now - 28 * n * day_ns)"
proof -
  have weeks: "weeks_back n = - 7 * n" if "1 \<le> n"
    unfolding weeks_back_def sint_sbintrunc'
    by (rule signed_take_bit_int_eq_self) (use assms(3) that in simp_all)
  have "\<exists>m. n = int m" if "1 \<le> n" using that nonneg_int_cases [of n] by auto
  then show ?thesis
    using assms(1,2) weeks add_date_days [of now "- n"] add_date_days [of now "- 7 * n"]
      add_date_months [of now "nat n"]
    by (auto simp: retentionCutoff_def)
qed

theorem retentionCutoff_spec_witness:
  "retentionCutoff ''2w'' 0 = Inr (0 - 7 * 2 * day_ns)"
  using retentionCutoff_spec [of "''2w''" 2 0]
  by (simp add: atoi_def digit_value_def)

text \<open>C13: every write of a scheduler run is a Backup created for an enabled schedule of the Instance or
  the deletion of one its retention expires. A Backup is only created for the slot latestSlot
  finds, while the Instance is Ready or Updating, when no Backup of that name exists and every
  earlier Backup of the schedule has finished or is being deleted.\<close>

theorem Reconcile_safe:
  assumes "rd_get (ev_instance E) h name = Inr i"
    and "ev_backups_of E (h @ [Get KInstance name]) (om_namespace (in_meta i)) (om_name (in_meta i)) = Inr items"
    and "ev_now E (h @ [Get KInstance name, ListBackupsOf (om_namespace (in_meta i)) (om_name (in_meta i))]) = now"
    and "\<forall>b \<in> set items. backup_name b \<noteq> ''''"
    and "q \<in> set (snd (Reconcile L name E h))" and "is_write q"
  shows "(\<exists>x. q = Create x \<and> may_create L i items now x) \<or>
    (\<exists>n. q = Delete KBackup n \<and> may_delete i items now n)"
  using Reconcile_calls [OF assms(1-5)] assms(6) unfolding scheduler_call_def by blast

definition sample_schedule :: schedule where
  "sample_schedule = \<lparr>sch_name = ''hourly'', sch_enabled = True, sch_cron = ''@hourly'', sch_retention = None,
     sch_parameters = None\<rparr>"

definition scheduled_instance :: inst where
  "scheduled_instance = sample_instance\<lparr>in_backup := Some \<lparr>ib_enabled = True, ib_class = ''br'',
     ib_storages = [\<lparr>bs_ref = ''s3'', bs_schedules = [sample_schedule], bs_pitr = None\<rparr>]\<rparr>\<rparr>"

lemma sample_slot: "latestSlot (\<lambda>t. hour * (t div hour) + hour) (5 * minute) scheduleStartingDeadline = Some 0"
  by (simp add: latestSlot_def scheduleStartingDeadline_def hour_def minute_def second_def
      slot_loop.simps time_is_zero_def time_zero_def)

lemma sample_schedule_simps [simp]:
  "sch_name sample_schedule = ''hourly''" "sch_enabled sample_schedule"
  "sch_cron sample_schedule = ''@hourly''" "sch_retention sample_schedule = None"
  by (simp_all add: sample_schedule_def)

lemma scheduled_instance_simps [simp]:
  "in_meta scheduled_instance = (bare_meta ''ns'' ''db'')\<lparr>om_uid := ''u1''\<rparr>"
  "in_phase scheduled_instance = PhReady"
  "in_backup scheduled_instance = Some \<lparr>ib_enabled = True, ib_class = ''br'',
     ib_storages = [\<lparr>bs_ref = ''s3'', bs_schedules = [sample_schedule], bs_pitr = None\<rparr>]\<rparr>"
  by (simp_all add: scheduled_instance_def sample_instance_def)

theorem Reconcile_safe_witness:
  "may_create sample_lib scheduled_instance [] (5 * minute)
     (OBackup (scheduled_backup scheduled_instance ''s3'' sample_schedule
        (scheduledBackupName ''db'' ''hourly'' 0)))"
proof -
  let ?E = "env_of (empty_store\<lparr>so_instance := [''db'' \<mapsto> scheduled_instance], so_now := 5 * minute\<rparr>)"
  let ?x = "OBackup (scheduled_backup scheduled_instance ''s3'' sample_schedule
        (scheduledBackupName ''db'' ''hourly'' 0))"
  have run: "Create ?x \<in> set (snd (Reconcile sample_lib ''db'' ?E []))"
    by (simp add: Reconcile_def io_eval run_schedule_def fireDueSlot_def sample_slot time_is_zero_def
        time_zero_def second_def backupsOfSchedule_def instanceCanBackUp_def bare_meta_def not_deleting_def
        applyRetention_def expiredBackups_def)
  show ?thesis
    using Reconcile_safe [of ?E "[]" "''db''" scheduled_instance "[]" "5 * minute", OF _ _ _ _ run]
    by (simp add: bare_meta_def)
qed

end
