(* ===== verification/TlsSettings.thy ===== *)
theory TlsSettings
  imports Components Samples
begin

text \<open>
  The declarative half of internal/provider/tls.go and tls_certmanager.go: the Instance's TLS
  choices, where its certificates come from, which certificates it needs and into which Secrets,
  and the validation that keeps those choices fixed for the life of the cluster.
\<close>

section \<open>Settings\<close>

definition tlsCertValidity :: duration where "tlsCertValidity = 10 * 365 * 24 * hour"
definition tlsKeyCA :: string where "tlsKeyCA = ''ca.crt''"
definition tlsKeyCAKey :: string where "tlsKeyCAKey = ''ca.key''"
definition tlsOrg :: string where "tlsOrg = ''OpenEverest''"
definition tlsClusterCN :: string where "tlsClusterCN = ''TiDB''"
definition tlsSourceAnnotation :: string where "tlsSourceAnnotation = ''tidb.openeverest.io/tls-certificates''"
definition tlsSourceProvider :: string where "tlsSourceProvider = ''provider''"
definition tlsSourceCertMgr :: string where "tlsSourceCertMgr = ''cert-manager''"
definition issuerKindIssuer :: string where "issuerKindIssuer = ''Issuer''"
definition issuerKindClusterIssuer :: string where "issuerKindClusterIssuer = ''ClusterIssuer''"

text \<open>corev1.TLSCertKey and corev1.TLSPrivateKeyKey.\<close>

definition tlsKeyCert :: "lib \<Rightarrow> string" where "tlsKeyCert L = api_const L ''TLSCertKey''"
definition tlsKeyKey :: "lib \<Rightarrow> string" where "tlsKeyKey L = api_const L ''TLSPrivateKeyKey''"

definition tlsSettings :: "ctx \<Rightarrow> TLS" where
  "tlsSettings c =
     (case try_decode_topology (cx_lib c) (cx_instance c) of
        None \<Rightarrow> zero_TLS
      | Some params \<Rightarrow> (case tp_TLS params of None \<Rightarrow> zero_TLS | Some t \<Rightarrow> t))"

definition usesCertManager :: "TLS \<Rightarrow> bool" where
  "usesCertManager settings =
     (case tls_CertManager settings of
        None \<Rightarrow> False
      | Some cm \<Rightarrow> cm_Enabled cm \<or> (case cm_IssuerRef cm of None \<Rightarrow> False | Some r \<Rightarrow> ir_Name r \<noteq> ''''))"

definition issuerKind :: "IssuerRef \<Rightarrow> string" where
  "issuerKind r = (if ir_Kind r = '''' then issuerKindIssuer else ir_Kind r)"

text \<open>The user's issuer, if the settings name one.\<close>

definition user_issuer :: "TLS \<Rightarrow> IssuerRef option" where
  "user_issuer settings =
     (case tls_CertManager settings of
        None \<Rightarrow> None
      | Some cm \<Rightarrow> (case cm_IssuerRef cm of None \<Rightarrow> None | Some r \<Rightarrow> (if ir_Name r \<noteq> '''' then Some r else None)))"

definition tlsSource :: "TLS \<Rightarrow> string" where
  "tlsSource settings =
     (if \<not> tls_Cluster settings \<and> \<not> tls_Client settings then ''''
      else if \<not> usesCertManager settings then tlsSourceProvider
      else (case user_issuer settings of
              Some r \<Rightarrow> tlsSourceCertMgr @ '':'' @ issuerKind r @ ''/'' @ ir_Name r
            | None \<Rightarrow> tlsSourceCertMgr))"

definition currentTLSSource :: "cluster \<Rightarrow> bool \<Rightarrow> string" where
  "currentTLSSource cl hasTLS =
     (if lookup_str (om_annotations (cl_meta cl)) tlsSourceAnnotation \<noteq> ''''
      then lookup_str (om_annotations (cl_meta cl)) tlsSourceAnnotation
      else if hasTLS then tlsSourceProvider else '''')"

section \<open>Secrets and certificates\<close>

definition tlsCASecretSuffix :: string where "tlsCASecretSuffix = ''-tls-ca''"
definition tlsCASecretName :: "string \<Rightarrow> string" where "tlsCASecretName i = i @ tlsCASecretSuffix"
definition clusterTLSSecretName :: "string \<Rightarrow> string \<Rightarrow> string" where
  "clusterTLSSecretName i component = i @ ''-'' @ component @ ''-cluster-secret''"
definition clusterClientTLSSecretName :: "string \<Rightarrow> string" where
  "clusterClientTLSSecretName i = i @ ''-cluster-client-secret''"
definition mysqlServerTLSSecretName :: "string \<Rightarrow> string" where
  "mysqlServerTLSSecretName i = i @ ''-tidb-server-secret''"
definition tiproxyServerTLSSecretName :: "string \<Rightarrow> string" where
  "tiproxyServerTLSSecretName i = i @ ''-tiproxy-server-secret''"
definition tiproxyBackendTLSSecretName :: "string \<Rightarrow> string" where
  "tiproxyBackendTLSSecretName i = i @ ''-tiproxy-tidb-secret''"

record leafCert =
  lf_secretName :: string
  lf_commonName :: string
  lf_dnsNames :: "string list"
  lf_usages :: "ext_usage list"

definition serviceDNSNames :: "string \<Rightarrow> string \<Rightarrow> string list" where
  "serviceDNSNames svc namespace =
     [svc, svc @ ''.'' @ namespace, svc @ ''.'' @ namespace @ ''.svc'',
      svc @ ''.'' @ namespace @ ''.svc.cluster.local'']"

definition peerDNSNames :: "string \<Rightarrow> string \<Rightarrow> string list" where
  "peerDNSNames svc namespace =
     serviceDNSNames svc namespace @ map (\<lambda>n. ''*.'' @ n) (serviceDNSNames svc namespace)"

definition svc_names :: "string \<Rightarrow> string \<Rightarrow> string list" where
  "svc_names svc namespace = serviceDNSNames svc namespace @ peerDNSNames (svc @ ''-peer'') namespace"

definition component_leaf :: "string \<Rightarrow> string \<Rightarrow> comp \<Rightarrow> leafCert" where
  "component_leaf i namespace k =
     \<lparr>lf_secretName = clusterTLSSecretName i (comp_name k), lf_commonName = tlsClusterCN,
      lf_dnsNames = svc_names (i @ ''-'' @ comp_name k) namespace, lf_usages = [ServerAuth, ClientAuth]\<rparr>"

definition tlsLeaves :: "string \<Rightarrow> string \<Rightarrow> TLS \<Rightarrow> bool \<Rightarrow> leafCert list" where
  "tlsLeaves i namespace settings tiproxy =
     (if tls_Cluster settings then
        map (component_leaf i namespace) ([PD, TiKV, TiDB, TiFlash] @ (if tiproxy then [TiProxy] else [])) @
        [\<lparr>lf_secretName = clusterClientTLSSecretName i, lf_commonName = tlsClusterCN, lf_dnsNames = [],
          lf_usages = [ClientAuth]\<rparr>]
      else []) @
     (if tls_Client settings then
        [\<lparr>lf_secretName = mysqlServerTLSSecretName i, lf_commonName = i @ ''-'' @ comp_name TiDB,
          lf_dnsNames = svc_names (i @ ''-'' @ comp_name TiDB) namespace, lf_usages = [ServerAuth]\<rparr>] @
        (if tiproxy then
           [\<lparr>lf_secretName = tiproxyServerTLSSecretName i, lf_commonName = i @ ''-'' @ comp_name TiProxy,
             lf_dnsNames = svc_names (i @ ''-'' @ comp_name TiProxy) namespace, lf_usages = [ServerAuth]\<rparr>,
            \<lparr>lf_secretName = tiproxyBackendTLSSecretName i, lf_commonName = i @ ''-'' @ comp_name TiProxy,
             lf_dnsNames = [], lf_usages = [ClientAuth]\<rparr>]
         else [])
      else [])"

section \<open>Validation\<close>

definition validateCertManager :: "ctx \<Rightarrow> TLS \<Rightarrow> unit io" where
  "validateCertManager c settings =
     (if \<not> usesCertManager settings then ret ()
      else if \<not> tls_Cluster settings \<and> \<not> tls_Client settings then
        fail (Message ''tls.certManager issues certificates for tls.cluster or tls.client; turn on at least one'')
      else
        let kind_ok = (case user_issuer settings of
                         None \<Rightarrow> True
                       | Some r \<Rightarrow> issuerKind r = issuerKindIssuer \<or> issuerKind r = issuerKindClusterIssuer) in
        if \<not> kind_ok then
          fail (Message (''tls.certManager.issuerRef.kind '' @
            go_quote (case user_issuer settings of None \<Rightarrow> '''' | Some r \<Rightarrow> ir_Kind r) @ '' must be '' @
            issuerKindIssuer @ '' or '' @ issuerKindClusterIssuer))
        else
          bnd (rest_mapping KCertificate) (\<lambda>r.
            case r of
              None \<Rightarrow> ret ()
            | Some e \<Rightarrow>
                if e = NoMatch then
                  fail (Message (''tls.certManager requires cert-manager: the Certificate CRD ('' @
                    api_const (cx_lib c) ''cmapi.SchemeGroupVersion'' @ '') is not installed''))
                else fail (Wrapped ''look up the Certificate CRD'' (Passed e))))"

definition onOff :: "bool \<Rightarrow> string" where
  "onOff enabled = (if enabled then ''on'' else ''off'')"

text \<open>TLSCluster and Security.TLS.MySQL may be nil, which counts as off.\<close>

definition cluster_tls_on :: "cluster \<Rightarrow> bool" where
  "cluster_tls_on cl = (case cl_tls cl of None \<Rightarrow> False | Some b \<Rightarrow> b)"

definition mysql_tls_on :: "group \<Rightarrow> bool" where
  "mysql_tls_on g = (case g_mysql_tls g of None \<Rightarrow> False | Some b \<Rightarrow> b)"

text \<open>The checks against the existing Cluster and TiDB group.\<close>

definition cluster_tls_error :: "TLS \<Rightarrow> cluster \<Rightarrow> err option" where
  "cluster_tls_error requested cl =
     (let current = cluster_tls_on cl;
          currentSource = currentTLSSource cl (current \<or> tls_Client requested);
          want = tlsSource requested in
      if tls_Cluster requested \<noteq> current then
        Some (Message (''tls.cluster cannot be changed after the Instance is created: it is '' @ onOff current))
      else if want \<noteq> '''' \<and> currentSource \<noteq> '''' \<and> want \<noteq> currentSource then
        Some (Message (''the TLS certificate source cannot be changed after the Instance is created: it is '' @ currentSource))
      else None)"

definition client_tls_error :: "TLS \<Rightarrow> group \<Rightarrow> err option" where
  "client_tls_error requested g =
     (if tls_Client requested \<noteq> mysql_tls_on g then
        Some (Message (''tls.client cannot be changed after the Instance is created: it is '' @ onOff (mysql_tls_on g)))
      else None)"

definition validateTLS :: "ctx \<Rightarrow> unit io" where
  "validateTLS c =
     (let requested = tlsSettings c in
      thn (validateCertManager c requested)
      (bnd (exists_cluster (c_name c)) (\<lambda>r.
       bnd (or_wrap ''get cluster'' r) (\<lambda>found.
       thn (err_or_ok (case found of None \<Rightarrow> None | Some cl \<Rightarrow> cluster_tls_error requested cl))
       (bnd (exists_group TiDB (c_name c)) (\<lambda>r.
        bnd (or_wrap ''get tidb group'' r) (\<lambda>found.
        err_or_ok (case found of None \<Rightarrow> None | Some g \<Rightarrow> client_tls_error requested g))))))))"

section \<open>Facts\<close>

lemma user_issuer_Some: "user_issuer settings = Some r \<Longrightarrow> ir_Name r \<noteq> '''' \<and> usesCertManager settings"
  by (auto simp: user_issuer_def usesCertManager_def split: option.splits if_splits)

lemma tlsSource_eq_empty: "tlsSource settings = '''' \<longleftrightarrow> \<not> tls_Cluster settings \<and> \<not> tls_Client settings"
  by (auto simp: tlsSource_def tlsSourceProvider_def tlsSourceCertMgr_def split: option.splits)

text \<open>The suffixes of the Secrets a cluster's certificates go to.\<close>

definition leaf_suffixes :: "TLS \<Rightarrow> bool \<Rightarrow> string list" where
  "leaf_suffixes settings tiproxy =
     (if tls_Cluster settings then
        [''-pd-cluster-secret'', ''-tikv-cluster-secret'', ''-tidb-cluster-secret'', ''-tiflash-cluster-secret''] @
        (if tiproxy then [''-tiproxy-cluster-secret''] else []) @ [''-cluster-client-secret''] else []) @
     (if tls_Client settings then
        [''-tidb-server-secret''] @ (if tiproxy then [''-tiproxy-server-secret'', ''-tiproxy-tidb-secret''] else [])
      else [])"

lemma leaf_names: "map lf_secretName (tlsLeaves i namespace settings tiproxy) = map ((@) i) (leaf_suffixes settings tiproxy)"
  by (simp add: tlsLeaves_def leaf_suffixes_def component_leaf_def clusterTLSSecretName_def
      clusterClientTLSSecretName_def mysqlServerTLSSecretName_def tiproxyServerTLSSecretName_def
      tiproxyBackendTLSSecretName_def)

lemma leaf_suffixes_distinct: "distinct (leaf_suffixes settings tiproxy)"
  by (auto simp: leaf_suffixes_def)

lemma leaf_suffixes_new:
  "''-tls-ca'' \<notin> set (leaf_suffixes settings tiproxy)"
  "''-session-token-signing-secret'' \<notin> set (leaf_suffixes settings tiproxy)"
  "''-tidb-root'' \<notin> set (leaf_suffixes settings tiproxy)"
  by (simp_all add: leaf_suffixes_def)

lemma distinct_prefix: "distinct (map ((@) i) xs) \<longleftrightarrow> distinct xs"
  by (simp add: distinct_map inj_on_def)

lemma cluster_tls_error_None:
  "cluster_tls_error requested cl = None \<longleftrightarrow>
     tls_Cluster requested = cluster_tls_on cl \<and>
     (let current = currentTLSSource cl (cluster_tls_on cl \<or> tls_Client requested) in
      tlsSource requested = '''' \<or> current = '''' \<or> tlsSource requested = current)"
  by (auto simp: cluster_tls_error_def Let_def)

lemma client_tls_error_None: "client_tls_error requested g = None \<longleftrightarrow> tls_Client requested = mysql_tls_on g"
  by (simp add: client_tls_error_def)

text \<open>validateCertManager against an API that either knows the Certificate kind or does not.\<close>

lemma validateCertManager_ok:
  "fst (validateCertManager c settings E h) = Inr () \<longleftrightarrow>
     (usesCertManager settings \<longrightarrow> (tls_Cluster settings \<or> tls_Client settings) \<and>
        (\<forall>r. user_issuer settings = Some r \<longrightarrow> issuerKind r \<in> {''Issuer'', ''ClusterIssuer''}) \<and>
        ev_rest_mapping E h KCertificate = None)"
  by (auto simp: validateCertManager_def Let_def rest_mapping_def bnd_ask ret_run fail_run
      issuerKindIssuer_def issuerKindClusterIssuer_def split: option.splits)

section \<open>Properties\<close>

lemma validateTLS_ok:
  assumes "\<And>h. rd_exists (ev_cluster E) h (c_name c) = Inr cl"
    and "\<And>h. rd_exists (ev_group E TiDB) h (c_name c) = Inr g"
    and "\<And>h. ev_rest_mapping E h KCertificate = crd"
  shows "fst (validateTLS c E h) = Inr () \<longleftrightarrow>
    (let t = tlsSettings c in
     (usesCertManager t \<longrightarrow> (tls_Cluster t \<or> tls_Client t) \<and> crd = None \<and>
        (\<forall>r. user_issuer t = Some r \<longrightarrow> issuerKind r \<in> {''Issuer'', ''ClusterIssuer''})) \<and>
     (\<forall>x. cl = Some x \<longrightarrow> tls_Cluster t = cluster_tls_on x \<and>
        (let current = currentTLSSource x (cluster_tls_on x \<or> tls_Client t) in
         tlsSource t = '''' \<or> current = '''' \<or> tlsSource t = current)) \<and>
     (\<forall>y. g = Some y \<longrightarrow> tls_Client t = mysql_tls_on y))"
  using assms
  by (auto simp: validateTLS_def Let_def thn_ok_iff validateCertManager_ok bnd_ask exists_cluster_def
      exists_group_def cluster_tls_error_None client_tls_error_None split: option.splits)

text \<open>C35: with stable reads, validateTLS accepts exactly the Instances whose TLS choices are usable and
  unchanged: cert-manager is only asked for when TLS is on, with a known issuer kind and its CRD
  installed; an existing Cluster has the same tls.cluster and, where one is recorded or implied,
  the same certificate source; and an existing TiDB group has the same tls.client.\<close>

theorem validateTLS_accepts:
  assumes "\<And>h. rd_exists (ev_cluster E) h (c_name c) = Inr cl"
    and "\<And>h. rd_exists (ev_group E TiDB) h (c_name c) = Inr g"
    and "\<And>h. ev_rest_mapping E h KCertificate = crd"
  shows "fst (validateTLS c E h) = Inr () \<longleftrightarrow>
    (let t = tlsSettings c in
     (usesCertManager t \<longrightarrow> (tls_Cluster t \<or> tls_Client t) \<and> crd = None \<and>
        (\<forall>r. user_issuer t = Some r \<longrightarrow> issuerKind r \<in> {''Issuer'', ''ClusterIssuer''})) \<and>
     (\<forall>x. cl = Some x \<longrightarrow> tls_Cluster t = cluster_tls_on x \<and>
        (let current = currentTLSSource x (cluster_tls_on x \<or> tls_Client t) in
         tlsSource t = '''' \<or> current = '''' \<or> tlsSource t = current)) \<and>
     (\<forall>y. g = Some y \<longrightarrow> tls_Client t = mysql_tls_on y))"
  by (rule validateTLS_ok [OF assms])

definition tls_sample_ctx :: "TLS \<Rightarrow> ctx" where
  "tls_sample_ctx t = sample_ctx\<lparr>cx_lib := sample_lib\<lparr>try_decode_topology :=
     \<lambda>i. Some \<lparr>tp_Monitoring = None, tp_TLS = Some t\<rparr>\<rparr>\<rparr>"

lemma tls_sample_ctx_simps [simp]:
  "tlsSettings (tls_sample_ctx t) = t" "c_name (tls_sample_ctx t) = ''db''"
  "cx_instance (tls_sample_ctx t) = sample_instance"
  by (simp_all add: tls_sample_ctx_def tlsSettings_def c_name_def sample_ctx_def sample_instance_def bare_meta_def)

theorem validateTLS_accepts_witness:
  "fst (validateTLS (tls_sample_ctx \<lparr>tls_Cluster = True, tls_Client = False, tls_CertManager = None\<rparr>)
     (env_of (empty_store\<lparr>so_cluster := [''db'' \<mapsto> sample_cluster]\<rparr>)) []) \<noteq> Inr ()"
  by (subst validateTLS_accepts [where cl = "Some sample_cluster" and g = None and crd = None])
    (simp_all add: sample_cluster_def cluster_tls_on_def)

end
