(* ===== verification/TomlConfig.thy ===== *)
theory TomlConfig
  imports Components Samples
begin

text \<open>
  Editing a user's TOML configuration: the table helpers of internal/provider/tikv_sizing.go
  (hasKey, hasAnyKey, setKey), internal/provider/tiproxy_config.go, and the graceful shutdown
  wait of internal/provider/session_token.go. Decoding and encoding are BurntSushi/toml, so
  parameters; the decoded document is a tree of tables. The Go code updates nested maps in
  place; a decoded tree shares nothing, so the model returns the updated tree.
\<close>

section \<open>Paths in a table\<close>

fun lookup_path :: "toml_table \<Rightarrow> string list \<Rightarrow> toml option" where
  "lookup_path cfg [] = None"
| "lookup_path cfg [k] = cfg k"
| "lookup_path cfg (k # k' # ks) =
     (case cfg k of Some (TTable t) \<Rightarrow> lookup_path t (k' # ks) | _ \<Rightarrow> None)"

fun hasKey :: "toml_table \<Rightarrow> string list \<Rightarrow> bool" where
  "hasKey cfg [] = False"
| "hasKey cfg (k # ks) =
     (case cfg k of
        None \<Rightarrow> False
      | Some v \<Rightarrow>
          if ks = [] then True
          else (case v of TTable t \<Rightarrow> hasKey t ks | _ \<Rightarrow> False))"

fun hasAnyKey :: "toml_table \<Rightarrow> string list list \<Rightarrow> bool" where
  "hasAnyKey cfg [] = False"
| "hasAnyKey cfg (key # keys) = (if hasKey cfg key then True else hasAnyKey cfg keys)"

text \<open>setKey is only called with the non-empty keys below (it would panic on an empty one).\<close>

fun setKey :: "toml_table \<Rightarrow> string list \<Rightarrow> string \<Rightarrow> toml_table" where
  "setKey cfg [] v = cfg"
| "setKey cfg [k] v = cfg(k \<mapsto> TStr v)"
| "setKey cfg (k # k' # ks) v =
     cfg(k \<mapsto> TTable (setKey (case cfg k of Some (TTable t) \<Rightarrow> t | _ \<Rightarrow> Map.empty) (k' # ks) v))"

lemma hasKey_iff: "hasKey cfg p \<longleftrightarrow> lookup_path cfg p \<noteq> None"
  by (induction cfg p rule: lookup_path.induct) (auto split: option.splits toml.splits)

lemma hasAnyKey_iff: "hasAnyKey cfg ks \<longleftrightarrow> (\<exists>k \<in> set ks. hasKey cfg k)"
  by (induction ks) auto

lemma lookup_path_empty [simp]: "lookup_path Map.empty p = None"
  by (cases "(Map.empty :: toml_table, p)" rule: lookup_path.cases) auto

lemma lookup_setKey_same: "p \<noteq> [] \<Longrightarrow> lookup_path (setKey cfg p v) p = Some (TStr v)"
  by (induction cfg p v rule: setKey.induct) (auto split: option.splits toml.splits)

text \<open>Setting a key leaves every path alone that neither extends nor is extended by it, unless a
  value that is no table stood in the way of the key.\<close>

lemma lookup_setKey_other:
  "\<not> prefix p q \<Longrightarrow> \<not> prefix q p \<Longrightarrow> lookup_path (setKey cfg p v) q = lookup_path cfg q"
proof (induction cfg p v arbitrary: q rule: setKey.induct)
  case (1 cfg v)
  then show ?case by simp
next
  case (2 cfg k v)
  then show ?case by (cases "(cfg, q)" rule: lookup_path.cases) auto
next
  case (3 cfg k k' ks v)
  show ?case
  proof (cases "(cfg, q)" rule: lookup_path.cases)
    case 1
    then show ?thesis by simp
  next
    case (2 _ j)
    with "3.prems" show ?thesis by auto
  next
    case (3 _ j j' js)
    show ?thesis
    proof (cases "j = k")
      case True
      with "3" "3.prems" have "\<not> prefix (k' # ks) (j' # js)" "\<not> prefix (j' # js) (k' # ks)"
        by auto
      then have "lookup_path (setKey (case cfg k of Some (TTable t) \<Rightarrow> t | _ \<Rightarrow> Map.empty) (k' # ks) v) (j' # js)
          = lookup_path (case cfg k of Some (TTable t) \<Rightarrow> t | _ \<Rightarrow> Map.empty) (j' # js)"
        by (rule "3.IH")
      with True "3" show ?thesis by (simp split: option.splits toml.splits)
    next
      case False
      with "3" show ?thesis by simp
    qed
  qed
qed

section \<open>TiProxy: internal/provider/tiproxy_config.go\<close>

text \<open>encodeTOML renders a parsed config, or returns the fallback if it cannot.\<close>

definition encodeTOML :: "lib \<Rightarrow> toml_table \<Rightarrow> string \<Rightarrow> string" where
  "encodeTOML L parsed fallback =
     (case toml_encode L parsed of None \<Rightarrow> fallback | Some s \<Rightarrow> s)"

text \<open>subTable returns the table under the key, adding an empty one to the parent if it is
  missing; \<^const>\<open>None\<close> when the key holds something else. The parent comes back as the
  call leaves it.\<close>

definition subTable :: "toml_table \<Rightarrow> string \<Rightarrow> (toml_table \<times> toml_table) option" where
  "subTable parent key =
     (case parent key of
        None \<Rightarrow> Some (parent(key \<mapsto> TTable Map.empty), Map.empty)
      | Some (TTable t) \<Rightarrow> Some (parent, t)
      | Some _ \<Rightarrow> None)"

definition withOptionalClientCerts :: "lib \<Rightarrow> string \<Rightarrow> string" where
  "withOptionalClientCerts L cfg =
     (case toml_decode L cfg of
        None \<Rightarrow> cfg
      | Some parsed \<Rightarrow>
          (case subTable parsed ''security'' of
             None \<Rightarrow> cfg
           | Some (parsed1, security) \<Rightarrow>
               (case subTable security ''server-tls'' of
                  None \<Rightarrow> cfg
                | Some (security1, serverTLS) \<Rightarrow>
                    if serverTLS ''skip-ca'' \<noteq> None then cfg
                    else encodeTOML L
                      (parsed1(''security'' \<mapsto> TTable (security1(''server-tls'' \<mapsto>
                         TTable (serverTLS(''skip-ca'' \<mapsto> TBool True)))))) cfg)))"

section \<open>TiDB: the graceful shutdown wait\<close>

definition tidbGracefulWaitKey :: string where "tidbGracefulWaitKey = ''graceful-wait-before-shutdown''"
definition tidbGracefulWaitSeconds :: int where "tidbGracefulWaitSeconds = 15"

definition withTiDBGracefulWait :: "lib \<Rightarrow> string \<Rightarrow> string" where
  "withTiDBGracefulWait L cfg =
     (case toml_decode L cfg of
        None \<Rightarrow> cfg
      | Some parsed \<Rightarrow>
          if parsed tidbGracefulWaitKey \<noteq> None then cfg
          else encodeTOML L (parsed(tidbGracefulWaitKey \<mapsto> TInt tidbGracefulWaitSeconds)) cfg)"

definition configSets :: "lib \<Rightarrow> string \<Rightarrow> string \<Rightarrow> bool" where
  "configSets L cfg key =
     (case toml_decode L cfg of None \<Rightarrow> False | Some parsed \<Rightarrow> parsed key \<noteq> None)"

section \<open>What the TOML library documents\<close>

text \<open>A table the encoder accepts decodes to itself.\<close>

definition toml_roundtrip :: "lib \<Rightarrow> bool" where
  "toml_roundtrip L \<longleftrightarrow> (\<forall>t s. toml_encode L t = Some s \<longrightarrow> toml_decode L s = Some t)"

lemma toml_roundtripD: "toml_roundtrip L \<Longrightarrow> toml_encode L t = Some s \<Longrightarrow> toml_decode L s = Some t"
  by (simp add: toml_roundtrip_def)

section \<open>Editors\<close>

text \<open>
  The contract of the configuration editors: an edit is a fixed point (editing its own output
  again changes nothing), which is what keeps every reconcile from rolling the pods again, and
  input that does not parse comes back unchanged. The laws hold for a library that round-trips.
\<close>

locale config_editor =
  fixes edit :: "lib \<Rightarrow> string \<Rightarrow> string"
  assumes edit_stable: "toml_roundtrip L \<Longrightarrow> edit L (edit L cfg) = edit L cfg"
    and edit_unparsed: "toml_decode L cfg = None \<Longrightarrow> edit L cfg = cfg"
begin

lemma iterate_edit: "toml_roundtrip L \<Longrightarrow> (edit L ^^ Suc n) cfg = edit L cfg"
  by (induction n) (simp_all add: edit_stable)

end

lemma withOptionalClientCerts_stable:
  assumes "toml_roundtrip L"
  shows "withOptionalClientCerts L (withOptionalClientCerts L cfg) = withOptionalClientCerts L cfg"
  using toml_roundtripD [OF assms]
  by (auto simp: withOptionalClientCerts_def encodeTOML_def subTable_def split: option.splits toml.splits)

lemma withTiDBGracefulWait_stable:
  assumes "toml_roundtrip L"
  shows "withTiDBGracefulWait L (withTiDBGracefulWait L cfg) = withTiDBGracefulWait L cfg"
  using toml_roundtripD [OF assms]
  by (auto simp: withTiDBGracefulWait_def encodeTOML_def split: option.splits)

interpretation client_certs: config_editor withOptionalClientCerts
  by unfold_locales (rule withOptionalClientCerts_stable, assumption, simp add: withOptionalClientCerts_def)

interpretation graceful_wait: config_editor withTiDBGracefulWait
  by unfold_locales (rule withTiDBGracefulWait_stable, assumption, simp add: withTiDBGracefulWait_def)

section \<open>Properties\<close>

text \<open>A library that knows one document and its edited form, for the witnesses.\<close>

definition two_document_lib :: "toml_table \<Rightarrow> toml_table \<Rightarrow> lib" where
  "two_document_lib input output = sample_lib
     \<lparr>toml_decode := \<lambda>s. if s = ''in'' then Some input else if s = ''out'' then Some output else None,
      toml_encode := \<lambda>t. if t = output then Some ''out'' else None\<rparr>"

lemma two_document_lib_simps [simp]:
  "toml_decode (two_document_lib i u) s = (if s = ''in'' then Some i else if s = ''out'' then Some u else None)"
  "toml_encode (two_document_lib i u) t = (if t = u then Some ''out'' else None)"
  "q_cmp (two_document_lib i u) a b = sgn (sample_quantity a - sample_quantity b)"
  "q_value (two_document_lib i u) = sample_quantity"
  "q_is_zero (two_document_lib i u) q \<longleftrightarrow> sample_quantity q = 0"
  by (simp_all add: two_document_lib_def)

lemma two_document_roundtrip: "toml_roundtrip (two_document_lib i u)"
  by (simp add: toml_roundtrip_def)

definition skip_ca_path :: "string list" where
  "skip_ca_path = [''security'', ''server-tls'', ''skip-ca'']"

lemma lookup_skip_ca:
  "lookup_path parsed skip_ca_path =
     (case parsed ''security'' of
        Some (TTable security) \<Rightarrow>
          (case security ''server-tls'' of Some (TTable tls) \<Rightarrow> tls ''skip-ca'' | _ \<Rightarrow> None)
      | _ \<Rightarrow> None)"
  by (simp add: skip_ca_path_def split: option.splits toml.splits)

text \<open>WithOptionalClientCerts never overrides the user: either it returns the config it was
  given (in particular whenever that sets skip-ca itself), or the config it returns parses to the
  user's document with skip-ca switched on and every unrelated setting unchanged.\<close>

theorem withOptionalClientCerts_spec:
  assumes "toml_roundtrip L" and "toml_decode L cfg = Some parsed"
  shows "(lookup_path parsed skip_ca_path \<noteq> None \<longrightarrow> withOptionalClientCerts L cfg = cfg) \<and>
    (withOptionalClientCerts L cfg = cfg \<or>
     (\<exists>parsed'. toml_decode L (withOptionalClientCerts L cfg) = Some parsed' \<and>
        lookup_path parsed' skip_ca_path = Some (TBool True) \<and>
        (\<forall>k. k \<noteq> ''security'' \<longrightarrow> parsed' k = parsed k) \<and>
        (\<forall>k. k \<noteq> ''server-tls'' \<longrightarrow>
           lookup_path parsed' [''security'', k] = lookup_path parsed [''security'', k]) \<and>
        (\<forall>k. k \<noteq> ''skip-ca'' \<longrightarrow>
           lookup_path parsed' [''security'', ''server-tls'', k] = lookup_path parsed [''security'', ''server-tls'', k])))"
  using assms(2) toml_roundtripD [OF assms(1)]
  by (auto simp: withOptionalClientCerts_def encodeTOML_def subTable_def lookup_skip_ca
      split: option.splits toml.splits)

theorem withOptionalClientCerts_spec_witness:
  "(\<exists>parsed'. toml_decode (two_document_lib Map.empty
        [''security'' \<mapsto> TTable [''server-tls'' \<mapsto> TTable [''skip-ca'' \<mapsto> TBool True]]])
      ''out'' = Some parsed' \<and> lookup_path parsed' skip_ca_path = Some (TBool True))"
proof -
  let ?out = "[''security'' \<mapsto> TTable [''server-tls'' \<mapsto> TTable [''skip-ca'' \<mapsto> TBool True]]] :: toml_table"
  let ?L = "two_document_lib Map.empty ?out"
  have "withOptionalClientCerts ?L ''in'' = ''out''"
    by (simp add: withOptionalClientCerts_def subTable_def encodeTOML_def)
  moreover have "toml_decode ?L ''in'' = Some Map.empty" by simp
  ultimately show ?thesis
    using withOptionalClientCerts_spec [OF two_document_roundtrip [of Map.empty ?out], of "''in''" Map.empty]
    by auto
qed

end
