(* ===== verification/SessionToken.thy ===== *)
theory SessionToken
  imports TlsSettings TomlConfig
begin

text \<open>
  internal/provider/session_token.go: how TiDB's session-token signing is turned on. The
  Cluster's feature gates are frozen unless FeatureModification is on, so an existing cluster
  goes through FeatureModification before SessionTokenSigning, one reconcile at a time; the
  header comment of the source describes the states. A feature is its name.
\<close>

section \<open>Definitions\<close>

definition FeatureModification :: string where "FeatureModification = ''FeatureModification''"
definition SessionTokenSigning :: string where "SessionTokenSigning = ''SessionTokenSigning''"

definition sessionTokenSigningSecretSuffix :: string where
  "sessionTokenSigningSecretSuffix = ''-session-token-signing-secret''"

definition sessionTokenSigningSecretName :: "string \<Rightarrow> string" where
  "sessionTokenSigningSecretName i = i @ sessionTokenSigningSecretSuffix"

definition sessionTokenSigningLeaf :: "string \<Rightarrow> leafCert" where
  "sessionTokenSigningLeaf i =
     \<lparr>lf_secretName = sessionTokenSigningSecretName i, lf_commonName = i @ ''-tidb-session-token'',
      lf_dnsNames = [], lf_usages = []\<rparr>"

definition hasFeatureGate :: "cluster \<Rightarrow> string \<Rightarrow> bool" where
  "hasFeatureGate cl name \<longleftrightarrow> name \<in> set (cl_gates cl)"

definition sessionTokenSigningSecurity :: "string \<Rightarrow> cluster_security" where
  "sessionTokenSigningSecurity i = \<lparr>cs_session_token_ref = Some (sessionTokenSigningSecretName i)\<rparr>"

definition newClusterSessionTokenSigning :: "ctx \<Rightarrow> string list \<times> cluster_security option" where
  "newClusterSessionTokenSigning c =
     (case enabledTiProxy (c_components c) of
        None \<Rightarrow> ([], None)
      | Some _ \<Rightarrow> ([FeatureModification, SessionTokenSigning], Some (sessionTokenSigningSecurity (c_name c))))"

text \<open>Every TiDB instance of the group carries a feature.\<close>

definition tidb_selector :: "ctx \<Rightarrow> (string \<times> string) list" where
  "tidb_selector c = [(api_const (cx_lib c) ''LabelKeyCluster'', c_name c),
                      (api_const (cx_lib c) ''LabelKeyGroup'', c_name c)]"

definition readyForSessionTokenSigning :: "ctx \<Rightarrow> bool io" where
  "readyForSessionTokenSigning c =
     bnd (exists_secret (sessionTokenSigningSecretName (c_name c))) (\<lambda>r.
     bnd (or_fail r) (\<lambda>sec.
       if sec = None then ret False
       else
         bnd (exists_group TiDB (c_name c)) (\<lambda>r.
         bnd (or_wrap ''get tidb group'' r) (\<lambda>found.
           case found of
             None \<Rightarrow> ret True
           | Some grp \<Rightarrow>
               if FeatureModification \<notin> set (g_features grp) then ret False
               else
                 bnd (list_members TiDB (tidb_selector c)) (\<lambda>r.
                 bnd (or_wrap ''listing tidb instances'' r) (\<lambda>tidbs.
                 ret (\<forall>m \<in> set tidbs. FeatureModification \<in> set (mb_features m))))))))"

definition existingClusterSessionTokenSigning ::
  "ctx \<Rightarrow> cluster \<Rightarrow> (string list \<times> cluster_security option) io" where
  "existingClusterSessionTokenSigning c existing =
     (let tiproxy = enabledTiProxy (c_components c) \<noteq> None;
          modification = hasFeatureGate existing FeatureModification;
          signing = hasFeatureGate existing SessionTokenSigning;
          gates = (if modification \<or> tiproxy then [FeatureModification] else []) in
      if signing then
        ret (gates @ [SessionTokenSigning],
             (case cl_security existing of
                None \<Rightarrow> None
              | Some sec \<Rightarrow> (case cs_session_token_ref sec of
                              None \<Rightarrow> None | Some ref \<Rightarrow> Some \<lparr>cs_session_token_ref = Some ref\<rparr>)))
      else if \<not> tiproxy \<or> \<not> modification then ret (gates, None)
      else
        bnd (readyForSessionTokenSigning c) (\<lambda>ready.
          if \<not> ready then ret (gates, None)
          else ret (gates @ [SessionTokenSigning], Some (sessionTokenSigningSecurity (c_name c)))))"

definition usesSessionTokenSigning :: "ctx \<Rightarrow> cluster \<Rightarrow> bool" where
  "usesSessionTokenSigning c cl \<longleftrightarrow>
     enabledTiProxy (c_components c) \<noteq> None \<or>
     (case cl_security cl of
        None \<Rightarrow> False
      | Some sec \<Rightarrow> cs_session_token_ref sec = Some (sessionTokenSigningSecretName (c_name c)))"

definition clusterHasSessionTokenSigning :: "ctx \<Rightarrow> bool io" where
  "clusterHasSessionTokenSigning c =
     bnd (exists_cluster (c_name c)) (\<lambda>r.
     bnd (or_wrap ''get cluster'' r) (\<lambda>found.
     ret (case found of None \<Rightarrow> False | Some cl \<Rightarrow> hasFeatureGate cl SessionTokenSigning)))"

text \<open>addTiDBGracefulWait returns the group as it leaves it.\<close>

definition addTiDBGracefulWait :: "ctx \<Rightarrow> group \<Rightarrow> cluster \<Rightarrow> bool \<Rightarrow> group io" where
  "addTiDBGracefulWait c grp cl hadSigning =
     (let add = ret (grp\<lparr>g_config := withTiDBGracefulWait (cx_lib c) (g_config grp)\<rparr>) in
      if \<not> hasFeatureGate cl SessionTokenSigning then ret grp
      else if \<not> hadSigning then add
      else
        bnd (exists_group TiDB (om_name (g_meta grp))) (\<lambda>r.
        bnd (or_wrap ''get tidb group'' r) (\<lambda>found.
          case found of
            None \<Rightarrow> add
          | Some existing \<Rightarrow>
              if \<not> configSets (cx_lib c) (g_config existing) tidbGracefulWaitKey then ret grp else add)))"

section \<open>Facts\<close>

lemma feature_names_distinct [simp]:
  "FeatureModification \<noteq> SessionTokenSigning" "SessionTokenSigning \<noteq> FeatureModification"
  by (simp_all add: FeatureModification_def SessionTokenSigning_def)

lemma readyForSessionTokenSigning_read_only: "read_only (readyForSessionTokenSigning c)"
  unfolding read_only_def readyForSessionTokenSigning_def read_defs
  by (intro calls_intro) simp_all

text \<open>What readyForSessionTokenSigning answers when the reads are stable.\<close>

lemma readyForSessionTokenSigning_run:
  assumes "\<And>h. rd_exists (ev_secret E) h (sessionTokenSigningSecretName (c_name c)) = Inr sec"
    and "\<And>h. rd_exists (ev_group E TiDB) h (c_name c) = Inr g"
    and "\<And>h. ev_members E h TiDB (tidb_selector c) = Inr ms"
  shows "fst (readyForSessionTokenSigning c E h) = Inr (sec \<noteq> None \<and>
    (\<forall>grp. g = Some grp \<longrightarrow> FeatureModification \<in> set (g_features grp) \<and>
       (\<forall>m \<in> set ms. FeatureModification \<in> set (mb_features m))))"
  using assms
  by (cases g) (auto simp: readyForSessionTokenSigning_def exists_secret_def exists_group_def
      list_members_def bnd_ask ret_run)

section \<open>The gates of a cluster over time\<close>

text \<open>
  One provider pass on a Cluster: the gates and security settings it applies. The Instance (and
  so whether TiProxy is enabled), the environment and everything in it may differ from pass to
  pass; only the name of the Instance stays.
\<close>

inductive gates_step :: "string \<Rightarrow> cluster \<Rightarrow> cluster \<Rightarrow> bool" where
  gates_pass: "c_name c = n \<Longrightarrow> existingClusterSessionTokenSigning c cl E h = (Inr (gs, sec), t) \<Longrightarrow>
    gates_step n cl (cl\<lparr>cl_gates := gs, cl_security := sec\<rparr>)"

inductive gates_reach :: "string \<Rightarrow> cluster \<Rightarrow> bool" where
  gates_new: "c_name c = n \<Longrightarrow> newClusterSessionTokenSigning c = (gs, sec) \<Longrightarrow>
    gates_reach n (cl\<lparr>cl_gates := gs, cl_security := sec\<rparr>)"
| gates_next: "gates_reach n cl \<Longrightarrow> gates_step n cl cl' \<Longrightarrow> gates_reach n cl'"

inductive_simps gates_step_iff: "gates_step n cl cl'"

text \<open>The shape of one pass's answer.\<close>

lemma existing_pass:
  assumes "existingClusterSessionTokenSigning c cl E h = (Inr (gs, sec), t)"
  shows "(FeatureModification \<in> set gs \<longleftrightarrow>
            hasFeatureGate cl FeatureModification \<or> enabledTiProxy (c_components c) \<noteq> None) \<and>
    (if hasFeatureGate cl SessionTokenSigning
     then SessionTokenSigning \<in> set gs \<and>
       sec = (case cl_security cl of None \<Rightarrow> None
              | Some s \<Rightarrow> map_option (\<lambda>ref. \<lparr>cs_session_token_ref = Some ref\<rparr>) (cs_session_token_ref s))
     else SessionTokenSigning \<in> set gs \<longrightarrow>
       hasFeatureGate cl FeatureModification \<and> enabledTiProxy (c_components c) \<noteq> None \<and>
       sec = Some (sessionTokenSigningSecurity (c_name c)))"
  using assms
  by (auto simp: existingClusterSessionTokenSigning_def Let_def ret_run bnd_Inr_iff
      split: if_splits option.splits)

definition gates_ok :: "string \<Rightarrow> cluster \<Rightarrow> bool" where
  "gates_ok n cl \<longleftrightarrow> (hasFeatureGate cl SessionTokenSigning \<longrightarrow>
     hasFeatureGate cl FeatureModification \<and> cl_security cl = Some (sessionTokenSigningSecurity n))"

lemma gates_new_ok:
  "newClusterSessionTokenSigning c = (gs, sec) \<Longrightarrow>
   gates_ok (c_name c) (cl\<lparr>cl_gates := gs, cl_security := sec\<rparr>)"
  by (auto simp: newClusterSessionTokenSigning_def gates_ok_def hasFeatureGate_def split: option.splits)

lemma gates_step_ok:
  assumes "gates_step n cl cl'" "gates_ok n cl"
  shows "gates_ok n cl'"
proof -
  from assms(1) obtain c E h gs sec t where
    pass: "c_name c = n" "existingClusterSessionTokenSigning c cl E h = (Inr (gs, sec), t)"
      "cl' = cl\<lparr>cl_gates := gs, cl_security := sec\<rparr>"
    unfolding gates_step_iff by blast
  with existing_pass [OF pass(2)] assms(2) show ?thesis
    by (auto simp: gates_ok_def hasFeatureGate_def sessionTokenSigningSecurity_def split: if_splits)
qed

lemma gates_step_mono:
  assumes "gates_step n cl cl'" "f \<in> {FeatureModification, SessionTokenSigning}" "hasFeatureGate cl f"
  shows "hasFeatureGate cl' f"
proof -
  from assms(1) obtain c E h gs sec t where
    pass: "existingClusterSessionTokenSigning c cl E h = (Inr (gs, sec), t)"
      "cl' = cl\<lparr>cl_gates := gs, cl_security := sec\<rparr>"
    unfolding gates_step_iff by blast
  with existing_pass [OF pass(1)] assms(2,3) show ?thesis
    by (auto simp: hasFeatureGate_def split: if_splits)
qed

text \<open>A gate that is on stays on.\<close>

interpretation gates: one_way "gates_step n"
  "\<lambda>cl cl'. \<forall>f \<in> {FeatureModification, SessionTokenSigning}. hasFeatureGate cl f \<longrightarrow> hasFeatureGate cl' f" for n
  by unfold_locales (auto dest: gates_step_mono)

lemma gates_reach_ok: "gates_reach n cl \<Longrightarrow> gates_ok n cl"
  by (induction rule: gates_reach.induct) (auto intro: gates_new_ok gates_step_ok)

section \<open>Properties\<close>

text \<open>C19: whatever the provider does to a Cluster over its life, with TiProxy turned on and off and
  any state of the pods in between, SessionTokenSigning is only ever on together with
  FeatureModification and with the Cluster pointing at the Instance's signing Secret; and no number
  of passes turns either gate off again.\<close>

theorem gates_invariant:
  assumes "gates_reach n cl"
  shows "(hasFeatureGate cl SessionTokenSigning \<longrightarrow>
      hasFeatureGate cl FeatureModification \<and> cl_security cl = Some (sessionTokenSigningSecurity n)) \<and>
    (\<forall>cl'. (gates_step n)\<^sup>*\<^sup>* cl cl' \<longrightarrow>
      (\<forall>f \<in> {FeatureModification, SessionTokenSigning}. hasFeatureGate cl f \<longrightarrow> hasFeatureGate cl' f))"
  using gates_reach_ok [OF assms] gates.steps_le unfolding gates_ok_def by blast

definition tiproxy_sample :: "(string \<rightharpoonup> component_spec)" where
  "tiproxy_sample = [''tiproxy'' \<mapsto> zero_component]"

lemma tiproxy_sample_enabled: "enabledTiProxy tiproxy_sample = Some zero_component"
  by (simp add: enabledTiProxy_def tiproxy_sample_def)

theorem gates_invariant_witness:
  "hasFeatureGate (sample_cluster\<lparr>cl_gates := [FeatureModification, SessionTokenSigning],
     cl_security := Some (sessionTokenSigningSecurity ''db'')\<rparr>) FeatureModification"
proof -
  let ?c = "sample_ctx_with tiproxy_sample"
  have "newClusterSessionTokenSigning ?c =
      ([FeatureModification, SessionTokenSigning], Some (sessionTokenSigningSecurity ''db''))"
    by (simp add: newClusterSessionTokenSigning_def tiproxy_sample_enabled)
  then have "gates_reach ''db'' (sample_cluster\<lparr>cl_gates := [FeatureModification, SessionTokenSigning],
     cl_security := Some (sessionTokenSigningSecurity ''db'')\<rparr>)"
    by (intro gates_new [of ?c]) simp_all
  from gates_invariant [OF this] show ?thesis by (simp add: hasFeatureGate_def)
qed

text \<open>On an existing Cluster that does not sign yet, a pass turns SessionTokenSigning on exactly when
  TiProxy is enabled, FeatureModification was already on, the signing Secret exists, and the TiDB
  group, if there is one, and every one of its TiDB instances carry FeatureModification (so that
  the operator replaces the pods instead of changing them in place).\<close>

theorem signing_turned_on_iff:
  assumes "\<And>h. rd_exists (ev_secret E) h (sessionTokenSigningSecretName (c_name c)) = Inr sec"
    and "\<And>h. rd_exists (ev_group E TiDB) h (c_name c) = Inr g"
    and "\<And>h. ev_members E h TiDB (tidb_selector c) = Inr ms"
    and "\<not> hasFeatureGate cl SessionTokenSigning"
  shows "\<exists>gs s. fst (existingClusterSessionTokenSigning c cl E h) = Inr (gs, s) \<and>
    (SessionTokenSigning \<in> set gs \<longleftrightarrow>
       enabledTiProxy (c_components c) \<noteq> None \<and> hasFeatureGate cl FeatureModification \<and> sec \<noteq> None \<and>
       (\<forall>grp. g = Some grp \<longrightarrow> FeatureModification \<in> set (g_features grp) \<and>
          (\<forall>m \<in> set ms. FeatureModification \<in> set (mb_features m))))"
proof -
  define ready where "ready \<longleftrightarrow> sec \<noteq> None \<and>
    (\<forall>grp. g = Some grp \<longrightarrow> FeatureModification \<in> set (g_features grp) \<and>
       (\<forall>m \<in> set ms. FeatureModification \<in> set (mb_features m)))"
  obtain t where r: "readyForSessionTokenSigning c E h = (Inr ready, t)"
    by (rule that [of "snd (readyForSessionTokenSigning c E h)"])
      (simp only: prod_eq_iff fst_conv snd_conv readyForSessionTokenSigning_run [OF assms(1-3)] ready_def simp_thms)
  have "\<exists>gs s. fst (existingClusterSessionTokenSigning c cl E h) = Inr (gs, s) \<and>
      (SessionTokenSigning \<in> set gs \<longleftrightarrow>
         enabledTiProxy (c_components c) \<noteq> None \<and> hasFeatureGate cl FeatureModification \<and> ready)"
    unfolding existingClusterSessionTokenSigning_def Let_def using assms(4)
    by (cases ready; cases "enabledTiProxy (c_components c)"; cases "hasFeatureGate cl FeatureModification")
      (simp_all add: bnd_run_Inr [where m = "readyForSessionTokenSigning c", OF r] ret_run)
  then show ?thesis unfolding ready_def by simp
qed

theorem signing_turned_on_iff_witness:
  "\<exists>gs s. fst (existingClusterSessionTokenSigning (sample_ctx_with tiproxy_sample)
     (sample_cluster\<lparr>cl_gates := [FeatureModification]\<rparr>) (env_of empty_store) []) = Inr (gs, s) \<and>
     SessionTokenSigning \<notin> set gs"
  using signing_turned_on_iff [of "env_of empty_store" "sample_ctx_with tiproxy_sample" None None "[]"
      "sample_cluster\<lparr>cl_gates := [FeatureModification]\<rparr>" "[]"]
  by (simp add: hasFeatureGate_def)

text \<open>The graceful shutdown wait never rolls TiDB again. Whatever an earlier pass over the same
  config put into the TiDB group, a pass over a cluster that already signed session tokens leaves
  that config as it is.\<close>

theorem graceful_wait_settled:
  assumes "toml_roundtrip (cx_lib c)"
    and "addTiDBGracefulWait c grp cl had E h = (Inr applied, t)"
    and "\<And>h. rd_exists (ev_group E' TiDB) h (om_name (g_meta grp)) = Inr (Some existing)"
    and "g_config existing = g_config applied" and "hasFeatureGate cl' SessionTokenSigning"
  shows "\<exists>again t'. addTiDBGracefulWait c grp cl' True E' h' = (Inr again, t') \<and>
    g_config again = g_config existing"
proof -
  let ?L = "cx_lib c" and ?u = "g_config grp"
  have "g_config applied = ?u \<or> g_config applied = withTiDBGracefulWait ?L ?u"
    using assms(2) by (auto simp: addTiDBGracefulWait_def Let_def ret_run bnd_Inr_iff split: if_splits option.splits)
  then have "(if configSets ?L (g_config existing) tidbGracefulWaitKey then withTiDBGracefulWait ?L ?u else ?u)
      = g_config existing"
    using assms(4) toml_roundtripD [OF assms(1)]
    by (auto simp: withTiDBGracefulWait_def configSets_def encodeTOML_def split: option.splits if_splits)
  then show ?thesis
    using assms(3,5)
    by (auto simp: addTiDBGracefulWait_def Let_def exists_group_def bnd_ask ret_run split: if_splits)
qed

theorem graceful_wait_settled_witness:
  "\<exists>again t'. addTiDBGracefulWait
     (sample_ctx\<lparr>cx_lib := two_document_lib Map.empty [tidbGracefulWaitKey \<mapsto> TInt 15]\<rparr>)
     ((sample_group TiDB ''v8'' 2)\<lparr>g_config := ''in''\<rparr>)
     (sample_cluster\<lparr>cl_gates := [SessionTokenSigning]\<rparr>) True
     (env_of (empty_store\<lparr>so_group := \<lambda>k. [''db'' \<mapsto> (sample_group TiDB ''v8'' 2)\<lparr>g_config := ''out''\<rparr>]\<rparr>)) []
     = (Inr again, t') \<and> g_config again = ''out''"
proof -
  let ?c = "sample_ctx\<lparr>cx_lib := two_document_lib Map.empty [tidbGracefulWaitKey \<mapsto> TInt 15]\<rparr>"
  let ?g = "(sample_group TiDB ''v8'' 2)\<lparr>g_config := ''in''\<rparr>"
  let ?out = "(sample_group TiDB ''v8'' 2)\<lparr>g_config := ''out''\<rparr>"
  let ?cl = "sample_cluster\<lparr>cl_gates := [SessionTokenSigning]\<rparr>"
  have first: "addTiDBGracefulWait ?c ?g ?cl False (env_of empty_store) [] = (Inr ?out, [])"
    by (simp add: addTiDBGracefulWait_def hasFeatureGate_def ret_run withTiDBGracefulWait_def
        encodeTOML_def tidbGracefulWaitSeconds_def)
  have reads: "rd_exists (ev_group (env_of (empty_store\<lparr>so_group := \<lambda>k. [''db'' \<mapsto> ?out]\<rparr>)) TiDB) h
      (om_name (g_meta ?g)) = Inr (Some ?out)" for h
    by (simp add: bare_meta_def)
  have "toml_roundtrip (cx_lib ?c)" "hasFeatureGate ?cl SessionTokenSigning"
    by (simp_all add: two_document_roundtrip hasFeatureGate_def)
  from graceful_wait_settled [OF this(1) first reads refl this(2)] show ?thesis by simp
qed

end
