(* ===== verification/Credentials.thy ===== *)
theory Credentials
  imports Components Samples
begin

text \<open>
  internal/provider/credentials.go: the root password of a cluster, the Secret it lives in, the
  bootstrap SQL that sets it, and how a restore changes it. crypto/rand and the RFC 3339 layout
  are parameters.
\<close>

section \<open>Names\<close>

definition rootUser :: string where "rootUser = ''root''"
definition rootPasswordKey :: string where "rootPasswordKey = ''password''"
definition rootPasswordLength :: nat where "rootPasswordLength = 24"
definition bootstrapSQLConfigKey :: string where "bootstrapSQLConfigKey = ''bootstrap-sql''"
definition annotationRootFromRestore :: string where
  "annotationRootFromRestore = ''tidb.openeverest.io/root-password-from-restore''"
definition annotationRootRestoredAt :: string where
  "annotationRootRestoredAt = ''tidb.openeverest.io/root-password-restored-at''"

definition rootSecretName :: "string \<Rightarrow> string" where "rootSecretName i = i @ ''-tidb-root''"
definition bootstrapConfigMapName :: "string \<Rightarrow> string" where "bootstrapConfigMapName i = i @ ''-tidb-bootstrap-sql''"
definition backupRootSecretName :: "string \<Rightarrow> string" where "backupRootSecretName b = b @ ''-tidb-root''"

definition opaque :: "lib \<Rightarrow> string" where "opaque L = api_const L ''SecretTypeOpaque''"

abbreviation secret_controller :: "lib \<Rightarrow> secret \<Rightarrow> owner_ref option" where
  "secret_controller L s \<equiv> controller_of L (om_owners (sec_meta s))"

section \<open>Reading a Secret of the provider\<close>

definition belongs_to_previous :: "string \<Rightarrow> owner_ref \<Rightarrow> string" where
  "belongs_to_previous name ref =
     ''secret '' @ go_quote name @ '' belongs to a previous '' @ or_kind ref @ '' '' @ go_quote (or_name ref) @
     ''; waiting for it to be removed''"

definition currentSecret :: "ctx \<Rightarrow> uid \<Rightarrow> string \<Rightarrow> secret option io" where
  "currentSecret c ownerUID name =
     bnd (get_secret name) (\<lambda>r.
       case r of
         Inl e \<Rightarrow> if e = NotFound then ret None else fail (Wrapped (''get secret '' @ go_quote name) (Passed e))
       | Inr sec \<Rightarrow>
           (case secret_controller (cx_lib c) sec of
              None \<Rightarrow> ret (Some sec)
            | Some ref \<Rightarrow>
                if or_uid ref = ownerUID then ret (Some sec)
                else
                  thn (if not_deleting (sec_meta sec)
                       then bnd (do_write (Delete KSecret (om_name (sec_meta sec)))) (\<lambda>r.
                              ok_or_wrap (''delete secret '' @ go_quote name @ '' of a previous '' @ or_kind ref)
                                (ignore_not_found r))
                       else ret ())
                      (fail (WaitFor (belongs_to_previous name ref)))))"

section \<open>The root password\<close>

definition password_charset :: string where
  "password_charset = ''ABCDEFGHIJKLMNOPQRSTUVWXYZabcdefghijklmnopqrstuvwxyz0123456789''"

fun generatePassword :: "nat \<Rightarrow> string io" where
  "generatePassword 0 = ret []"
| "generatePassword (Suc n) =
     bnd (ask (RandomInt (length password_charset)) (\<lambda>E h. ev_random E h (length password_charset))) (\<lambda>r.
     bnd (or_wrap ''generating password'' r) (\<lambda>i.
     bnd (generatePassword n) (\<lambda>rest.
     ret (password_charset ! i # rest))))"

definition newRootPassword :: "string io" where
  "newRootPassword = generatePassword rootPasswordLength"

definition root_secret :: "ctx \<Rightarrow> string \<Rightarrow> secret" where
  "root_secret c password =
     \<lparr>sec_meta = c_object_meta c (rootSecretName (c_name c)), sec_type = opaque (cx_lib c),
      sec_data = [rootPasswordKey \<mapsto> password]\<rparr>"

definition stored_password :: "secret \<Rightarrow> string" where
  "stored_password s = lookup_str (sec_data s) rootPasswordKey"

definition ensureRootPassword :: "ctx \<Rightarrow> string io" where
  "ensureRootPassword c =
     bnd (currentSecret c (om_uid (in_meta (cx_instance c))) (rootSecretName (c_name c))) (\<lambda>sec.
       if sec \<noteq> None \<and> stored_password (the sec) \<noteq> '''' then ret (stored_password (the sec))
       else
         bnd newRootPassword (\<lambda>password.
         bnd (do_write (Apply (OSecret (root_secret c password)))) (\<lambda>r.
         thn (ok_or_wrap ''creating root password secret'' r) (ret password))))"

definition readRootPassword :: "ctx \<Rightarrow> string io" where
  "readRootPassword c =
     bnd (get_secret (rootSecretName (c_name c))) (\<lambda>r.
       case r of
         Inl e \<Rightarrow> ret ''''
       | Inr sec \<Rightarrow>
           (case secret_controller (cx_lib c) sec of
              Some ref \<Rightarrow> if or_uid ref \<noteq> om_uid (in_meta (cx_instance c)) then ret '''' else ret (stored_password sec)
            | None \<Rightarrow> ret (stored_password sec)))"

text \<open>The bootstrap SQL: SET PASSWORD FOR 'root'@'%' = '<password>'; and a newline.\<close>

definition quoted :: "string \<Rightarrow> string" where "quoted s = [CHR 0x27] @ s @ [CHR 0x27]"

definition bootstrap_sql :: "string \<Rightarrow> string" where
  "bootstrap_sql password =
     ''SET PASSWORD FOR '' @ quoted rootUser @ ''@'' @ quoted ''%'' @ '' = '' @ quoted password @ '';'' @ [CHR 0x0A]"

definition buildBootstrapSQLConfigMap :: "ctx \<Rightarrow> string \<Rightarrow> config_map" where
  "buildBootstrapSQLConfigMap c password =
     \<lparr>cmap_meta = c_object_meta c (bootstrapConfigMapName (c_name c)),
      cmap_data = [bootstrapSQLConfigKey \<mapsto> bootstrap_sql password]\<rparr>"

section \<open>Backups and restores\<close>

definition recordBackupRootPassword :: "ctx \<Rightarrow> backup \<Rightarrow> unit io" where
  "recordBackupRootPassword c b =
     bnd (get_secret (backupRootSecretName (om_name (bk_meta b)))) (\<lambda>r.
       case r of
         Inr _ \<Rightarrow> ret ()
       | Inl e \<Rightarrow>
           if e \<noteq> NotFound then fail (Wrapped ''reading backup root password secret'' (Passed e))
           else
             bnd (readRootPassword c) (\<lambda>password.
               if password = '''' then ret ()
               else
                 let sec = \<lparr>sec_meta = (bare_meta (om_namespace (bk_meta b)) (backupRootSecretName (om_name (bk_meta b))))
                              \<lparr>om_labels := om_labels (c_object_meta c '''')\<rparr>,
                            sec_type = opaque (cx_lib c), sec_data = [rootPasswordKey \<mapsto> password]\<rparr> in
                 bnd (or_wrap ''owning backup root password secret''
                        (controller_reference (cx_lib c) (OBackup b) (OSecret sec))) (\<lambda>x.
                 bnd (do_write (Create x)) (\<lambda>r.
                 ok_or_wrap ''creating backup root password secret'' (if r = Some AlreadyExists then None else r)))))"

fun first_password :: "string list \<Rightarrow> string io" where
  "first_password [] = ret ''''"
| "first_password (n # ns) =
     bnd (get_secret n) (\<lambda>r.
       case r of
         Inl e \<Rightarrow> if e = NotFound then first_password ns
                  else fail (Wrapped (''reading secret '' @ n) (Passed e))
       | Inr sec \<Rightarrow> if stored_password sec \<noteq> '''' then ret (stored_password sec) else first_password ns)"

definition restoredRootPassword :: "ctx \<Rightarrow> backup \<Rightarrow> string io" where
  "restoredRootPassword c b =
     first_password (backupRootSecretName (om_name (bk_meta b)) #
       (case bk_instance b of None \<Rightarrow> [] | Some i \<Rightarrow> [rootSecretName i]))"

text \<open>completed.Truncate(time.Second): rounding down to a multiple of a second since year 1.\<close>

definition truncate_second :: "time \<Rightarrow> time" where
  "truncate_second t = t - (t - time_zero) mod second"

text \<open>When the root password Secret was last written from a restore, if it says so.\<close>

definition restored_at :: "lib \<Rightarrow> secret option \<Rightarrow> time option" where
  "restored_at L s =
     (case s of None \<Rightarrow> parse_rfc3339 L ''''
      | Some sec \<Rightarrow> parse_rfc3339 L (lookup_str (om_annotations (sec_meta sec)) annotationRootRestoredAt))"

definition keeps_password :: "lib \<Rightarrow> secret option \<Rightarrow> time \<Rightarrow> bool" where
  "keeps_password L current completed =
     (case restored_at L current of None \<Rightarrow> False | Some prev \<Rightarrow> \<not> truncate_second completed > prev)"

definition adopted_secret :: "ctx \<Rightarrow> string \<Rightarrow> string \<Rightarrow> time \<Rightarrow> secret" where
  "adopted_secret c restore_name password completed =
     (let sec = root_secret c password in
      sec\<lparr>sec_meta := (sec_meta sec)\<lparr>om_annotations :=
        [annotationRootFromRestore \<mapsto> restore_name,
         annotationRootRestoredAt \<mapsto> time_rfc3339 (cx_lib c) completed]\<rparr>\<rparr>)"

definition adoptRestoredRootPassword :: "ctx \<Rightarrow> restore \<Rightarrow> backup \<Rightarrow> time \<Rightarrow> bool io" where
  "adoptRestoredRootPassword c rst b completed =
     bnd (restoredRootPassword c b) (\<lambda>password.
       if password = '''' then ret False
       else
         bnd (get_secret (rootSecretName (c_name c))) (\<lambda>r.
         bnd (case r of
                Inr sec \<Rightarrow> ret (Some sec)
              | Inl e \<Rightarrow> if e = NotFound then ret None else fail (Wrapped ''reading root password secret'' (Passed e))) (\<lambda>current.
           if keeps_password (cx_lib c) current completed then ret True
           else
             bnd (do_write (Apply (OSecret (adopted_secret c (om_name (rs_meta rst)) password completed)))) (\<lambda>r.
             thn (ok_or_wrap ''updating root password secret'' r) (ret True)))))"

section \<open>Facts\<close>

text \<open>What rand.Int documents: a number below the bound.\<close>

definition random_law :: "env \<Rightarrow> bool" where
  "random_law E \<longleftrightarrow> (\<forall>h n i. ev_random E h n = Inr i \<longrightarrow> i < n)"

lemma generatePassword_run:
  assumes "random_law E" "generatePassword n E h = (Inr pw, t)"
  shows "length pw = n \<and> set pw \<subseteq> set password_charset \<and> writes t = []"
  using assms(2)
proof (induction n arbitrary: h pw t)
  case 0
  then show ?case by (simp add: ret_run)
next
  case (Suc n)
  then obtain i rest t1 where
    i: "ev_random E h (length password_charset) = Inr i" and
    rest: "generatePassword n E (h @ [RandomInt (length password_charset)]) = (Inr rest, t1)" and
    pw: "pw = password_charset ! i # rest" and t: "t = RandomInt (length password_charset) # t1"
    by (auto simp: bnd_Inr_iff ask_run ret_run or_wrap_def fail_run split: sum.splits)
  from i assms(1) have "password_charset ! i \<in> set password_charset"
    unfolding random_law_def by (intro nth_mem) blast
  with Suc.IH [OF rest] pw t show ?case by simp
qed

text \<open>The Secret a read may use: present, and not controlled by another object.\<close>

definition owned_or_free :: "lib \<Rightarrow> uid \<Rightarrow> secret \<Rightarrow> bool" where
  "owned_or_free L u sec \<longleftrightarrow> (\<forall>ref. secret_controller L sec = Some ref \<longrightarrow> or_uid ref = u)"

lemma currentSecret_Inr:
  assumes "currentSecret c u name E h = (Inr r, t)"
  shows "t = [Get KSecret name] \<and>
    (case r of None \<Rightarrow> rd_get (ev_secret E) h name = Inl NotFound
     | Some sec \<Rightarrow> rd_get (ev_secret E) h name = Inr sec \<and> owned_or_free (cx_lib c) u sec)"
  using assms
  by (auto simp: currentSecret_def get_secret_def bnd_ask ret_run fail_run owned_or_free_def prod_eq_iff
      bnd_ok_iff thn_ok_iff split: sum.splits option.splits if_splits)

text \<open>What a Secret held by another object's controller gets.\<close>

lemma currentSecret_foreign:
  assumes "rd_get (ev_secret E) h name = Inr sec" "secret_controller (cx_lib c) sec = Some ref" "or_uid ref \<noteq> u"
    "not_deleting (sec_meta sec)" "ev_write E (h @ [Get KSecret name]) (Delete KSecret (om_name (sec_meta sec))) = None"
  shows "currentSecret c u name E h =
    (Inl (WaitFor (belongs_to_previous name ref)), [Get KSecret name, Delete KSecret (om_name (sec_meta sec))])"
  using assms
  by (simp add: currentSecret_def get_secret_def bnd_ask thn_def bnd_assoc do_write_def ignore_not_found_def fail_run)

section \<open>Restores, in any order\<close>

text \<open>The laws of time.Parse and Format for the RFC 3339 layout: a formatted time parses to itself up to
  the second, and the empty string does not parse.\<close>

definition rfc3339_laws :: "lib \<Rightarrow> bool" where
  "rfc3339_laws L \<longleftrightarrow> (\<forall>t. parse_rfc3339 L (time_rfc3339 L t) = Some (truncate_second t)) \<and> parse_rfc3339 L '''' = None"

text \<open>The root password Secret under a list of restores (name, root password and completion time) that
  adopt their passwords one after another.\<close>

type_synonym adoption = "string \<times> string \<times> time"

definition adoption_ok :: "ctx \<Rightarrow> secret option \<Rightarrow> adoption \<Rightarrow> bool" where
  "adoption_ok c s r = (case r of (n, pw, t) \<Rightarrow> \<not> keeps_password (cx_lib c) s t)"

definition adopt :: "ctx \<Rightarrow> secret option \<Rightarrow> adoption \<Rightarrow> secret option" where
  "adopt c s r = (case r of (n, pw, t) \<Rightarrow> Some (adopted_secret c n pw t))"

definition adoptions :: "ctx \<Rightarrow> secret option \<Rightarrow> adoption list \<Rightarrow> secret option" where
  "adoptions c = guarded_run (adoption_ok c) (adopt c)"

text \<open>These are the writes of adoptRestoredRootPassword.\<close>

lemma adoptRestoredRootPassword_run:
  assumes "restoredRootPassword c b E h = (Inr pw, t)" "pw \<noteq> ''''"
    and "rd_get (ev_secret E) (h @ t) (rootSecretName (c_name c)) = (case s of None \<Rightarrow> Inl NotFound | Some sec \<Rightarrow> Inr sec)"
  shows "writes (snd (adoptRestoredRootPassword c rst b completed E h)) = writes t @
    (if adoption_ok c s (om_name (rs_meta rst), pw, completed)
     then [Apply (OSecret (the (adopt c s (om_name (rs_meta rst), pw, completed))))] else [])"
  unfolding adoptRestoredRootPassword_def bnd_run_Inr [where m = "restoredRootPassword c b", OF assms(1)]
  using assms(2,3)
  by (cases s) (simp_all add: get_secret_def bnd_ask do_write_def adoption_ok_def adopt_def ret_run
      ok_or_wrap_def fail_run split: option.split)

lemma truncate_second_mono: "s \<le> t \<Longrightarrow> truncate_second s \<le> truncate_second t"
proof -
  have "truncate_second t = second * ((t - time_zero) div second) + time_zero" for t
    by (simp add: truncate_second_def minus_mod_eq_mult_div [symmetric])
  moreover assume "s \<le> t"
  moreover have "0 < second" by (simp add: second_def)
  ultimately show ?thesis by (simp add: zdiv_mono1)
qed

lemma adopted_secret_facts:
  "stored_password (adopted_secret c n pw t) = pw"
  "rfc3339_laws (cx_lib c) \<Longrightarrow> restored_at (cx_lib c) (Some (adopted_secret c n pw t)) = Some (truncate_second t)"
  by (simp_all add: stored_password_def adopted_secret_def root_secret_def Let_def lookup_str_def
      restored_at_def rfc3339_laws_def annotationRootFromRestore_def annotationRootRestoredAt_def)

text \<open>The recorded time of a restore never goes back.\<close>

interpretation adoption_guard:
  guarded_update "adoption_ok c" "adopt c"
    "\<lambda>s s'. rfc3339_laws (cx_lib c) \<longrightarrow>
       (\<forall>a. restored_at (cx_lib c) s = Some a \<longrightarrow> (\<exists>b. restored_at (cx_lib c) s' = Some b \<and> a \<le> b))" for c
proof unfold_locales
  fix s r
  assume "adoption_ok c s r"
  moreover obtain n pw t where "r = (n, pw, t)" by (cases r)
  ultimately show "rfc3339_laws (cx_lib c) \<longrightarrow> (\<forall>a. restored_at (cx_lib c) s = Some a \<longrightarrow>
      (\<exists>b. restored_at (cx_lib c) (adopt c s r) = Some b \<and> a \<le> b))"
    by (auto simp: adopt_def adopted_secret_facts adoption_ok_def keeps_password_def)
qed (auto intro: order_trans)

text \<open>After some restores the Secret is the one of the latest of them.\<close>

definition latest_of :: "ctx \<Rightarrow> secret option \<Rightarrow> adoption list \<Rightarrow> bool" where
  "latest_of c s rs \<longleftrightarrow> (\<exists>n pw t. (n, pw, t) \<in> set rs \<and> s = Some (adopted_secret c n pw t) \<and>
     (\<forall>x \<in> set rs. truncate_second (snd (snd x)) \<le> truncate_second t))"

lemma latest_of_step:
  assumes laws: "rfc3339_laws (cx_lib c)" and "latest_of c s rs"
  shows "latest_of c (if adoption_ok c s r then adopt c s r else s) (rs @ [r])"
proof -
  from assms(2) obtain n pw t where s: "(n, pw, t) \<in> set rs" "s = Some (adopted_secret c n pw t)"
    "\<forall>x \<in> set rs. truncate_second (snd (snd x)) \<le> truncate_second t"
    unfolding latest_of_def by blast
  obtain n' pw' t' where r: "r = (n', pw', t')" by (cases r)
  have ok: "adoption_ok c s r \<longleftrightarrow> truncate_second t < truncate_second t'"
    using s(2) r laws by (simp add: adoption_ok_def keeps_password_def adopted_secret_facts)
  show ?thesis
  proof (cases "adoption_ok c s r")
    case True
    then have "truncate_second t < truncate_second t'" by (simp only: ok)
    then have "\<forall>x \<in> set (rs @ [r]). truncate_second (snd (snd x)) \<le> truncate_second t'"
      using s(3) r by (auto intro: order_trans)
    moreover have "(n', pw', t') \<in> set (rs @ [r])" by (simp add: r)
    moreover have "adopt c s r = Some (adopted_secret c n' pw' t')" by (simp add: r adopt_def)
    ultimately show ?thesis unfolding latest_of_def using True by auto
  next
    case False
    then have "truncate_second t' \<le> truncate_second t" by (simp only: ok not_less)
    then have "\<forall>x \<in> set (rs @ [r]). truncate_second (snd (snd x)) \<le> truncate_second t"
      using s(3) r by auto
    then show ?thesis unfolding latest_of_def using False s by auto
  qed
qed

lemma adoptions_latest:
  assumes "rfc3339_laws (cx_lib c)" "latest_of c s done"
  shows "latest_of c (adoptions c s rs) (done @ rs)"
  using assms(2)
proof (induction rs arbitrary: s "done")
  case Nil
  then show ?case by (simp add: adoptions_def)
next
  case (Cons r rs)
  from Cons.IH [OF latest_of_step [OF assms(1) Cons.prems]] show ?case
    by (simp add: adoptions_def)
qed

section \<open>Properties\<close>

text \<open>C37: ensureRootPassword generates the root password once. It either returns the password already
  stored in a Secret that is the Instance's own or nobody's, and writes nothing, or there is no
  usable password yet and it stores exactly the one it returns, 24 letters and digits.\<close>

theorem ensureRootPassword_once:
  assumes "random_law E" and "ensureRootPassword c E h = (Inr pw, t)"
  shows "let stored = rd_get (ev_secret E) h (rootSecretName (c_name c));
             usable = (\<lambda>sec. stored = Inr sec \<and> owned_or_free (cx_lib c) (om_uid (in_meta (cx_instance c))) sec) in
    (\<exists>sec. usable sec \<and> pw \<noteq> '''' \<and> stored_password sec = pw \<and> writes t = []) \<or>
    ((stored = Inl NotFound \<or> (\<exists>sec. usable sec \<and> stored_password sec = '''')) \<and>
      writes t = [Apply (OSecret (root_secret c pw))] \<and> length pw = 24 \<and> set pw \<subseteq> set password_charset)"
proof -
  from assms(2) obtain r t1 t2 where
    cur: "currentSecret c (om_uid (in_meta (cx_instance c))) (rootSecretName (c_name c)) E h = (Inr r, t1)" and
    t: "t = t1 @ t2" and
    rest: "(if r \<noteq> None \<and> stored_password (the r) \<noteq> '''' then ret (stored_password (the r))
       else
         bnd newRootPassword (\<lambda>password.
         bnd (do_write (Apply (OSecret (root_secret c password)))) (\<lambda>r.
         thn (ok_or_wrap ''creating root password secret'' r) (ret password)))) E (h @ t1) = (Inr pw, t2)"
    unfolding ensureRootPassword_def by (auto elim: bnd_InrE)
  note cur' = currentSecret_Inr [OF cur]
  show ?thesis
  proof (cases "r \<noteq> None \<and> stored_password (the r) \<noteq> ''''")
    case True
    with rest cur' t show ?thesis by (auto simp: ret_run)
  next
    case False
    with rest obtain t3 where g: "generatePassword 24 E (h @ t1) = (Inr pw, t3)" "writes t2 = writes t3 @ [Apply (OSecret (root_secret c pw))]"
      by (auto simp: bnd_Inr_iff thn_Inr_iff ret_run do_write_run ok_or_wrap_def fail_run newRootPassword_def
          rootPasswordLength_def split: option.splits)
    from generatePassword_run [OF assms(1) g(1)] g(2) False cur' t show ?thesis
      by (cases r) auto
  qed
qed

theorem ensureRootPassword_once_witness:
  "\<exists>t. ensureRootPassword sample_ctx (env_of (empty_store\<lparr>so_secret := [''db-tidb-root'' \<mapsto>
       (root_secret sample_ctx ''secret'')]\<rparr>)) [] = (Inr ''secret'', t) \<and> writes t = []"
proof -
  let ?s = "root_secret sample_ctx ''secret''"
  let ?E = "env_of (empty_store\<lparr>so_secret := [''db-tidb-root'' \<mapsto> ?s]\<rparr>)"
  have pw: "stored_password ?s = ''secret''" "om_owners (sec_meta ?s) = []"
    by (simp_all add: stored_password_def root_secret_def lookup_str_def c_object_meta_def bare_meta_def)
  have run: "ensureRootPassword sample_ctx ?E [] = (Inr ''secret'', snd (ensureRootPassword sample_ctx ?E []))"
    by (simp add: ensureRootPassword_def currentSecret_def rootSecretName_def pw io_eval)
  have "random_law (?E\<lparr>ev_random := \<lambda>h n. Inl NotFound\<rparr>)" by (simp add: random_law_def)
  moreover have "ensureRootPassword sample_ctx (?E\<lparr>ev_random := \<lambda>h n. Inl NotFound\<rparr>) [] =
      (Inr ''secret'', snd (ensureRootPassword sample_ctx ?E []))"
    by (simp add: ensureRootPassword_def currentSecret_def rootSecretName_def pw io_eval)
  ultimately have "writes (snd (ensureRootPassword sample_ctx ?E [])) = []"
    using ensureRootPassword_once [of "?E\<lparr>ev_random := \<lambda>h n. Inl NotFound\<rparr>" sample_ctx "[]"] pw
    by (auto simp: rootSecretName_def)
  with run show ?thesis by blast
qed

text \<open>C14: the latest restore wins. In whatever order restores that carry a root password reconcile, and
  however often, the root password Secret ends up with the password of the one that completed
  last (up to the second).\<close>

theorem latest_restore_wins:
  assumes "rfc3339_laws (cx_lib c)" and "restored_at (cx_lib c) s = None" and "rs \<noteq> []"
  shows "\<exists>(n, pw, t) \<in> set rs. \<exists>sec. adoptions c s rs = Some sec \<and> stored_password sec = pw \<and>
    (\<forall>x \<in> set rs. truncate_second (snd (snd x)) \<le> truncate_second t)"
proof -
  from assms(3) obtain n pw t rs' where rs: "rs = (n, pw, t) # rs'" by (cases rs) auto
  have "adoption_ok c s (n, pw, t)" using assms(2) by (simp add: adoption_ok_def keeps_password_def)
  then have step: "adoptions c s rs = adoptions c (Some (adopted_secret c n pw t)) rs'"
    by (simp add: rs adoptions_def adopt_def)
  have "latest_of c (Some (adopted_secret c n pw t)) [(n, pw, t)]" by (auto simp: latest_of_def)
  from adoptions_latest [OF assms(1) this, of rs'] have "latest_of c (adoptions c s rs) rs"
    by (simp add: rs step [unfolded rs])
  then obtain n' pw' t' where "(n', pw', t') \<in> set rs" "adoptions c s rs = Some (adopted_secret c n' pw' t')"
    "\<forall>x \<in> set rs. truncate_second (snd (snd x)) \<le> truncate_second t'"
    unfolding latest_of_def by blast
  then show ?thesis by (intro bexI [of _ "(n', pw', t')"]) (simp_all add: adopted_secret_facts)
qed

text \<open>A library whose layout writes a time in unary, for the witness.\<close>

definition clock_lib :: lib where
  "clock_lib = sample_lib
     \<lparr>time_rfc3339 := \<lambda>t. (if truncate_second t < 0 then CHR ''-'' else CHR ''+'') #
        replicate (nat \<bar>truncate_second t\<bar>) CHR ''1'',
      parse_rfc3339 := \<lambda>s. (case s of [] \<Rightarrow> None
        | x # xs \<Rightarrow> Some ((if x = CHR ''-'' then -1 else 1) * int (length xs)))\<rparr>"

lemma clock_laws: "rfc3339_laws clock_lib"
  by (simp add: rfc3339_laws_def clock_lib_def)

theorem latest_restore_wins_witness:
  "\<exists>sec. adoptions (sample_ctx\<lparr>cx_lib := clock_lib\<rparr>) None
     [(''r1'', ''new'', 2 * second), (''r2'', ''old'', second)] = Some sec \<and> stored_password sec = ''new''"
proof -
  let ?c = "sample_ctx\<lparr>cx_lib := clock_lib\<rparr>"
  have trunc: "truncate_second (k * second) = k * second" for k
  proof -
    have "k * second - time_zero = (k + 62135596800) * second" by (simp add: time_zero_def distrib_right)
    then show ?thesis by (simp add: truncate_second_def)
  qed
  from trunc [of 1] trunc [of 2] have t: "truncate_second second < truncate_second (2 * second)"
    by (simp add: second_def)
  have "rfc3339_laws (cx_lib ?c)" "restored_at (cx_lib ?c) None = None"
    using clock_laws by (simp_all add: restored_at_def rfc3339_laws_def)
  from latest_restore_wins [OF this, of "[(''r1'', ''new'', 2 * second), (''r2'', ''old'', second)]"] t
  show ?thesis by auto
qed

text \<open>A Backup's own copy of the root password has the name of the root password Secret of an Instance
  called like the Backup, so an Instance created under that name removes it.\<close>

lemma rootSecretName_backup: "rootSecretName n = backupRootSecretName n"
  by (simp add: rootSecretName_def backupRootSecretName_def)

theorem ensureRootPassword_removes_backup_secret:
  assumes "rd_get (ev_secret E) h (backupRootSecretName (c_name c)) = Inr sec"
    and "om_name (sec_meta sec) = backupRootSecretName (c_name c)" "not_deleting (sec_meta sec)"
    and "secret_controller (cx_lib c) sec = Some ref" "or_uid ref \<noteq> om_uid (in_meta (cx_instance c))"
    and "ev_write E (h @ [Get KSecret (backupRootSecretName (c_name c))]) (Delete KSecret (backupRootSecretName (c_name c))) = None"
  shows "writes (snd (ensureRootPassword c E h)) = [Delete KSecret (backupRootSecretName (c_name c))]"
proof -
  have "currentSecret c (om_uid (in_meta (cx_instance c))) (rootSecretName (c_name c)) E h =
      (Inl (WaitFor (belongs_to_previous (rootSecretName (c_name c)) ref)),
       [Get KSecret (rootSecretName (c_name c)), Delete KSecret (om_name (sec_meta sec))])"
    by (rule currentSecret_foreign) (use assms in \<open>simp_all add: rootSecretName_backup\<close>)
  then show ?thesis
    using assms(2) by (simp add: ensureRootPassword_def bnd_run_Inl rootSecretName_backup)
qed

end
