(* ===== verification/ServerSideApply.thy ===== *)
theory ServerSideApply
  imports Components Samples
begin

text \<open>
  The server-side apply of internal/provider/sync.go and backup_rbac.go: which configuration the
  provider claims for an object. The object's unstructured form comes from the Kubernetes
  converter and its Go value from package reflect, both parameters; the pruning of nulls and of
  empty structs is the provider's. A JSON map is an association list with unique keys.
\<close>

section \<open>Pruning\<close>

text \<open>strings.Split at a character.\<close>

fun split_on :: "char \<Rightarrow> string \<Rightarrow> string list" where
  "split_on x [] = [[]]"
| "split_on x (y # ys) =
     (if y = x then [] # split_on x ys
      else (case split_on x ys of [] \<Rightarrow> [[y]] | w # ws \<Rightarrow> (y # w) # ws))"

text \<open>jsonField: the key of a field in the unstructured form and whether it is tagged omitempty.\<close>

definition jsonField :: "go_field \<Rightarrow> string \<times> bool" where
  "jsonField f =
     (let name = takeWhile (\<lambda>x. x \<noteq> CHR '','') (gf_tag f);
          opts = tl (dropWhile (\<lambda>x. x \<noteq> CHR '','') (gf_tag f)) in
      (if name = '''' \<and> \<not> gf_anonymous f then gf_name f else name,
       ''omitempty'' \<in> set (split_on CHR '','' opts)))"

text \<open>isPlainStruct, of the field's static type: a struct that does not marshal itself.\<close>

fun isPlainStruct :: "goval \<Rightarrow> bool" where
  "isPlainStruct (GStruct custom fs) = (\<not> custom)"
| "isPlainStruct _ = False"

text \<open>m[k] = v for a key that is present, and delete(m, k).\<close>

definition json_put :: "string \<Rightarrow> json \<Rightarrow> (string \<times> json) list \<Rightarrow> (string \<times> json) list" where
  "json_put k v m = map (\<lambda>(k', v'). (k', if k' = k then v else v')) m"

definition json_delete :: "string \<Rightarrow> (string \<times> json) list \<Rightarrow> (string \<times> json) list" where
  "json_delete k m = filter (\<lambda>(k', v). k' \<noteq> k) m"

fun pruneNulls :: "json \<Rightarrow> json" and pruneNullEntries :: "(string \<times> json) list \<Rightarrow> (string \<times> json) list"
  and pruneNullItems :: "json list \<Rightarrow> json list" where
  "pruneNulls (JObj m) = JObj (pruneNullEntries m)"
| "pruneNulls (JArr xs) = JArr (pruneNullItems xs)"
| "pruneNulls v = v"
| "pruneNullEntries [] = []"
| "pruneNullEntries ((k, v) # m) =
     (if v = JNull then pruneNullEntries m else (k, pruneNulls v) # pruneNullEntries m)"
| "pruneNullItems [] = []"
| "pruneNullItems (v # vs) = pruneNulls v # pruneNullItems vs"

text \<open>pruneEmptyStructs walks the Go value and its unstructured form together; the form comes back as
  the walk leaves it.\<close>

fun pruneEmptyStructs :: "goval \<Rightarrow> json \<Rightarrow> json"
  and pruneStructFields :: "(go_field \<times> goval) list \<Rightarrow> (string \<times> json) list \<Rightarrow> (string \<times> json) list"
  and pruneMapValues :: "(string \<times> goval) list \<Rightarrow> (string \<times> json) list \<Rightarrow> (string \<times> json) list"
  and pruneItems :: "goval list \<Rightarrow> json list \<Rightarrow> json list" where
  "pruneEmptyStructs GInvalid raw = raw"
| "pruneEmptyStructs (GPtr None) raw = raw"
| "pruneEmptyStructs (GPtr (Some v)) raw = pruneEmptyStructs v raw"
| "pruneEmptyStructs (GOther custom) raw = raw"
| "pruneEmptyStructs (GStruct custom fs) raw =
     (if custom then raw else (case raw of JObj m \<Rightarrow> JObj (pruneStructFields fs m) | _ \<Rightarrow> raw))"
| "pruneEmptyStructs (GMap custom stringKeys kvs) raw =
     (if custom \<or> \<not> stringKeys then raw
      else (case raw of JObj m \<Rightarrow> JObj (pruneMapValues kvs m) | _ \<Rightarrow> raw))"
| "pruneEmptyStructs (GSeq custom vs) raw =
     (if custom then raw
      else (case raw of JArr xs \<Rightarrow> (if length vs = length xs then JArr (pruneItems vs xs) else raw) | _ \<Rightarrow> raw))"
| "pruneStructFields [] m = m"
| "pruneStructFields ((f, v) # fs) m =
     pruneStructFields fs
       (case jsonField f of (name, omitempty) \<Rightarrow>
          if name = ''-'' then m
          else if name = '''' then (case pruneEmptyStructs v (JObj m) of JObj m' \<Rightarrow> m' | _ \<Rightarrow> m)
          else (case map_of m name of
                  None \<Rightarrow> m
                | Some child \<Rightarrow>
                    (let child' = pruneEmptyStructs v child in
                     if child' = JObj [] \<and> omitempty \<and> isPlainStruct v then json_delete name m
                     else json_put name child' m)))"
| "pruneMapValues [] m = m"
| "pruneMapValues ((k, v) # kvs) m =
     pruneMapValues kvs
       (case map_of m k of None \<Rightarrow> m | Some child \<Rightarrow> json_put k (pruneEmptyStructs v child) m)"
| "pruneItems [] xs = xs"
| "pruneItems (v # vs) [] = []"
| "pruneItems (v # vs) (x # xs) = pruneEmptyStructs v x # pruneItems vs xs"

section \<open>Applying\<close>

text \<open>The applied configuration, without and with the pruning of empty structs.\<close>

definition apply_config :: "json \<Rightarrow> json" where
  "apply_config raw = pruneNulls (case raw of JObj m \<Rightarrow> JObj (json_delete ''status'' m) | _ \<Rightarrow> raw)"

definition owned_config :: "lib \<Rightarrow> obj \<Rightarrow> json \<Rightarrow> json" where
  "owned_config L x raw = pruneEmptyStructs (reflect_value L x) (apply_config raw)"

definition build_config :: "lib \<Rightarrow> obj \<Rightarrow> json io" where
  "build_config L x =
     (case gvk_for_object L x of
        Some e \<Rightarrow> fail (Wrapped ''resolve GVK for apply'' (Passed e))
      | None \<Rightarrow> or_wrap ''build apply configuration'' (to_unstructured L x))"

definition applyServerSide :: "ctx \<Rightarrow> obj \<Rightarrow> unit io" where
  "applyServerSide c x =
     bnd (build_config (cx_lib c) x) (\<lambda>raw.
     bnd (do_write (ServerSideApply x (apply_config raw))) ok_or_fail)"

definition applyOwnedByCluster :: "ctx \<Rightarrow> cluster \<Rightarrow> obj \<Rightarrow> unit io" where
  "applyOwnedByCluster c owner x =
     bnd (or_wrap ''set cluster owner'' (controller_reference (cx_lib c) (OCluster owner) x)) (\<lambda>x'.
     bnd (build_config (cx_lib c) x') (\<lambda>raw.
     bnd (do_write (ServerSideApply x' (owned_config (cx_lib c) x' raw))) ok_or_fail))"

section \<open>What pruning keeps\<close>

datatype step = Key string | Index nat

text \<open>The value at a path of keys and indices.\<close>

fun json_at :: "json \<Rightarrow> step list \<Rightarrow> json option" where
  "json_at v [] = Some v"
| "json_at (JObj m) (Key k # p) = (case map_of m k of None \<Rightarrow> None | Some v \<Rightarrow> json_at v p)"
| "json_at (JArr xs) (Index i # p) = (if i < length xs then json_at (xs ! i) p else None)"
| "json_at _ (_ # _) = None"

fun scalar :: "json \<Rightarrow> bool" where
  "scalar (JObj m) = False"
| "scalar (JArr xs) = False"
| "scalar v = True"

text \<open>Two forms agree when they hold the same scalars at the same paths.\<close>

definition same_scalars :: "json \<Rightarrow> json \<Rightarrow> bool" where
  "same_scalars a b \<longleftrightarrow> (\<forall>p v. scalar v \<longrightarrow> (json_at a p = Some v \<longleftrightarrow> json_at b p = Some v))"

lemma same_scalars_refl [simp]: "same_scalars a a"
  by (simp add: same_scalars_def)

lemma same_scalarsD: "same_scalars a b \<Longrightarrow> scalar v \<Longrightarrow> json_at a p = Some v \<longleftrightarrow> json_at b p = Some v"
  by (simp add: same_scalars_def)

lemma same_scalars_trans: "same_scalars a b \<Longrightarrow> same_scalars b c \<Longrightarrow> same_scalars a c"
  by (simp add: same_scalars_def)

lemma map_of_json_put:
  "map_of (json_put k v m) k' = (if k' = k then (case map_of m k of None \<Rightarrow> None | Some _ \<Rightarrow> Some v) else map_of m k')"
  by (induction m) (auto simp: json_put_def split: option.splits)

lemma map_of_json_delete: "map_of (json_delete k m) k' = (if k' = k then None else map_of m k')"
  by (induction m) (auto simp: json_delete_def)

lemma json_at_JObj:
  "scalar v \<Longrightarrow> json_at (JObj m) p = Some v \<longleftrightarrow>
     (\<exists>k q x. p = Key k # q \<and> map_of m k = Some x \<and> json_at x q = Some v)"
  by (cases p rule: json_at.cases [of "(JObj m, p)" for p, simplified]; auto split: option.splits)

lemma same_scalars_entries:
  assumes "\<And>k. case (map_of m k, map_of m' k) of
      (None, None) \<Rightarrow> True | (Some x, Some y) \<Rightarrow> same_scalars x y
    | (None, Some y) \<Rightarrow> same_scalars (JObj []) y | (Some x, None) \<Rightarrow> False"
  shows "same_scalars (JObj m) (JObj m')"
  unfolding same_scalars_def
proof (intro allI impI)
  fix p and v :: json
  assume v: "scalar v"
  have "(\<exists>x. map_of m k = Some x \<and> json_at x q = Some v) \<longleftrightarrow> (\<exists>y. map_of m' k = Some y \<and> json_at y q = Some v)" for k q
    using assms [of k] v json_at_JObj [of v "[]" q]
    by (auto simp: same_scalars_def split: option.splits)
  then show "json_at (JObj m) p = Some v \<longleftrightarrow> json_at (JObj m') p = Some v"
    unfolding json_at_JObj [OF v] by blast
qed

lemma same_scalars_put:
  "map_of m k = Some x \<Longrightarrow> same_scalars x' x \<Longrightarrow> same_scalars (JObj (json_put k x' m)) (JObj m)"
  by (rule same_scalars_entries) (auto simp: map_of_json_put split: option.splits)

lemma same_scalars_delete:
  "map_of m k = Some x \<Longrightarrow> same_scalars (JObj []) x \<Longrightarrow> same_scalars (JObj (json_delete k m)) (JObj m)"
  by (rule same_scalars_entries) (auto simp: map_of_json_delete split: option.splits)

lemma same_scalars_items:
  assumes "length xs = length ys" "\<And>i. i < length ys \<Longrightarrow> same_scalars (xs ! i) (ys ! i)"
  shows "same_scalars (JArr xs) (JArr ys)"
  unfolding same_scalars_def
proof (intro allI impI)
  fix p and v :: json
  assume "scalar v"
  then show "json_at (JArr xs) p = Some v \<longleftrightarrow> json_at (JArr ys) p = Some v"
    using assms by (cases p; cases "hd p") (auto simp: same_scalars_def)
qed

lemma prune_same_scalars:
  "same_scalars (pruneEmptyStructs v raw) raw"
  "same_scalars (JObj (pruneStructFields fs m)) (JObj m)"
  "same_scalars (JObj (pruneMapValues kvs m)) (JObj m)"
  "length vs = length xs \<Longrightarrow> length (pruneItems vs xs) = length xs \<and>
     (\<forall>i < length xs. same_scalars (pruneItems vs xs ! i) (xs ! i))"
proof (induction v raw and fs m and kvs m and vs xs
    rule: pruneEmptyStructs_pruneStructFields_pruneMapValues_pruneItems.induct)
  case (7 custom vs raw)
  then show ?case by (auto intro: same_scalars_items split: json.splits)
next
  case (9 f v fs m)
  let ?m = "case jsonField f of (name, omitempty) \<Rightarrow>
          if name = ''-'' then m
          else if name = '''' then (case pruneEmptyStructs v (JObj m) of JObj m' \<Rightarrow> m' | _ \<Rightarrow> m)
          else (case map_of m name of
                  None \<Rightarrow> m
                | Some child \<Rightarrow>
                    (let child' = pruneEmptyStructs v child in
                     if child' = JObj [] \<and> omitempty \<and> isPlainStruct v then json_delete name m
                     else json_put name child' m))"
  obtain name omitempty where f: "jsonField f = (name, omitempty)" by fastforce
  consider "name = ''-''" | "name = ''''" | "name \<noteq> ''-''" "name \<noteq> ''''" by blast
  then have "same_scalars (JObj ?m) (JObj m)"
  proof cases
    case 2
    then show ?thesis using 9(1) [OF f [symmetric]] f by (auto split: json.splits)
  next
    case 3
    show ?thesis
    proof (cases "map_of m name")
      case (Some child)
      then have "same_scalars (pruneEmptyStructs v child) child"
        using 9(2) [OF f [symmetric]] 3 by simp
      then show ?thesis
        using Some f 3 same_scalars_put [OF Some] same_scalars_delete [OF Some] by (auto simp: Let_def)
    next
      case None
      with f 3 show ?thesis by simp
    qed
  qed (use f in simp)
  moreover have "same_scalars (JObj (pruneStructFields fs ?m)) (JObj ?m)" by (rule 9(3))
  ultimately show ?case by (auto intro: same_scalars_trans)
next
  case (11 k v kvs m)
  let ?m = "case map_of m k of None \<Rightarrow> m | Some child \<Rightarrow> json_put k (pruneEmptyStructs v child) m"
  have "same_scalars (JObj ?m) (JObj m)"
    using 11(1) by (auto intro: same_scalars_put split: option.splits)
  moreover have "same_scalars (JObj (pruneMapValues kvs ?m)) (JObj ?m)" by (rule 11(2))
  ultimately show ?case by (auto intro: same_scalars_trans)
next
  case (14 v vs x xs)
  then show ?case by (auto simp: nth_Cons split: nat.splits)
qed (auto split: json.splits)

text \<open>Every map has unique keys.\<close>

fun json_ok :: "json \<Rightarrow> bool" where
  "json_ok (JObj m) = (distinct (map fst m) \<and> (\<forall>x \<in> set m. json_ok (snd x)))"
| "json_ok (JArr xs) = (\<forall>x \<in> set xs. json_ok x)"
| "json_ok _ = True"

lemma pruneNullEntries_keys: "(k, v) \<in> set (pruneNullEntries m) \<Longrightarrow> k \<in> fst ` set m"
  by (induction m) (auto split: if_splits)

lemma map_of_pruneNullEntries:
  "distinct (map fst m) \<Longrightarrow> map_of (pruneNullEntries m) k =
     (case map_of m k of None \<Rightarrow> None | Some v \<Rightarrow> (if v = JNull then None else Some (pruneNulls v)))"
proof (induction m)
  case (Cons e m)
  obtain k' v where e: "e = (k', v)" by fastforce
  have "k' \<notin> fst ` set (pruneNullEntries m)" using Cons.prems e by (auto dest: pruneNullEntries_keys)
  then have "map_of (pruneNullEntries m) k' = None" by (simp add: map_of_eq_None_iff)
  with Cons e show ?case by auto
qed simp

lemma pruneNullItems_map: "pruneNullItems xs = map pruneNulls xs"
  by (induction xs) simp_all

text \<open>A scalar other than null is kept, and no map entry is null any more.\<close>

lemma json_at_pruneNulls:
  assumes "json_ok a"
  shows "scalar v \<Longrightarrow> v \<noteq> JNull \<Longrightarrow> json_at (pruneNulls a) p = Some v \<longleftrightarrow> json_at a p = Some v"
    and "json_at (pruneNulls a) (q @ [Key k]) \<noteq> Some JNull"
proof -
  have "(scalar v \<longrightarrow> v \<noteq> JNull \<longrightarrow> (json_at (pruneNulls a) p = Some v \<longleftrightarrow> json_at a p = Some v)) \<and>
      (\<forall>q k. p = q @ [Key k] \<longrightarrow> json_at (pruneNulls a) p \<noteq> Some JNull)" for p
    using assms
  proof (induction p arbitrary: a)
    case Nil
    then show ?case by (cases a) auto
  next
    case (Cons s p)
    show ?case
    proof (cases a)
      case (JObj m)
      show ?thesis
      proof (cases s)
        case (Key k)
        have "json_ok x" if "map_of m k = Some x" for x
          using that Cons.prems JObj by (auto dest!: map_of_SomeD)
        moreover have "pruneNulls x \<noteq> JNull" if "x \<noteq> JNull" for x using that by (cases x) auto
        moreover have "json_at JNull p = Some v \<Longrightarrow> v = JNull" for p v by (cases p) auto
        ultimately show ?thesis
          using Cons.IH Cons.prems JObj Key
          by (auto simp: map_of_pruneNullEntries Cons_eq_append_conv split: option.splits)
      qed (use JObj in \<open>auto simp: Cons_eq_append_conv\<close>)
    next
      case (JArr xs)
      then show ?thesis
        using Cons.IH Cons.prems by (cases s) (auto simp: pruneNullItems_map Cons_eq_append_conv)
    qed (auto simp: Cons_eq_append_conv)
  qed
  then show "scalar v \<Longrightarrow> v \<noteq> JNull \<Longrightarrow> json_at (pruneNulls a) p = Some v \<longleftrightarrow> json_at a p = Some v"
    and "json_at (pruneNulls a) (q @ [Key k]) \<noteq> Some JNull" by blast+
qed

section \<open>Properties\<close>

text \<open>C36: the configuration applyOwnedByCluster claims holds exactly the values the object sets: outside
  status every scalar other than null of the object is in it, unchanged and at its place; it has
  no other scalar; and no field is claimed as null.\<close>

theorem owned_config_spec:
  assumes "json_ok (JObj m)" and "scalar v" "v \<noteq> JNull"
  shows "(json_at (owned_config L x (JObj m)) p = Some v \<longleftrightarrow>
      json_at (JObj m) p = Some v \<and> hd p \<noteq> Key ''status'') \<and>
    json_at (owned_config L x (JObj m)) (q @ [Key k]) \<noteq> Some JNull"
proof -
  let ?m = "JObj (json_delete ''status'' m)"
  have ok: "json_ok ?m"
    using assms(1) by (auto simp: json_delete_def intro: distinct_map_filter)
  have cfg: "apply_config (JObj m) = pruneNulls ?m" by (simp add: apply_config_def)
  have "same_scalars (owned_config L x (JObj m)) (pruneNulls ?m)"
    unfolding owned_config_def cfg by (rule prune_same_scalars(1))
  note pruned = same_scalarsD [OF this]
  have rest: "json_at ?m p = Some v \<longleftrightarrow> json_at (JObj m) p = Some v \<and> hd p \<noteq> Key ''status''"
  proof (cases p)
    case Nil
    with assms(2) show ?thesis by auto
  next
    case (Cons st r)
    then show ?thesis by (cases st) (simp_all add: map_of_json_delete)
  qed
  show ?thesis
  proof
    show "json_at (owned_config L x (JObj m)) p = Some v \<longleftrightarrow>
        json_at (JObj m) p = Some v \<and> hd p \<noteq> Key ''status''"
      unfolding pruned [OF assms(2)] json_at_pruneNulls(1) [OF ok assms(2,3)] by (rule rest)
    show "json_at (owned_config L x (JObj m)) (q @ [Key k]) \<noteq> Some JNull"
      using pruned [of JNull "q @ [Key k]"] json_at_pruneNulls(2) [OF ok, of q k]
      by (simp only: scalar.simps simp_thms not_False_eq_True)
  qed
qed

theorem owned_config_spec_witness:
  "json_at (owned_config sample_lib (OCluster sample_cluster)
     (JObj [(''spec'', JObj [(''paused'', JNull), (''replicas'', JNum 3)]), (''status'', JObj [(''replicas'', JNum 2)])]))
     [Key ''spec'', Key ''replicas''] = Some (JNum 3)"
  using owned_config_spec [of "[(''spec'', JObj [(''paused'', JNull), (''replicas'', JNum 3)]),
      (''status'', JObj [(''replicas'', JNum 2)])]" "JNum 3" sample_lib "OCluster sample_cluster"
      "[Key ''spec'', Key ''replicas'']" "[]" "[]"]
  by simp

end
