(* ===== verification/Authority.thy ===== *)
theory Authority
  imports TlsSettings
begin

text \<open>
  The certificate authority of internal/provider/tls.go: the CA is generated once, kept as PEM blocks in a
  Secret and parsed back from it by every later pass, and it signs every certificate. Key generation and
  signing (crypto/rsa, crypto/x509's CreateCertificate) are answers of the environment; parsing, encoding
  and PEM are pure functions of the library.
\<close>

section \<open>PEM and serial numbers\<close>

definition tlsRSABits :: nat where "tlsRSABits = 2048"

text \<open>A big integer below 2 to the power of 128.\<close>

definition randomSerial :: "(api_err + nat) io" where
  "randomSerial = ask (RandomInt (push_bit 128 1)) (\<lambda>E h. ev_random E h (push_bit 128 1))"

definition pemEncode :: "lib \<Rightarrow> string \<Rightarrow> string \<Rightarrow> string" where
  "pemEncode L blockType der = pem_encode L blockType der"

section \<open>The authority\<close>

record certAuthority =
  ca_cert :: x509_cert
  ca_certPEM :: string
  ca_key :: rsa_key

definition keyPEM :: "lib \<Rightarrow> certAuthority \<Rightarrow> string" where
  "keyPEM L ca = pemEncode L ''RSA PRIVATE KEY'' (pkcs1_marshal L (ca_key ca))"

definition ca_template :: "string \<Rightarrow> nat \<Rightarrow> time \<Rightarrow> cert_template" where
  "ca_template i serial now =
     \<lparr>xt_serial = serial, xt_common_name = i @ '' TiDB CA'', xt_organization = [tlsOrg],
      xt_not_before = now + (- hour), xt_not_after = now + tlsCertValidity,
      xt_usage = [CertSign, CRLSign, DigitalSignature], xt_ext_usage = [], xt_constraints = True, xt_is_ca = True,
      xt_dns = [], xt_ips = []\<rparr>"

definition generate_key :: "(api_err + rsa_key) io" where
  "generate_key = ask (GenerateKey tlsRSABits) (\<lambda>E h. ev_gen_key E h tlsRSABits)"

definition sign :: "cert_template \<Rightarrow> x509_cert option \<Rightarrow> string \<Rightarrow> rsa_key \<Rightarrow> (api_err + string) io" where
  "sign tmpl parent pub key = ask (SignCert tmpl) (\<lambda>E h. ev_sign E h tmpl parent pub key)"

definition read_clock :: "time io" where
  "read_clock = ask Now (\<lambda>E h. ev_now E h)"

definition newCertAuthority :: "lib \<Rightarrow> string \<Rightarrow> certAuthority io" where
  "newCertAuthority L i =
     bnd generate_key (\<lambda>r. bnd (or_fail r) (\<lambda>key.
     bnd randomSerial (\<lambda>r. bnd (or_fail r) (\<lambda>serial.
     bnd read_clock (\<lambda>now.
     bnd (sign (ca_template i serial now) None (rsa_public L key) key) (\<lambda>r. bnd (or_fail r) (\<lambda>der.
       case x509_parse L der of
         Inl e \<Rightarrow> fail (Message e)
       | Inr cert \<Rightarrow> ret \<lparr>ca_cert = cert, ca_certPEM = pemEncode L ''CERTIFICATE'' der, ca_key = key\<rparr>)))))))"

definition parseCertAuthority :: "lib \<Rightarrow> string \<Rightarrow> string \<Rightarrow> err + certAuthority" where
  "parseCertAuthority L certPEM key_pem =
     (case pem_decode L certPEM of
        None \<Rightarrow> Inl (Message ''no PEM certificate'')
      | Some certBlock \<Rightarrow>
          (case x509_parse L certBlock of
             Inl e \<Rightarrow> Inl (Wrapped ''parse certificate'' (Message e))
           | Inr cert \<Rightarrow>
               (case pem_decode L key_pem of
                  None \<Rightarrow> Inl (Message ''no PEM private key'')
                | Some keyBlock \<Rightarrow>
                    (case pkcs1_parse L keyBlock of
                       Inl e \<Rightarrow> Inl (Wrapped ''parse private key'' (Message e))
                     | Inr key \<Rightarrow> Inr \<lparr>ca_cert = cert, ca_certPEM = certPEM, ca_key = key\<rparr>))))"

definition leaf_template :: "certAuthority \<Rightarrow> leafCert \<Rightarrow> nat \<Rightarrow> time \<Rightarrow> cert_template" where
  "leaf_template ca leaf serial now =
     \<lparr>xt_serial = serial, xt_common_name = lf_commonName leaf, xt_organization = [tlsOrg],
      xt_not_before = now + (- hour), xt_not_after = xc_not_after (ca_cert ca),
      xt_usage = [DigitalSignature, KeyEncipherment], xt_ext_usage = lf_usages leaf, xt_constraints = False, xt_is_ca = False,
      xt_dns = lf_dnsNames leaf,
      xt_ips = (if lf_dnsNames leaf \<noteq> [] then [''127.0.0.1'', ''::1''] else [])\<rparr>"

text \<open>The certificate and the key of a leaf, as PEM.\<close>

definition issue :: "lib \<Rightarrow> certAuthority \<Rightarrow> leafCert \<Rightarrow> (string \<times> string) io" where
  "issue L ca leaf =
     bnd generate_key (\<lambda>r. bnd (or_fail r) (\<lambda>key.
     bnd randomSerial (\<lambda>r. bnd (or_fail r) (\<lambda>serial.
     bnd read_clock (\<lambda>now.
     bnd (sign (leaf_template ca leaf serial now) (Some (ca_cert ca)) (rsa_public L key) (ca_key ca)) (\<lambda>r.
     bnd (or_fail r) (\<lambda>der.
     ret (pemEncode L ''CERTIFICATE'' der, pemEncode L ''RSA PRIVATE KEY'' (pkcs1_marshal L key)))))))))"

section \<open>What is documented of the encodings\<close>

text \<open>encoding/pem decodes the block it encoded, crypto/x509 parses the key it marshalled.\<close>

definition pem_laws :: "lib \<Rightarrow> bool" where
  "pem_laws L \<longleftrightarrow> (\<forall>ty b. pem_decode L (pem_encode L ty b) = Some b) \<and>
     (\<forall>k. pkcs1_parse L (pkcs1_marshal L k) = Inr k)"

lemma sample_pem_laws: "pem_laws sample_lib"
  by (simp add: pem_laws_def)

section \<open>Facts\<close>

text \<open>An authority that can be kept: its PEM certificate is the certificate.\<close>

definition storable :: "lib \<Rightarrow> certAuthority \<Rightarrow> bool" where
  "storable L ca \<longleftrightarrow> (\<exists>der. pem_decode L (ca_certPEM ca) = Some der \<and> x509_parse L der = Inr (ca_cert ca))"

lemma parse_storable: "parseCertAuthority L p k = Inr ca \<Longrightarrow> storable L ca \<and> ca_certPEM ca = p"
  by (auto simp: parseCertAuthority_def storable_def split: option.splits sum.splits)

lemma parse_keyPEM:
  "pem_laws L \<Longrightarrow> storable L ca \<Longrightarrow> parseCertAuthority L (ca_certPEM ca) (keyPEM L ca) = Inr ca"
  by (auto simp: parseCertAuthority_def storable_def keyPEM_def pemEncode_def pem_laws_def)

lemma newCertAuthority_Inr:
  assumes "newCertAuthority L i E h = (Inr ca, t)"
  obtains key serial h1 h2 h3 h4 der where
    "ev_gen_key E h1 tlsRSABits = Inr key" "ev_random E h2 (2 ^ 128) = Inr serial"
    "ev_sign E h4 (ca_template i serial (ev_now E h3)) None (rsa_public L key) key = Inr der"
    "x509_parse L der = Inr (ca_cert ca)" "ca_certPEM ca = pemEncode L ''CERTIFICATE'' der" "ca_key ca = key"
  using assms
  by (auto simp: newCertAuthority_def generate_key_def randomSerial_def read_clock_def sign_def io_Inr push_bit_of_1
      split: sum.splits)

lemma newCertAuthority_storable:
  "newCertAuthority L i E h = (Inr ca, t) \<Longrightarrow> pem_laws L \<Longrightarrow> storable L ca"
  by (elim newCertAuthority_Inr) (simp add: storable_def pemEncode_def pem_laws_def)

lemma issue_Inr:
  assumes "issue L ca leaf E h = (Inr (cert, k), t)"
  obtains key serial h1 h2 h3 h4 der where
    "ev_gen_key E h1 tlsRSABits = Inr key" "ev_random E h2 (2 ^ 128) = Inr serial"
    "ev_sign E h4 (leaf_template ca leaf serial (ev_now E h3)) (Some (ca_cert ca)) (rsa_public L key) (ca_key ca) = Inr der"
    "cert = pemEncode L ''CERTIFICATE'' der" "k = pemEncode L ''RSA PRIVATE KEY'' (pkcs1_marshal L key)"
  using assms
  by (auto simp: issue_def generate_key_def randomSerial_def read_clock_def sign_def io_Inr push_bit_of_1
      split: sum.splits)

lemma authority_calls [calls_intro]:
  "P (GenerateKey tlsRSABits) \<Longrightarrow> P (RandomInt (push_bit 128 1)) \<Longrightarrow> P Now \<Longrightarrow> (\<And>tmpl. P (SignCert tmpl)) \<Longrightarrow>
   calls_in P (newCertAuthority L i)"
  "P (GenerateKey tlsRSABits) \<Longrightarrow> P (RandomInt (push_bit 128 1)) \<Longrightarrow> P Now \<Longrightarrow> (\<And>tmpl. P (SignCert tmpl)) \<Longrightarrow>
   calls_in P (issue L ca leaf)"
  unfolding newCertAuthority_def issue_def generate_key_def randomSerial_def read_clock_def sign_def
  by (intro calls_intro; assumption?)+

section \<open>Properties\<close>

text \<open>C18: a CA survives being kept in its Secret. The authority a pass generated, written as the PEM blocks of
  the CA Secret, is read back by every later pass as the same authority: the same certificate, the same
  PEM and the same key, so what later passes sign verifies against the ca.crt of earlier ones.\<close>

theorem parseCertAuthority_inverts:
  assumes "newCertAuthority L i E h = (Inr ca, t)" "pem_laws L"
  shows "parseCertAuthority L (ca_certPEM ca) (keyPEM L ca) = Inr ca"
  using parse_keyPEM [OF assms(2) newCertAuthority_storable [OF assms]] .

theorem parseCertAuthority_inverts_witness:
  "\<exists>ca. parseCertAuthority sample_lib (ca_certPEM ca) (keyPEM sample_lib ca) = Inr ca \<and> ca_certPEM ca = ''-db TiDB CA''"
proof -
  let ?ca = "\<lparr>ca_cert = sample_cert ''db TiDB CA'', ca_certPEM = ''-db TiDB CA'', ca_key = ''key''\<rparr>"
  obtain t where "newCertAuthority sample_lib ''db'' (env_of empty_store) [] = (Inr ?ca, t)"
    by (simp add: newCertAuthority_def generate_key_def randomSerial_def read_clock_def sign_def io_eval ca_template_def
        pemEncode_def)
  from parseCertAuthority_inverts [OF this sample_pem_laws] show ?thesis by (intro exI [of _ ?ca]) simp
qed

end
