(* ===== verification/Replay.thy ===== *)
theory Replay
  imports Samples
begin

text \<open>
  What an operation leaves behind. \<open>upd\<close> is what one call does to a state that the operation does not
  see (the Secrets, the component groups, the objects of a cluster as the API server keeps them); a run is
  replayed on that state call by call. \<open>always E upd I Pre m Post\<close>: from every state that
  satisfies \<open>Pre\<close> and the invariant \<open>I\<close>, the state satisfies \<open>I\<close> after every call of \<open>m\<close>,
  so also when the provider is stopped half way, and \<open>Post\<close> after a run that succeeds.
\<close>

section \<open>Calls of a sequence\<close>

lemma called_first: "k \<in> set (snd (m E h)) \<Longrightarrow> k \<in> set (snd (bnd m f E h))"
  by (cases "m E h"; cases "fst (m E h)") (auto simp: bnd_run_Inl bnd_run_Inr)

lemma called_then:
  "fst (m E h) = Inr x \<Longrightarrow> k \<in> set (snd (f x E (h @ snd (m E h)))) \<Longrightarrow> k \<in> set (snd (bnd m f E h))"
  by (cases "m E h") (auto simp: bnd_run_Inr)

lemma fst_bnd: "fst (m E h) = Inr x \<Longrightarrow> fst (bnd m f E h) = fst (f x E (h @ snd (m E h)))"
  by (cases "m E h") (simp add: bnd_run_Inr)

section \<open>Replaying a run\<close>

definition always ::
  "env \<Rightarrow> (call \<Rightarrow> 's \<Rightarrow> 's) \<Rightarrow> ('s \<Rightarrow> bool) \<Rightarrow> ('s \<Rightarrow> bool) \<Rightarrow> 'a io \<Rightarrow> ('a \<Rightarrow> 's \<Rightarrow> bool) \<Rightarrow> bool" where
  "always E upd I Pre m Post \<longleftrightarrow> (\<forall>h s r t. Pre s \<and> I s \<and> m E h = (r, t) \<longrightarrow>
     (\<forall>p. prefix p t \<longrightarrow> I (fold upd p s)) \<and> (\<forall>x. r = Inr x \<longrightarrow> Post x (fold upd t s)))"

lemma alwaysI:
  "(\<And>h s r t p. Pre s \<Longrightarrow> I s \<Longrightarrow> m E h = (r, t) \<Longrightarrow> prefix p t \<Longrightarrow> I (fold upd p s)) \<Longrightarrow>
   (\<And>h s x t. Pre s \<Longrightarrow> I s \<Longrightarrow> m E h = (Inr x, t) \<Longrightarrow> Post x (fold upd t s)) \<Longrightarrow> always E upd I Pre m Post"
  unfolding always_def by blast

lemma always_stopD:
  "always E upd I Pre m Post \<Longrightarrow> Pre s \<Longrightarrow> I s \<Longrightarrow> m E h = (r, t) \<Longrightarrow> prefix p t \<Longrightarrow> I (fold upd p s)"
  unfolding always_def by blast

lemma always_doneD:
  "always E upd I Pre m Post \<Longrightarrow> Pre s \<Longrightarrow> I s \<Longrightarrow> m E h = (Inr x, t) \<Longrightarrow> Post x (fold upd t s)"
  unfolding always_def by blast

lemma always_weaken:
  "always E upd I Pre m Post \<Longrightarrow> (\<And>s. Pre' s \<Longrightarrow> I s \<Longrightarrow> Pre s) \<Longrightarrow> (\<And>x s. Post x s \<Longrightarrow> I s \<Longrightarrow> Post' x s) \<Longrightarrow>
   always E upd I Pre' m Post'"
  unfolding always_def by (metis prefix_order.refl)

lemma always_ret [always_intro]: "(\<And>s. Pre s \<Longrightarrow> I s \<Longrightarrow> Post x s) \<Longrightarrow> always E upd I Pre (ret x) Post"
  by (simp add: always_def ret_def)

lemma always_fail [always_intro]: "always E upd I Pre (fail e) Post"
  by (simp add: always_def fail_def)

lemma always_ask:
  "(\<And>h s. Pre s \<Longrightarrow> I s \<Longrightarrow> I (upd k s) \<and> Post (f E h) (upd k s)) \<Longrightarrow> always E upd I Pre (ask k f) Post"
  by (auto simp: always_def ask_def prefix_Cons)

lemma always_do_write:
  "(\<And>h s. Pre s \<Longrightarrow> I s \<Longrightarrow> I (upd k s) \<and> Post (ev_write E h k) (upd k s)) \<Longrightarrow> always E upd I Pre (do_write k) Post"
  unfolding do_write_def by (rule always_ask)

lemma always_bnd:
  assumes m: "always E upd I Pre m Mid" and f: "\<And>x. always E upd I (Mid x) (f x) Post"
  shows "always E upd I Pre (bnd m f) Post"
proof (rule alwaysI)
  fix h s r t p
  assume s: "Pre s" "I s" and run: "bnd m f E h = (r, t)" and p: "prefix p t"
  obtain r1 t1 where r1: "m E h = (r1, t1)" by fastforce
  show "I (fold upd p s)"
  proof (cases "prefix p t1")
    case True
    with m s r1 show ?thesis by (rule always_stopD)
  next
    case False
    then obtain x where x: "r1 = Inr x" using run p r1 by (cases r1) (auto simp: bnd_run_Inl)
    obtain r2 t2 where r2: "f x E (h @ t1) = (r2, t2)" by fastforce
    with run r1 x have "t = t1 @ t2" by (simp add: bnd_run_Inr)
    with p False obtain q where q: "p = t1 @ q" "prefix q t2" by (auto simp: prefix_append)
    have "Mid x (fold upd t1 s)" "I (fold upd t1 s)"
      using always_doneD [OF m s] always_stopD [OF m s r1] r1 x by auto
    with always_stopD [OF f this r2 q(2)] q(1) show ?thesis by simp
  qed
next
  fix h s x t
  assume s: "Pre s" "I s" and run: "bnd m f E h = (Inr x, t)"
  from run obtain y t1 t2 where r: "m E h = (Inr y, t1)" "f y E (h @ t1) = (Inr x, t2)" "t = t1 @ t2"
    by (rule bnd_InrE)
  have "Mid y (fold upd t1 s)" "I (fold upd t1 s)"
    using always_doneD [OF m s r(1)] always_stopD [OF m s r(1) prefix_order.refl] .
  with always_doneD [OF f this r(2)] r(3) show "Post x (fold upd t s)" by simp
qed

lemma always_bnd_value:
  assumes "always E upd I Pre m (\<lambda>x s. Mid s \<and> R x)" "\<And>x. R x \<Longrightarrow> always E upd I Mid (f x) Post"
  shows "always E upd I Pre (bnd m f) Post"
proof (rule always_bnd [OF assms(1)])
  show "always E upd I (\<lambda>s. Mid s \<and> R x) (f x) Post" for x
    using assms(2) [of x] unfolding always_def by blast
qed

lemma always_thn:
  "always E upd I Pre m (\<lambda>_. Mid) \<Longrightarrow> always E upd I Mid m' Post \<Longrightarrow> always E upd I Pre (thn m m') Post"
  unfolding thn_def by (rule always_bnd)

lemma always_if [always_intro]:
  "(b \<Longrightarrow> always E upd I Pre m Post) \<Longrightarrow> (\<not> b \<Longrightarrow> always E upd I Pre m' Post) \<Longrightarrow>
   always E upd I Pre (if b then m else m') Post"
  by simp

lemma always_option [always_intro]:
  "(r = None \<Longrightarrow> always E upd I Pre m Post) \<Longrightarrow> (\<And>x. r = Some x \<Longrightarrow> always E upd I Pre (f x) Post) \<Longrightarrow>
   always E upd I Pre (case r of None \<Rightarrow> m | Some x \<Rightarrow> f x) Post"
  by (cases r) simp_all

lemma always_sum [always_intro]:
  "(\<And>x. r = Inl x \<Longrightarrow> always E upd I Pre (f x) Post) \<Longrightarrow> (\<And>y. r = Inr y \<Longrightarrow> always E upd I Pre (g y) Post) \<Longrightarrow>
   always E upd I Pre (case r of Inl x \<Rightarrow> f x | Inr y \<Rightarrow> g y) Post"
  by (cases r) simp_all

lemma always_bnd_ask [always_intro]:
  assumes "\<And>s. upd k s = s" "\<And>h. always E upd I Pre (g (f E h)) Post"
  shows "always E upd I Pre (bnd (ask k f) g) Post"
proof (rule always_bnd)
  show "always E upd I Pre (ask k f) (\<lambda>x s. Pre s \<and> (\<exists>h. x = f E h))"
    using assms(1) by (intro always_ask) auto
  show "always E upd I (\<lambda>s. Pre s \<and> (\<exists>h. x = f E h)) (g x) Post" for x
    using assms(2) unfolding always_def by blast
qed

lemma always_bnd_or_fail [always_intro]:
  "(\<And>x. r = Inr x \<Longrightarrow> always E upd I Pre (g x) Post) \<Longrightarrow> always E upd I Pre (bnd (or_fail r) g) Post"
  by (cases r) (simp_all add: always_fail)

lemma always_bnd_or_wrap [always_intro]:
  "(\<And>x. r = Inr x \<Longrightarrow> always E upd I Pre (g x) Post) \<Longrightarrow> always E upd I Pre (bnd (or_wrap w r) g) Post"
  by (cases r) (simp_all add: always_fail)

lemma always_or_fail [always_intro]:
  "(\<And>x s. r = Inr x \<Longrightarrow> Pre s \<Longrightarrow> I s \<Longrightarrow> Post x s) \<Longrightarrow> always E upd I Pre (or_fail r) Post"
  by (cases r) (auto intro: always_intro)

lemma always_ok_or_fail [always_intro]:
  "(\<And>s. Pre s \<Longrightarrow> I s \<Longrightarrow> r = None \<Longrightarrow> Post () s) \<Longrightarrow> always E upd I Pre (ok_or_fail r) Post"
  by (cases r) (auto intro: always_intro)

lemma always_ok_or_wrap [always_intro]:
  "(\<And>s. Pre s \<Longrightarrow> I s \<Longrightarrow> r = None \<Longrightarrow> Post () s) \<Longrightarrow> always E upd I Pre (ok_or_wrap w r) Post"
  by (cases r) (auto intro: always_intro)

lemma always_err_or_ok [always_intro]:
  "(\<And>s. Pre s \<Longrightarrow> I s \<Longrightarrow> r = None \<Longrightarrow> Post () s) \<Longrightarrow> always E upd I Pre (err_or_ok r) Post"
  by (cases r) (auto intro: always_intro)

lemma always_wrapping [always_intro]: "always E upd I Pre m Post \<Longrightarrow> always E upd I Pre (wrapping w m) Post"
  unfolding always_def wrapping_def by (force split: prod.splits sum.splits)

lemma always_each:
  "(\<And>x. x \<in> set xs \<Longrightarrow> always E upd I J (f x) (\<lambda>_. J)) \<Longrightarrow> always E upd I J (each f xs) (\<lambda>_. J)"
  by (induction xs) (auto intro: always_ret always_thn)

text \<open>An operation whose calls do not concern the state.\<close>

lemma fold_idle: "(\<And>k. k \<in> set t \<Longrightarrow> upd k = id) \<Longrightarrow> fold upd t s = s"
  by (induction t) auto

lemma always_idle:
  assumes "runs E (\<lambda>k. upd k = id) R m"
  shows "always E upd I Pre m (\<lambda>x s. Pre s \<and> R x)"
proof -
  have "fold upd p s = s" if "m E h = (r, t)" "prefix p t" for h r t p s
    using that runs_callD [OF assms, of _ h] set_mono_prefix [OF that(2)] by (auto intro!: fold_idle)
  then show ?thesis
    using runs_valueD [OF assms] by (intro alwaysI) (metis, metis prefix_order.refl)
qed

lemma always_idle_calls: "calls_in (\<lambda>k. upd k = id) m \<Longrightarrow> always E upd I Pre m (\<lambda>_. Pre)"
  by (rule always_weaken [OF always_idle [OF runs_calls]]) auto

text \<open>A run that succeeds with a known value and a known effect.\<close>

definition ends_in :: "env \<Rightarrow> (call \<Rightarrow> 's \<Rightarrow> 's) \<Rightarrow> 's \<Rightarrow> 'a io \<Rightarrow> 'a \<Rightarrow> 's \<Rightarrow> bool" where
  "ends_in E upd s m x s' \<longleftrightarrow> (\<forall>h. \<exists>t. m E h = (Inr x, t) \<and> fold upd t s = s')"

lemma ends_in_bnd: "ends_in E upd s m x s' \<Longrightarrow> ends_in E upd s' (f x) y s'' \<Longrightarrow> ends_in E upd s (bnd m f) y s''"
  unfolding ends_in_def bnd_Inr_iff by (metis comp_apply fold_append)

lemma ends_in_thn: "ends_in E upd s m x s' \<Longrightarrow> ends_in E upd s' m' y s'' \<Longrightarrow> ends_in E upd s (thn m m') y s''"
  unfolding thn_def by (rule ends_in_bnd)

lemma ends_in_ret: "s' = s \<Longrightarrow> y = x \<Longrightarrow> ends_in E upd s (ret x) y s'"
  by (simp add: ends_in_def ret_def)

lemma ends_in_idle:
  "(\<And>h. \<exists>t. (\<forall>k \<in> set t. upd k = id) \<and> m E h = (Inr x, t)) \<Longrightarrow> ends_in E upd s m x s"
  unfolding ends_in_def by (metis fold_idle)

end
