(* ===== verification/Certificates.thy ===== *)
theory Certificates
  imports SessionToken Credentials ServerSideApply Authority Replay
begin

text \<open>
  The issuing half of internal/provider/tls.go and tls_certmanager.go: the Secrets of the Instance's own CA
  (theory Authority) and of the certificates it signs, or cert-manager's issuers and Certificates.
\<close>

section \<open>The provider's own CA\<close>

definition createOwnedByCluster :: "ctx \<Rightarrow> cluster \<Rightarrow> secret \<Rightarrow> unit io" where
  "createOwnedByCluster c owner sec =
     bnd (or_wrap ''set cluster owner'' (controller_reference (cx_lib c) (OCluster owner) (OSecret sec))) (\<lambda>x.
     bnd (do_write (Create x)) (\<lambda>r.
       case r of
         None \<Rightarrow> ret ()
       | Some e \<Rightarrow>
           if e = AlreadyExists then
             fail (Message (''secret '' @ go_quote (om_name (sec_meta sec)) @ '' was created concurrently; retrying''))
           else fail (Wrapped (''create secret '' @ go_quote (om_name (sec_meta sec))) (Passed e))))"

text \<open>The loop of ensureCA over the certificate Secrets, when the CA's own is missing.\<close>

definition missing_ca :: "string \<Rightarrow> string \<Rightarrow> string" where
  "missing_ca name leaf =
     ''CA secret '' @ go_quote name @ '' is missing but certificate secret '' @ go_quote leaf @
     '' exists; restore the CA secret or delete the certificate secrets to issue new ones''"

fun check_no_leaf :: "ctx \<Rightarrow> uid \<Rightarrow> string \<Rightarrow> leafCert list \<Rightarrow> unit io" where
  "check_no_leaf c u name [] = ret ()"
| "check_no_leaf c u name (leaf # leaves) =
     bnd (currentSecret c u (lf_secretName leaf)) (\<lambda>existing.
       if existing \<noteq> None then fail (Message (missing_ca name (lf_secretName leaf)))
       else check_no_leaf c u name leaves)"

definition ca_secret :: "ctx \<Rightarrow> certAuthority \<Rightarrow> secret" where
  "ca_secret c ca =
     \<lparr>sec_meta = c_object_meta c (tlsCASecretName (c_name c)), sec_type = opaque (cx_lib c),
      sec_data = [tlsKeyCA \<mapsto> ca_certPEM ca, tlsKeyCAKey \<mapsto> keyPEM (cx_lib c) ca]\<rparr>"

definition ensureCA :: "ctx \<Rightarrow> cluster \<Rightarrow> leafCert list \<Rightarrow> certAuthority io" where
  "ensureCA c owner leaves =
     (let name = tlsCASecretName (c_name c); u = om_uid (cl_meta owner) in
      bnd (currentSecret c u name) (\<lambda>found.
        case found of
          Some sec \<Rightarrow>
            (case parseCertAuthority (cx_lib c) (lookup_str (sec_data sec) tlsKeyCA) (lookup_str (sec_data sec) tlsKeyCAKey) of
               Inl e \<Rightarrow> fail (Wrapped (''read the CA from secret '' @ go_quote name) e)
             | Inr ca \<Rightarrow> ret ca)
        | None \<Rightarrow>
            thn (check_no_leaf c u name leaves)
            (bnd (wrapping ''generate the CA'' (newCertAuthority (cx_lib c) (c_name c))) (\<lambda>ca.
             thn (createOwnedByCluster c owner (ca_secret c ca)) (ret ca)))))"

definition leaf_secret :: "ctx \<Rightarrow> certAuthority \<Rightarrow> string \<Rightarrow> string \<times> string \<Rightarrow> secret" where
  "leaf_secret c ca name pems =
     \<lparr>sec_meta = c_object_meta c name, sec_type = api_const (cx_lib c) ''SecretTypeTLS'',
      sec_data = [tlsKeyCA \<mapsto> ca_certPEM ca, tlsKeyCert (cx_lib c) \<mapsto> fst pems, tlsKeyKey (cx_lib c) \<mapsto> snd pems]\<rparr>"

definition ensure_leaf :: "ctx \<Rightarrow> cluster \<Rightarrow> certAuthority \<Rightarrow> leafCert \<Rightarrow> unit io" where
  "ensure_leaf c owner ca leaf =
     bnd (currentSecret c (om_uid (cl_meta owner)) (lf_secretName leaf)) (\<lambda>existing.
       if existing \<noteq> None then ret ()
       else
         bnd (wrapping (''issue certificate for '' @ go_quote (lf_secretName leaf)) (issue (cx_lib c) ca leaf)) (\<lambda>pems.
         createOwnedByCluster c owner (leaf_secret c ca (lf_secretName leaf) pems)))"

section \<open>cert-manager\<close>

definition cm_group :: "ctx \<Rightarrow> string" where
  "cm_group c = api_const (cx_lib c) ''cmapi.SchemeGroupVersion.Group''"

definition selfSignedIssuerName :: "string \<Rightarrow> string" where "selfSignedIssuerName i = i @ ''-tls-selfsigned''"
definition caIssuerName :: "string \<Rightarrow> string" where "caIssuerName i = i @ ''-tls-ca''"

fun cm_usage :: "ext_usage \<Rightarrow> key_usage" where
  "cm_usage ServerAuth = UsageServerAuth"
| "cm_usage ClientAuth = UsageClientAuth"

definition buildCertificate :: "ctx \<Rightarrow> leafCert \<Rightarrow> issuer_reference \<Rightarrow> certificate" where
  "buildCertificate c leaf iss =
     \<lparr>ce_meta = c_object_meta c (lf_secretName leaf), ce_is_ca = False, ce_common_name = lf_commonName leaf,
      ce_organizations = [tlsOrg], ce_dns_names = lf_dnsNames leaf,
      ce_ips = (if lf_dnsNames leaf \<noteq> [] then [''127.0.0.1'', ''::1''] else []),
      ce_secret = lf_secretName leaf, ce_duration = tlsCertValidity,
      ce_usages = [UsageDigitalSignature, UsageKeyEncipherment] @ map cm_usage (lf_usages leaf),
      ce_issuer = iss\<rparr>"

definition adoptSecret :: "ctx \<Rightarrow> string \<Rightarrow> unit io" where
  "adoptSecret c name =
     bnd (exists_certificate name) (\<lambda>r.
     bnd (or_fail r) (\<lambda>found.
       case found of
         None \<Rightarrow> ret ()
       | Some cert \<Rightarrow>
           bnd (exists_secret name) (\<lambda>r.
           bnd (or_wrap (''get certificate secret '' @ go_quote name) r) (\<lambda>found.
             case found of
               None \<Rightarrow> ret ()
             | Some sec \<Rightarrow>
                 if \<exists>ref \<in> set (om_owners (sec_meta sec)). or_uid ref = om_uid (ce_meta cert) then ret ()
                 else
                   bnd (do_write (AdoptSecret name
                          ((new_controller_ref (cx_lib c) (OCertificate cert))\<lparr>or_controller := False\<rparr>)))
                     (ok_or_wrap (''adopt certificate secret '' @ go_quote name))))))"

definition ca_certificate :: "ctx \<Rightarrow> certificate" where
  "ca_certificate c =
     \<lparr>ce_meta = c_object_meta c (tlsCASecretName (c_name c)), ce_is_ca = True,
      ce_common_name = c_name c @ '' TiDB CA'', ce_organizations = [tlsOrg], ce_dns_names = [], ce_ips = [],
      ce_secret = tlsCASecretName (c_name c), ce_duration = tlsCertValidity, ce_usages = [],
      ce_issuer = \<lparr>iref_name = selfSignedIssuerName (c_name c), iref_kind = issuerKindIssuer, iref_group = cm_group c\<rparr>\<rparr>"

definition ensureCertManagerIssuer :: "ctx \<Rightarrow> cluster \<Rightarrow> TLS \<Rightarrow> issuer_reference io" where
  "ensureCertManagerIssuer c owner settings =
     (case user_issuer settings of
        Some r \<Rightarrow> ret \<lparr>iref_name = ir_Name r, iref_kind = issuerKind r, iref_group = cm_group c\<rparr>
      | None \<Rightarrow>
          thn (wrapping ''apply self-signed issuer'' (applyOwnedByCluster c owner (OIssuer
                 \<lparr>is_meta = c_object_meta c (selfSignedIssuerName (c_name c)), is_config = SelfSigned\<rparr>)))
          (thn (wrapping ''apply CA certificate'' (applyOwnedByCluster c owner (OCertificate (ca_certificate c))))
          (thn (adoptSecret c (tlsCASecretName (c_name c)))
          (thn (wrapping ''apply CA issuer'' (applyOwnedByCluster c owner (OIssuer
                 \<lparr>is_meta = c_object_meta c (caIssuerName (c_name c)),
                  is_config = CAFrom (tlsCASecretName (c_name c))\<rparr>)))
          (ret \<lparr>iref_name = caIssuerName (c_name c), iref_kind = issuerKindIssuer, iref_group = cm_group c\<rparr>)))))"

definition ensureCertManagerCertificates :: "ctx \<Rightarrow> cluster \<Rightarrow> TLS \<Rightarrow> leafCert list \<Rightarrow> unit io" where
  "ensureCertManagerCertificates c owner settings leaves =
     bnd (ensureCertManagerIssuer c owner settings) (\<lambda>iss.
     each (\<lambda>leaf.
       thn (wrapping (''apply certificate '' @ go_quote (lf_secretName leaf))
              (applyOwnedByCluster c owner (OCertificate (buildCertificate c leaf iss))))
           (adoptSecret c (lf_secretName leaf))) leaves)"

section \<open>All certificates\<close>

definition needed_leaves :: "ctx \<Rightarrow> cluster \<Rightarrow> leafCert list" where
  "needed_leaves c owner =
     tlsLeaves (c_name c) (c_namespace c) (tlsSettings c) (enabledTiProxy (c_components c) \<noteq> None) @
     (if usesSessionTokenSigning c owner then [sessionTokenSigningLeaf (c_name c)] else [])"

definition ensureTLSSecrets :: "ctx \<Rightarrow> cluster \<Rightarrow> unit io" where
  "ensureTLSSecrets c owner =
     (let leaves = needed_leaves c owner in
      if leaves = [] then ret ()
      else if usesCertManager (tlsSettings c) then ensureCertManagerCertificates c owner (tlsSettings c) leaves
      else bnd (ensureCA c owner leaves) (\<lambda>ca. each (ensure_leaf c owner ca) leaves))"

definition readClientCA :: "ctx \<Rightarrow> string option io" where
  "readClientCA c =
     bnd (get_secret (mysqlServerTLSSecretName (c_name c))) (\<lambda>r.
       case r of
         Inl e \<Rightarrow> if e = NotFound then ret None else fail (Passed e)
       | Inr sec \<Rightarrow> ret (sec_data sec tlsKeyCA))"

section \<open>What is written\<close>

text \<open>
  The calls ensureTLSSecrets may make without cert-manager when the Secrets are \<open>S\<close>:
  reads and crypto, the creation of a Secret that does not exist, and the deletion of a Secret
  that another object controls. The CA is created only when no certificate exists, and a
  certificate only next to an existing CA or when none existed before.
\<close>

definition no_leaf :: "(string \<rightharpoonup> secret) \<Rightarrow> leafCert list \<Rightarrow> bool" where
  "no_leaf S leaves \<longleftrightarrow> (\<forall>leaf \<in> set leaves. S (lf_secretName leaf) = None)"

definition may_issue :: "ctx \<Rightarrow> (string \<rightharpoonup> secret) \<Rightarrow> leafCert list \<Rightarrow> string \<Rightarrow> bool" where
  "may_issue c S leaves n \<longleftrightarrow> S n = None \<and>
     (n = tlsCASecretName (c_name c) \<and> no_leaf S leaves \<or>
      n \<in> lf_secretName ` set leaves \<and> (S (tlsCASecretName (c_name c)) \<noteq> None \<or> no_leaf S leaves))"

definition issue_call :: "ctx \<Rightarrow> uid \<Rightarrow> (string \<rightharpoonup> secret) \<Rightarrow> leafCert list \<Rightarrow> call \<Rightarrow> bool" where
  "issue_call c u S leaves k \<longleftrightarrow> (is_write k \<longrightarrow>
     (\<exists>x. k = Create x \<and> obj_kind x = KSecret \<and> may_issue c S leaves (om_name (obj_meta_of x))) \<or>
     (\<exists>n sec. k = Delete KSecret (om_name (sec_meta sec)) \<and> S n = Some sec \<and> \<not> owned_or_free (cx_lib c) u sec))"

lemma issue_call_read [simp]: "\<not> is_write k \<Longrightarrow> issue_call c u S leaves k"
  by (simp add: issue_call_def)

lemma issue_call_delete:
  "S n = Some sec \<Longrightarrow> \<not> owned_or_free (cx_lib c) u sec \<Longrightarrow> issue_call c u S leaves (Delete KSecret (om_name (sec_meta sec)))"
  unfolding issue_call_def by blast

lemma currentSecret_runs:
  assumes "serves (ev_secret E) S"
  shows "runs E (issue_call c u S leaves)
     (\<lambda>r. r = S name \<and> (\<forall>sec. r = Some sec \<longrightarrow> owned_or_free (cx_lib c) u sec)) (currentSecret c u name)"
  unfolding currentSecret_def
  by (rule runs_bnd_get_secret [OF assms]; cases "S name")
    (auto intro!: runs_intro issue_call_delete simp: owned_or_free_def)

lemma createOwned_runs:
  assumes "meta_laws (cx_lib c)" "may_issue c S leaves (om_name (sec_meta sec))"
  shows "runs E (issue_call c u S leaves) (\<lambda>_. True) (createOwnedByCluster c owner sec)"
  unfolding createOwnedByCluster_def
proof (intro runs_intro)
  show "issue_call c u S leaves (Create x)"
    if "controller_reference (cx_lib c) (OCluster owner) (OSecret sec) = Inr x" for x
  proof -
    from that assms(1) have "om_name (obj_meta_of x) = om_name (sec_meta sec)" "obj_kind x = KSecret"
      unfolding meta_laws_def by force+
    with assms(2) show ?thesis unfolding issue_call_def by simp
  qed
qed simp_all

lemma check_no_leaf_runs:
  assumes "serves (ev_secret E) S"
  shows "runs E (issue_call c u S leaves) (\<lambda>_. no_leaf S ls) (check_no_leaf c u name ls)"
proof (induction ls)
  case Nil
  then show ?case by (auto simp: no_leaf_def intro: runs_intro)
next
  case (Cons leaf ls)
  show ?case
    unfolding check_no_leaf.simps
    by (rule runs_bnd [OF currentSecret_runs [OF assms]])
      (auto intro!: runs_intro intro: runs_weaken [OF Cons.IH] simp: no_leaf_def)
qed

lemma ensureCA_runs:
  assumes "serves (ev_secret E) S" "meta_laws (cx_lib c)"
  shows "runs E (issue_call c (om_uid (cl_meta owner)) S leaves)
    (\<lambda>ca. S (tlsCASecretName (c_name c)) \<noteq> None \<or> no_leaf S leaves) (ensureCA c owner leaves)"
proof -
  let ?ca = "tlsCASecretName (c_name c)" and ?u = "om_uid (cl_meta owner)"
  have name: "om_name (sec_meta (ca_secret c ca)) = ?ca" for ca
    using assms(2) by (simp add: ca_secret_def c_object_meta_def meta_laws_def)
  have fresh: "runs E (issue_call c ?u S leaves) (\<lambda>_. no_leaf S leaves)
      (thn (check_no_leaf c ?u ?ca leaves)
        (bnd (wrapping ''generate the CA'' (newCertAuthority (cx_lib c) (c_name c))) (\<lambda>ca.
           thn (createOwnedByCluster c owner (ca_secret c ca)) (ret ca))))" if "S ?ca = None"
    unfolding thn_def
    by (rule runs_bnd [OF check_no_leaf_runs [OF assms(1)]], rule runs_bnd [OF runs_wrapping [OF runs_calls [OF authority_calls(1)]]])
      (simp_all, (intro runs_intro runs_bnd [OF createOwned_runs [OF assms(2)]]; simp add: that name may_issue_def))
  show ?thesis
    unfolding ensureCA_def Let_def
  proof (rule runs_bnd [OF currentSecret_runs [OF assms(1)]], rule runs_option)
    fix r
    assume r: "r = S ?ca \<and> (\<forall>sec. r = Some sec \<longrightarrow> owned_or_free (cx_lib c) ?u sec)" and "r = None"
    then show "runs E (issue_call c ?u S leaves) (\<lambda>ca. S ?ca \<noteq> None \<or> no_leaf S leaves)
      (thn (check_no_leaf c ?u ?ca leaves)
        (bnd (wrapping ''generate the CA'' (newCertAuthority (cx_lib c) (c_name c))) (\<lambda>ca.
           thn (createOwnedByCluster c owner (ca_secret c ca)) (ret ca))))"
      by (intro runs_weaken [OF fresh]) simp_all
  qed (auto intro!: runs_intro dest: sym)
qed

lemma ensure_leaf_runs:
  assumes "serves (ev_secret E) S" "meta_laws (cx_lib c)" "leaf \<in> set leaves"
    and "S (tlsCASecretName (c_name c)) \<noteq> None \<or> no_leaf S leaves"
  shows "runs E (issue_call c (om_uid (cl_meta owner)) S leaves) (\<lambda>_. True) (ensure_leaf c owner ca leaf)"
proof -
  have name: "om_name (sec_meta (leaf_secret c ca n pems)) = n" for n pems
    using assms(2) by (simp add: leaf_secret_def c_object_meta_def meta_laws_def)
  have "may_issue c S leaves (lf_secretName leaf)" if "S (lf_secretName leaf) = None"
    using that assms(3,4) unfolding may_issue_def by blast
  then show ?thesis
    unfolding ensure_leaf_def
    by (intro runs_bnd [OF currentSecret_runs [OF assms(1)]] runs_bnd [OF runs_wrapping [OF runs_calls [OF authority_calls(2)]]]
        runs_intro createOwned_runs [OF assms(2)])
      (simp_all add: name)
qed

lemma ensureTLSSecrets_runs:
  assumes "serves (ev_secret E) S" "meta_laws (cx_lib c)" "\<not> usesCertManager (tlsSettings c)"
  shows "runs E (issue_call c (om_uid (cl_meta owner)) S (needed_leaves c owner)) (\<lambda>_. True) (ensureTLSSecrets c owner)"
  unfolding ensureTLSSecrets_def Let_def using assms(3)
  by (auto intro!: runs_intro runs_bnd [OF ensureCA_runs [OF assms(1,2)]] ensure_leaf_runs [OF assms(1,2)])

section \<open>Properties\<close>

text \<open>C15: without cert-manager, ensureTLSSecrets never replaces a certificate it has issued. Whatever
  it writes is the creation of a Secret that does not exist yet, or the deletion of a Secret that another
  object (the Cluster of a previous Instance of this name) controls. A new CA is created only when no
  certificate is there that the old one may have signed, and a certificate only beside the CA that is
  there or beside the first one.\<close>

theorem certificates_issued_once:
  assumes "serves (ev_secret E) S" "meta_laws (cx_lib c)" "\<not> usesCertManager (tlsSettings c)"
    and "k \<in> set (snd (ensureTLSSecrets c owner E h))" "is_write k"
  shows "(\<exists>x. k = Create x \<and> obj_kind x = KSecret \<and> may_issue c S (needed_leaves c owner) (om_name (obj_meta_of x))) \<or>
    (\<exists>n sec. k = Delete KSecret (om_name (sec_meta sec)) \<and> S n = Some sec \<and>
       \<not> owned_or_free (cx_lib c) (om_uid (cl_meta owner)) sec)"
  using runs_callD [OF ensureTLSSecrets_runs [OF assms(1-3), of owner] assms(4)] assms(5)
  unfolding issue_call_def by blast

theorem certificates_issued_once_witness:
  "may_issue (tls_sample_ctx \<lparr>tls_Cluster = False, tls_Client = True, tls_CertManager = None\<rparr>) Map.empty
     (needed_leaves (tls_sample_ctx \<lparr>tls_Cluster = False, tls_Client = True, tls_CertManager = None\<rparr>) sample_cluster)
     (tlsCASecretName ''db'')"
proof -
  let ?c = "tls_sample_ctx \<lparr>tls_Cluster = False, tls_Client = True, tls_CertManager = None\<rparr>"
  let ?E = "env_of empty_store"
  let ?ca = "\<lparr>ca_cert = sample_cert ''db TiDB CA'', ca_certPEM = ''-db TiDB CA'', ca_key = ''key''\<rparr>"
  define k where "k = Create (OSecret ((ca_secret ?c ?ca)\<lparr>sec_meta :=
    (sec_meta (ca_secret ?c ?ca))\<lparr>om_owners := [sample_owner (OCluster sample_cluster)]\<rparr>\<rparr>))"
  have lib: "cx_lib ?c = sample_lib\<lparr>try_decode_topology :=
     \<lambda>i. Some \<lparr>tp_Monitoring = None, tp_TLS = Some \<lparr>tls_Cluster = False, tls_Client = True, tls_CertManager = None\<rparr>\<rparr>\<rparr>"
    by (simp add: tls_sample_ctx_def)
  have laws: "meta_laws (cx_lib ?c)"
    using sample_meta_laws by (simp add: lib meta_laws_def)
  have comps: "c_components ?c = [''pd'' \<mapsto> zero_component, ''tikv'' \<mapsto> zero_component, ''tidb'' \<mapsto> zero_component]"
    by (simp add: c_components_def sample_instance_def)
  have leaves: "needed_leaves ?c sample_cluster =
      [component_leaf ''db'' (c_namespace ?c) TiDB\<lparr>lf_secretName := ''db-tidb-server-secret'',
        lf_commonName := ''db-tidb'', lf_usages := [ServerAuth]\<rparr>]"
    by (simp add: needed_leaves_def tlsLeaves_def usesSessionTokenSigning_def enabledTiProxy_def comps
        sample_cluster_def component_leaf_def mysqlServerTLSSecretName_def)
  have ca: "fst (wrapping s (newCertAuthority (cx_lib ?c) ''db'') ?E h) = Inr ?ca" for s h
    by (simp add: newCertAuthority_def generate_key_def randomSerial_def read_clock_def sign_def pemEncode_def ca_template_def
        lib io_eval)
  have none: "fst (currentSecret ?c u n ?E h) = Inr None" for u n h
    by (simp add: currentSecret_def io_eval)
  have created: "k \<in> set (snd (createOwnedByCluster ?c sample_cluster (ca_secret ?c ?ca) ?E h))" for h
    by (simp add: k_def createOwnedByCluster_def lib bnd_run_Inr do_write_run)
  have "k \<in> set (snd (ensureTLSSecrets ?c sample_cluster ?E []))"
    by (simp add: ensureTLSSecrets_def leaves usesCertManager_def ensureCA_def thn_def Let_def bnd_assoc,
        rule called_then [where m = "currentSecret ?c u n" for u n, OF none],
        simp add: bnd_assoc, rule called_then [where m = "currentSecret ?c u n" for u n, OF none],
        simp, rule called_then [where m = "wrapping s (newCertAuthority (cx_lib ?c) ''db'')" for s, OF ca],
        rule called_first, rule created)
  then show ?thesis
    using certificates_issued_once [of ?E Map.empty ?c k sample_cluster "[]"] laws
    by (simp add: k_def serves_serve usesCertManager_def ca_secret_def c_object_meta_def bare_meta_def lib)
qed

end
