(* ===== verification/Monitor.thy ===== *)
theory Monitor
  imports Certificates
begin

text \<open>
  internal/provider/monitoring.go: the scrape objects of the Prometheus and VictoriaMetrics operators,
  their validation, and the TLS settings with which they reach the components.
\<close>

section \<open>Endpoints\<close>

definition metricsPath :: string where "metricsPath = ''/metrics''"
definition tiproxyMetricsPath :: string where "tiproxyMetricsPath = ''/api/metrics''"
definition podMonitorSuffix :: string where "podMonitorSuffix = ''-metrics''"
definition vmPodScrapeSuffix :: string where "vmPodScrapeSuffix = ''-vm-metrics''"
definition podMonitorLabelsEnv :: string where "podMonitorLabelsEnv = ''POD_MONITOR_LABELS''"
definition vmPodScrapeLabelsEnv :: string where "vmPodScrapeLabelsEnv = ''VM_POD_SCRAPE_LABELS''"
definition componentPodLabelMeta :: string where
  "componentPodLabelMeta = ''__meta_kubernetes_pod_label_core_openeverest_io_component''"

record metricsEndpoint =
  me_port :: string
  me_component :: comp
  me_path :: string

definition metricsEndpoints :: "lib \<Rightarrow> metricsEndpoint list" where
  "metricsEndpoints L =
     [\<lparr>me_port = api_const L ''PDPortNameClient'', me_component = PD, me_path = metricsPath\<rparr>,
      \<lparr>me_port = api_const L ''TiKVPortNameStatus'', me_component = TiKV, me_path = metricsPath\<rparr>,
      \<lparr>me_port = api_const L ''TiDBPortNameStatus'', me_component = TiDB, me_path = metricsPath\<rparr>,
      \<lparr>me_port = api_const L ''TiFlashPortNameMetrics'', me_component = TiFlash, me_path = metricsPath\<rparr>,
      \<lparr>me_port = api_const L ''TiFlashPortNameProxyStatus'', me_component = TiFlash, me_path = metricsPath\<rparr>,
      \<lparr>me_port = api_const L ''TiProxyPortNameAPI'', me_component = TiProxy, me_path = tiproxyMetricsPath\<rparr>]"

text \<open>The Secret a scrape presents, when the components use mTLS.\<close>

definition clusterMetricsTLS :: "ctx \<Rightarrow> string option" where
  "clusterMetricsTLS c =
     (if \<not> tls_Cluster (tlsSettings c) then None else Some (clusterClientTLSSecretName (c_name c)))"

definition componentServerName :: "string \<Rightarrow> comp \<Rightarrow> string" where
  "componentServerName i k = i @ ''-'' @ comp_name k"

section \<open>The two monitoring systems\<close>

record scraper =
  sc_field :: string
  sc_kind :: kind
  sc_kind_name :: string
  sc_group_version :: string
  sc_operator :: string
  sc_suffix :: string
  sc_labels_env :: string

definition prometheusScraper :: "lib \<Rightarrow> scraper" where
  "prometheusScraper L =
     \<lparr>sc_field = ''monitoring.prometheus'', sc_kind = KPodMonitor,
      sc_kind_name = api_const L ''monitoringv1.PodMonitorsKind'',
      sc_group_version = api_const L ''monitoringv1.SchemeGroupVersion'', sc_operator = ''the Prometheus Operator'',
      sc_suffix = podMonitorSuffix, sc_labels_env = podMonitorLabelsEnv\<rparr>"

definition victoriaMetricsScraper :: "lib \<Rightarrow> scraper" where
  "victoriaMetricsScraper L =
     \<lparr>sc_field = ''monitoring.victoriaMetrics'', sc_kind = KVMPodScrape, sc_kind_name = ''VMPodScrape'',
      sc_group_version = api_const L ''vmv1beta1.GroupVersion'', sc_operator = ''the VictoriaMetrics Operator'',
      sc_suffix = vmPodScrapeSuffix, sc_labels_env = vmPodScrapeLabelsEnv\<rparr>"

record scrapeSettings =
  ss_interval :: string
  ss_labels :: "(string \<times> string) list"

definition podMonitorName :: "string \<Rightarrow> string" where "podMonitorName i = i @ podMonitorSuffix"
definition vmPodScrapeName :: "string \<Rightarrow> string" where "vmPodScrapeName i = i @ vmPodScrapeSuffix"

definition monitoringParams :: "ctx \<Rightarrow> Monitoring option" where
  "monitoringParams c =
     (case try_decode_topology (cx_lib c) (cx_instance c) of None \<Rightarrow> None | Some params \<Rightarrow> tp_Monitoring params)"

definition prometheusSettings :: "Monitoring option \<Rightarrow> scrapeSettings option" where
  "prometheusSettings m =
     (case m of
        None \<Rightarrow> None
      | Some mon \<Rightarrow>
          (case mon_Prometheus mon of
             None \<Rightarrow> None
           | Some p \<Rightarrow> if \<not> pr_Enabled p then None
                       else Some \<lparr>ss_interval = pr_Interval p, ss_labels = pr_PodMonitorLabels p\<rparr>))"

definition victoriaMetricsSettings :: "Monitoring option \<Rightarrow> scrapeSettings option" where
  "victoriaMetricsSettings m =
     (case m of
        None \<Rightarrow> None
      | Some mon \<Rightarrow>
          (case mon_VictoriaMetrics mon of
             None \<Rightarrow> None
           | Some v \<Rightarrow> if \<not> vm_Enabled v then None
                       else Some \<lparr>ss_interval = vm_Interval v, ss_labels = vm_PodScrapeLabels v\<rparr>))"

section \<open>Validation\<close>

fun validateLabels :: "lib \<Rightarrow> string \<Rightarrow> (string \<times> string) list \<Rightarrow> err option" where
  "validateLabels L field [] = None"
| "validateLabels L field ((key, value) # labels) =
     (case qualified_name_error L key of
        Some e \<Rightarrow> Some (Message (field @ '' key '' @ go_quote key @ '': '' @ e))
      | None \<Rightarrow>
          (case label_value_error L value of
             Some e \<Rightarrow> Some (Message (field @ ''['' @ go_quote key @ ''] value '' @ go_quote value @ '': '' @ e))
           | None \<Rightarrow> validateLabels L field labels))"

definition validateScraper :: "ctx \<Rightarrow> scraper \<Rightarrow> scrapeSettings \<Rightarrow> string \<Rightarrow> unit io" where
  "validateScraper c s settings labelsField =
     (if ss_interval settings \<noteq> '''' \<and> \<not> parse_model_duration (cx_lib c) (ss_interval settings) then
        fail (Message (sc_field s @ ''.interval '' @ go_quote (ss_interval settings) @
          '' is not a valid duration such as 30s or 1m''))
      else
        thn (err_or_ok (validateLabels (cx_lib c) (sc_field s @ ''.'' @ labelsField) (ss_labels settings)))
        (bnd (rest_mapping (sc_kind s)) (\<lambda>r.
           case r of
             None \<Rightarrow> ret ()
           | Some e \<Rightarrow>
               if e = NoMatch then
                 fail (Message (sc_field s @ '' requires '' @ sc_operator s @ '': the '' @ sc_kind_name s @
                   '' CRD ('' @ sc_group_version s @ '') is not installed''))
               else fail (Wrapped (''look up the '' @ sc_kind_name s @ '' CRD'') (Passed e)))))"

definition has_parameters :: "inst \<Rightarrow> bool" where
  "has_parameters i =
     (case in_topology i of None \<Rightarrow> False | Some t \<Rightarrow> (case to_parameters t of Some (Some _) \<Rightarrow> True | _ \<Rightarrow> False))"

definition validateMonitoring :: "ctx \<Rightarrow> unit io" where
  "validateMonitoring c =
     (if \<not> has_parameters (cx_instance c) then ret ()
      else
        bnd (or_wrap ''invalid topology parameters'' (decode_topology (cx_lib c) (cx_instance c))) (\<lambda>params.
        thn (case prometheusSettings (tp_Monitoring params) of
               None \<Rightarrow> ret ()
             | Some settings \<Rightarrow> validateScraper c (prometheusScraper (cx_lib c)) settings ''podMonitorLabels'')
            (case victoriaMetricsSettings (tp_Monitoring params) of
               None \<Rightarrow> ret ()
             | Some settings \<Rightarrow> validateScraper c (victoriaMetricsScraper (cx_lib c)) settings ''podScrapeLabels'')))"

section \<open>Scrape objects\<close>

text \<open>maps.Copy in turn: later labels win.\<close>

definition scrapeObjectMeta :: "ctx \<Rightarrow> string \<Rightarrow> (string \<rightharpoonup> string) \<Rightarrow> (string \<times> string) list \<Rightarrow> obj_meta" where
  "scrapeObjectMeta c name defaults own =
     (let m = c_object_meta c name in m\<lparr>om_labels := defaults ++ map_of own ++ om_labels m\<rparr>)"

definition instancePodSelector :: "ctx \<Rightarrow> (string \<times> string) list" where
  "instancePodSelector c =
     [(api_const (cx_lib c) ''ProviderLabel'', ProviderName), (api_const (cx_lib c) ''InstanceLabel'', c_name c)]"

definition scrape_endpoint_of :: "ctx \<Rightarrow> scrapeSettings \<Rightarrow> metricsEndpoint \<Rightarrow> scrape_endpoint" where
  "scrape_endpoint_of c settings e =
     \<lparr>se_port = me_port e, se_path = me_path e, se_interval = ss_interval settings,
      se_keep = (componentPodLabelMeta, comp_name (me_component e)),
      se_tls = (case clusterMetricsTLS c of
                  None \<Rightarrow> None
                | Some secret \<Rightarrow> Some \<lparr>stl_secret = secret, stl_ca_key = tlsKeyCA, stl_cert_key = tlsKeyCert (cx_lib c),
                    stl_key_key = tlsKeyKey (cx_lib c), stl_server_name = componentServerName (c_name c) (me_component e)\<rparr>)\<rparr>"

definition scrape_object_of :: "ctx \<Rightarrow> string \<Rightarrow> scrapeSettings \<Rightarrow> (string \<rightharpoonup> string) \<Rightarrow> scrape_object" where
  "scrape_object_of c name settings defaults =
     \<lparr>so_meta = scrapeObjectMeta c name defaults (ss_labels settings), so_selector = instancePodSelector c,
      so_target_labels = [api_const (cx_lib c) ''ComponentLabel''],
      so_endpoints = map (scrape_endpoint_of c settings) (metricsEndpoints (cx_lib c))\<rparr>"

definition buildPodMonitor :: "ctx \<Rightarrow> scrapeSettings \<Rightarrow> (string \<rightharpoonup> string) \<Rightarrow> obj" where
  "buildPodMonitor c settings defaults = OPodMonitor (scrape_object_of c (podMonitorName (c_name c)) settings defaults)"

definition buildVMPodScrape :: "ctx \<Rightarrow> scrapeSettings \<Rightarrow> (string \<rightharpoonup> string) \<Rightarrow> obj" where
  "buildVMPodScrape c settings defaults = OVMPodScrape (scrape_object_of c (vmPodScrapeName (c_name c)) settings defaults)"

section \<open>syncMonitoring\<close>

definition labelsFromEnv :: "ctx \<Rightarrow> string \<Rightarrow> (string \<rightharpoonup> string) io" where
  "labelsFromEnv c var =
     bnd (ask (ReadEnv var) (\<lambda>E h. ev_getenv E h var)) (\<lambda>value.
       if value = '''' then ret Map.empty
       else (case parse_labels (cx_lib c) value of
               Inl e \<Rightarrow> fail (Wrapped (''parsing '' @ var) (Message e))
             | Inr labels \<Rightarrow> ret labels))"

definition syncScraper :: "ctx \<Rightarrow> scraper \<Rightarrow> scrapeSettings option \<Rightarrow>
    (ctx \<Rightarrow> scrapeSettings \<Rightarrow> (string \<rightharpoonup> string) \<Rightarrow> obj) \<Rightarrow> unit io" where
  "syncScraper c s settings build =
     (let name = c_name c @ sc_suffix s in
      case settings of
        None \<Rightarrow>
          bnd (do_write (Delete (sc_kind s) name)) (\<lambda>r.
            case r of
              None \<Rightarrow> ret ()
            | Some e \<Rightarrow> if e = NoMatch then ret ()
                        else fail (Wrapped (''delete '' @ sc_kind_name s @ '' '' @ go_quote name) (Passed e)))
      | Some st \<Rightarrow>
          bnd (labelsFromEnv c (sc_labels_env s)) (\<lambda>defaults.
          bnd (do_write (Apply (build c st defaults))) (\<lambda>r.
            case r of
              None \<Rightarrow> ret ()
            | Some e \<Rightarrow>
                if e = NoMatch then
                  fail (Wrapped (sc_field s @ '' requires the '' @ sc_kind_name s @ '' CRD ('' @ sc_group_version s @ '')'') (Passed e))
                else fail (Wrapped (''apply '' @ sc_kind_name s @ '' '' @ go_quote name) (Passed e)))))"

definition syncMonitoring :: "ctx \<Rightarrow> unit io" where
  "syncMonitoring c =
     thn (syncScraper c (prometheusScraper (cx_lib c)) (prometheusSettings (monitoringParams c)) buildPodMonitor)
         (syncScraper c (victoriaMetricsScraper (cx_lib c)) (victoriaMetricsSettings (monitoringParams c)) buildVMPodScrape)"

section \<open>Scraping over TLS\<close>

text \<open>C39: with TLS between the components every scrape can verify what it scrapes and is let in: each
  endpoint of either scrape object presents a client certificate the provider keeps for the Instance,
  and expects a server name that the certificate of the component it selects carries (TiProxy's while
  TiProxy runs).\<close>

theorem scrapes_verify:
  assumes "tls_Cluster (tlsSettings c)" "e \<in> set (so_endpoints (scrape_object_of c name settings defaults))"
    and "se_keep e = (componentPodLabelMeta, comp_name k)" "k = TiProxy \<longrightarrow> enabledTiProxy (c_components c) \<noteq> None"
  shows "\<exists>tls. se_tls e = Some tls \<and>
    (\<exists>leaf \<in> set (needed_leaves c owner). lf_secretName leaf = clusterTLSSecretName (c_name c) (comp_name k) \<and>
       stl_server_name tls \<in> set (lf_dnsNames leaf) \<and> ServerAuth \<in> set (lf_usages leaf)) \<and>
    (\<exists>leaf \<in> set (needed_leaves c owner). lf_secretName leaf = stl_secret tls \<and> ClientAuth \<in> set (lf_usages leaf))"
proof -
  from assms(2) obtain ep where e: "e = scrape_endpoint_of c settings ep"
    by (auto simp: scrape_object_of_def)
  with assms(3) have k: "me_component ep = k" by (simp add: scrape_endpoint_of_def)
  let ?client = "\<lparr>lf_secretName = clusterClientTLSSecretName (c_name c), lf_commonName = tlsClusterCN, lf_dnsNames = [],
     lf_usages = [ClientAuth]\<rparr>"
  have leaf: "component_leaf (c_name c) (c_namespace c) k \<in> set (needed_leaves c owner)"
    using assms(1,4) by (cases k) (auto simp: needed_leaves_def tlsLeaves_def)
  have client: "?client \<in> set (needed_leaves c owner)"
    using assms(1) by (simp add: needed_leaves_def tlsLeaves_def)
  have tls: "se_tls e = Some \<lparr>stl_secret = clusterClientTLSSecretName (c_name c), stl_ca_key = tlsKeyCA,
      stl_cert_key = tlsKeyCert (cx_lib c), stl_key_key = tlsKeyKey (cx_lib c), stl_server_name = c_name c @ ''-'' @ comp_name k\<rparr>"
    using assms(1) by (simp add: e scrape_endpoint_of_def clusterMetricsTLS_def k componentServerName_def)
  show ?thesis
    by (rule exI, rule conjI, rule tls, rule conjI, rule bexI [OF _ leaf], simp add: component_leaf_def svc_names_def serviceDNSNames_def,
        rule bexI [OF _ client], simp)
qed

theorem scrapes_verify_witness:
  "\<exists>leaf \<in> set (needed_leaves (tls_sample_ctx \<lparr>tls_Cluster = True, tls_Client = False, tls_CertManager = None\<rparr>) sample_cluster).
     ''db-pd'' \<in> set (lf_dnsNames leaf)"
proof -
  let ?c = "tls_sample_ctx \<lparr>tls_Cluster = True, tls_Client = False, tls_CertManager = None\<rparr>"
  let ?s = "\<lparr>ss_interval = '''', ss_labels = []\<rparr>"
  let ?e = "scrape_endpoint_of ?c ?s \<lparr>me_port = api_const (cx_lib ?c) ''PDPortNameClient'', me_component = PD, me_path = metricsPath\<rparr>"
  have "?e \<in> set (so_endpoints (scrape_object_of ?c ''x'' ?s Map.empty))"
    by (simp add: scrape_object_of_def metricsEndpoints_def)
  from scrapes_verify [OF _ this, of PD sample_cluster] show ?thesis
    by (auto simp: scrape_endpoint_of_def clusterMetricsTLS_def componentServerName_def)
qed

end
