(* ===== verification/Backups.thy ===== *)
theory Backups
  imports Credentials ServerSideApply
begin

text \<open>
  internal/provider/backup.go and backup_rbac.go: BR's storage, credentials and account, the BR Backup
  of a Backup, its cleanup, and the execution status of BR Backups and Restores. SyncRestore, which
  also starts point-in-time restores, is in theory Restores.
\<close>

section \<open>Storage and credentials\<close>

definition brSecretName :: "string \<Rightarrow> string" where "brSecretName backupName = backupName @ ''-br-s3''"

definition s3CompatibleProvider :: s3_provider where "s3CompatibleProvider = S3Other"

text \<open>The host of an endpoint that does not parse is \<^const>\<open>None\<close>.\<close>

definition brS3Provider :: "lib \<Rightarrow> string \<Rightarrow> s3_provider" where
  "brS3Provider L endpoint =
     (if endpoint = '''' then S3AWS
      else
        (case url_hostname L endpoint of
           None \<Rightarrow> s3CompatibleProvider
         | Some host \<Rightarrow>
             if host = ''amazonaws.com'' \<or> has_suffix host ''.amazonaws.com'' then S3AWS else s3CompatibleProvider))"

definition backupPrefix :: "string \<Rightarrow> string \<Rightarrow> string \<Rightarrow> string" where
  "backupPrefix namespace i backupName = namespace @ ''/'' @ i @ ''/'' @ backupName"

definition brS3Storage :: "lib \<Rightarrow> s3_spec \<Rightarrow> string \<Rightarrow> string \<Rightarrow> s3_storage" where
  "brS3Storage L s3 pre secretName =
     \<lparr>ss_provider = brS3Provider L (s3_endpoint s3), ss_region = s3_region s3, ss_bucket = s3_bucket s3,
      ss_endpoint = s3_endpoint s3, ss_prefix = pre, ss_secret = secretName\<rparr>"

text \<open>SetControllerReference changes the metadata of the controlled object only.\<close>

definition owned_meta :: "lib \<Rightarrow> obj \<Rightarrow> obj \<Rightarrow> api_err + obj_meta" where
  "owned_meta L owner x = map_sum id obj_meta_of (controller_reference L owner x)"

definition credentials_mutate :: "lib \<Rightarrow> obj \<Rightarrow> string \<times> string \<Rightarrow> secret \<Rightarrow> api_err + secret" where
  "credentials_mutate L owner keys sec =
     (let sec' = sec\<lparr>sec_data := [''access_key'' \<mapsto> fst keys, ''secret_key'' \<mapsto> snd keys]\<rparr> in
      map_sum id (\<lambda>m. sec'\<lparr>sec_meta := m\<rparr>) (owned_meta L owner (OSecret sec')))"

definition ensureBRCredentials :: "ctx \<Rightarrow> obj \<Rightarrow> string \<Rightarrow> backup_storage \<Rightarrow> unit io" where
  "ensureBRCredentials c owner name storage =
     bnd (ask (GetCredentials (bst_name storage)) (\<lambda>E h. ev_credentials E h (bst_name storage))) (\<lambda>r.
     bnd (or_fail r) (\<lambda>keys.
       let sec = \<lparr>sec_meta = bare_meta (c_namespace c) name, sec_type = opaque (cx_lib c), sec_data = Map.empty\<rparr> in
       bnd (ask (CreateOrUpdate (OSecret sec))
              (\<lambda>E h. ev_cou_secret E h sec (credentials_mutate (cx_lib c) owner keys))) (\<lambda>r.
       bnd (or_wrap ''ensure BR credentials secret'' r) (\<lambda>_. ret ()))))"

section \<open>The account of the BR jobs\<close>

definition backupManagerName :: string where "backupManagerName = ''openeverest-tidb-backup-manager''"

definition backupManagerRules :: "policy_rule list" where
  "backupManagerRules =
     [\<lparr>ru_groups = [''''], ru_resources = [''events''], ru_verbs = [''create'', ''patch'']\<rparr>,
      \<lparr>ru_groups = [''br.pingcap.com''], ru_resources = [''backups'', ''backups/status'', ''restores'', ''restores/status''],
       ru_verbs = [''get'', ''list'', ''watch'', ''update'']\<rparr>]"

definition backup_manager_objects :: "lib \<Rightarrow> string \<Rightarrow> (string \<times> obj) list" where
  "backup_manager_objects L namespace =
     (let m = (bare_meta namespace backupManagerName)\<lparr>om_labels :=
            [''app.kubernetes.io/managed-by'' \<mapsto> ''everest'', api_const L ''ProviderLabel'' \<mapsto> ProviderName]\<rparr> in
      [(''*v1.ServiceAccount'', OServiceAccount m),
       (''*v1.Role'', ORole m backupManagerRules),
       (''*v1.RoleBinding'', ORoleBinding m (''ServiceAccount'', backupManagerName, namespace)
          (''rbac.authorization.k8s.io'', ''Role'', backupManagerName))])"

definition ensureBackupManagerRBAC :: "ctx \<Rightarrow> string \<Rightarrow> unit io" where
  "ensureBackupManagerRBAC c namespace =
     each (\<lambda>(ty, x). wrapping (''apply BR job '' @ ty @ '' '' @ backupManagerName) (applyServerSide c x))
       (backup_manager_objects (cx_lib c) namespace)"

section \<open>Execution status\<close>

datatype restore_state = RsNone | RsPending | RsRunning | RsSucceeded | RsFailed

record backup_exec =
  be_state :: backup_state
  be_message :: string
  be_ref :: "string option"
  be_started :: "time option"
  be_completed :: "time option"
  be_size :: "string option"

record restore_exec =
  re_state :: restore_state
  re_message :: string
  re_ref :: "string option"
  re_started :: "time option"
  re_completed :: "time option"

definition backup_says :: "backup_state \<Rightarrow> string \<Rightarrow> backup_exec" where
  "backup_says st msg = \<lparr>be_state = st, be_message = msg, be_ref = None, be_started = None,
     be_completed = None, be_size = None\<rparr>"

definition restore_says :: "restore_state \<Rightarrow> string \<Rightarrow> restore_exec" where
  "restore_says st msg = \<lparr>re_state = st, re_message = msg, re_ref = None, re_started = None, re_completed = None\<rparr>"

definition time_unless_zero :: "time \<Rightarrow> time option" where
  "time_unless_zero t = (if time_is_zero t then None else Some t)"

text \<open>The loops of brFailureMessage and brRestoreFailureMessage, from the last condition to the first.\<close>

definition last_message :: "condition list \<Rightarrow> string \<Rightarrow> string" where
  "last_message conds dflt =
     (case find (\<lambda>cond. cond_status cond = CondTrue \<and> cond_message cond \<noteq> '''') (rev conds) of
        Some cond \<Rightarrow> cond_message cond | None \<Rightarrow> dflt)"

definition brFailureMessage :: "br_backup \<Rightarrow> string" where
  "brFailureMessage b = last_message (bb_conditions b) ''BR backup failed''"

definition brRestoreFailureMessage :: "br_restore \<Rightarrow> string" where
  "brRestoreFailureMessage r = last_message (br_conditions r) ''BR restore failed''"

definition brBackupExecutionStatus :: "br_backup \<Rightarrow> backup_exec" where
  "brBackupExecutionStatus b =
     (let ex = (backup_says BkNone '''')\<lparr>be_ref := Some (om_name (bb_meta b)), be_started := time_unless_zero (bb_started b)\<rparr> in
      case bb_phase b of
        BrComplete \<Rightarrow> ex\<lparr>be_state := BkSucceeded, be_completed := time_unless_zero (bb_completed b),
          be_size := (if bb_size b \<noteq> '''' then Some (bb_size b) else None)\<rparr>
      | BrFailed \<Rightarrow> ex\<lparr>be_state := BkFailed, be_message := brFailureMessage b\<rparr>
      | BrInvalid \<Rightarrow> ex\<lparr>be_state := BkFailed, be_message := brFailureMessage b\<rparr>
      | BrCleanFailed \<Rightarrow> ex\<lparr>be_state := BkFailed, be_message := brFailureMessage b\<rparr>
      | BrNone \<Rightarrow> ex\<lparr>be_state := BkPending\<rparr>
      | _ \<Rightarrow> ex\<lparr>be_state := BkRunning\<rparr>)"

definition brRestoreExecutionStatus :: "br_restore \<Rightarrow> restore_exec" where
  "brRestoreExecutionStatus r =
     (let ex = (restore_says RsNone '''')\<lparr>re_ref := Some (om_name (br_meta r)), re_started := time_unless_zero (br_started r)\<rparr> in
      case br_phase r of
        BrComplete \<Rightarrow> ex\<lparr>re_state := RsSucceeded, re_completed := time_unless_zero (br_completed r)\<rparr>
      | BrFailed \<Rightarrow> ex\<lparr>re_state := RsFailed, re_message := brRestoreFailureMessage r\<rparr>
      | BrInvalid \<Rightarrow> ex\<lparr>re_state := RsFailed, re_message := brRestoreFailureMessage r\<rparr>
      | BrNone \<Rightarrow> ex\<lparr>re_state := RsPending\<rparr>
      | _ \<Rightarrow> ex\<lparr>re_state := RsRunning\<rparr>)"

section \<open>Backups\<close>

fun cleanPolicyFor :: "deletion_policy \<Rightarrow> clean_policy" where
  "cleanPolicyFor PolicyRetain = CleanRetain"
| "cleanPolicyFor _ = CleanDelete"

text \<open>The function SyncBackup passes to CreateOrUpdate.\<close>

definition backup_mutate :: "ctx \<Rightarrow> backup \<Rightarrow> s3_spec \<Rightarrow> br_backup \<Rightarrow> api_err + br_backup" where
  "backup_mutate c b s3 bb =
     (let name = om_name (bk_meta b);
          bb' = bb\<lparr>bb_account := backupManagerName, bb_full := True, bb_mode := ModeSnapshot,
            bb_clean := cleanPolicyFor (bk_policy b),
            bb_s3 := Some (brS3Storage (cx_lib c) s3 (backupPrefix (c_namespace c) (c_name c) name) (brSecretName name)),
            bb_br := Some \<lparr>brc_cluster = c_name c, brc_namespace = c_namespace c\<rparr>\<rparr> in
      map_sum id (\<lambda>m. bb'\<lparr>bb_meta := m\<rparr>) (owned_meta (cx_lib c) (OBackup b) (OBRBackup bb')))"

definition SyncBackup :: "ctx \<Rightarrow> backup \<Rightarrow> backup_exec io" where
  "SyncBackup c b =
     bnd (get_cluster (c_name c)) (\<lambda>r.
       case r of
         Inl e \<Rightarrow> if e = NotFound then ret (backup_says BkPending ''Waiting for TiDB cluster to exist'')
                  else fail (Wrapped ''get cluster'' (Passed e))
       | Inr _ \<Rightarrow>
           bnd (get_backup_storage (bk_storage b)) (\<lambda>r.
           bnd (or_fail r) (\<lambda>storage.
             case bst_s3 storage of
               None \<Rightarrow> ret (backup_says BkFailed (''BackupStorage '' @ go_quote (bst_name storage) @ '' is not S3-backed''))
             | Some s3 \<Rightarrow>
                 thn (ensureBRCredentials c (OBackup b) (brSecretName (om_name (bk_meta b))) storage)
                 (thn (ensureBackupManagerRBAC c (om_namespace (bk_meta b)))
                 (thn (recordBackupRootPassword c b)
                 (let bb = zero_br_backup (om_namespace (bk_meta b)) (om_name (bk_meta b)) in
                  bnd (ask (CreateOrUpdate (OBRBackup bb)) (\<lambda>E h. ev_cou_backup E h bb (backup_mutate c b s3))) (\<lambda>r.
                  bnd (or_wrap ''create or update BR backup'' r) (\<lambda>bb.
                  ret (brBackupExecutionStatus bb)))))))))"

definition CleanupBackup :: "ctx \<Rightarrow> backup \<Rightarrow> bool io" where
  "CleanupBackup c b =
     bnd (get_br_backup (om_name (bk_meta b))) (\<lambda>r.
       case r of
         Inl e \<Rightarrow> if e = NotFound then ret True else fail (Wrapped ''get BR backup for cleanup'' (Passed e))
       | Inr bb \<Rightarrow>
           if not_deleting (bb_meta bb) then
             bnd (do_write (Delete KBRBackup (om_name (bb_meta bb)))) (\<lambda>r.
             thn (ok_or_wrap ''delete BR backup'' r) (ret False))
           else ret False)"

section \<open>Restores\<close>

definition restoreExecutionStatus :: "ctx \<Rightarrow> restore \<Rightarrow> br_restore \<Rightarrow> backup \<Rightarrow> restore_exec io" where
  "restoreExecutionStatus c rst brst src =
     (let ex = brRestoreExecutionStatus brst;
          completed = (if time_is_zero (br_completed brst) then om_created (rs_meta rst) else br_completed brst) in
      if re_state ex \<noteq> RsSucceeded then ret ex
      else
        bnd (adoptRestoredRootPassword c rst src completed) (\<lambda>known.
          if \<not> known then
            ret (ex\<lparr>re_message := ''The root password of backup '' @ go_quote (om_name (bk_meta src)) @
              '' is unknown, so the connection Secret may not log in: root now has the password the backed-up cluster had''\<rparr>)
          else ret ex))"

definition CleanupRestore :: "ctx \<Rightarrow> restore \<Rightarrow> bool io" where
  "CleanupRestore c rst =
     bnd (get_br_restore (om_name (rs_meta rst))) (\<lambda>r.
       case r of
         Inl e \<Rightarrow> if e = NotFound then ret True else fail (Wrapped ''get BR restore for cleanup'' (Passed e))
       | Inr brst \<Rightarrow>
           if not_deleting (br_meta brst) then
             bnd (do_write (Delete KBRRestore (om_name (br_meta brst)))) (\<lambda>r.
             thn (ok_or_wrap ''delete BR restore'' r) (ret False))
           else ret False)"

section \<open>The calls of the shared steps\<close>

lemma ensureBRCredentials_calls [calls_intro]:
  "P (GetCredentials (bst_name storage)) \<Longrightarrow> (\<And>x. P (CreateOrUpdate (OSecret x))) \<Longrightarrow>
   calls_in P (ensureBRCredentials c owner name storage)"
  unfolding ensureBRCredentials_def Let_def by (intro calls_intro) auto

lemma applyServerSide_calls [calls_intro]: "(\<And>j. P (ServerSideApply x j)) \<Longrightarrow> calls_in P (applyServerSide c x)"
  unfolding applyServerSide_def build_config_def by (intro calls_intro) auto

lemma ensureBackupManagerRBAC_calls [calls_intro]:
  "(\<And>x j. P (ServerSideApply x j)) \<Longrightarrow> calls_in P (ensureBackupManagerRBAC c ns)"
  unfolding ensureBackupManagerRBAC_def by (intro calls_intro) (auto intro!: calls_intro split: prod.split)

lemma readRootPassword_calls [calls_intro]: "(\<And>n. P (Get KSecret n)) \<Longrightarrow> calls_in P (readRootPassword c)"
  unfolding readRootPassword_def get_secret_def by (intro calls_intro) auto

lemma calls_in_bnd_or_wrap:
  "(\<And>x. r = Inr x \<Longrightarrow> calls_in P (g x)) \<Longrightarrow> calls_in P (bnd (or_wrap s r) g)"
  by (cases r) (simp_all add: calls_in_fail)

lemma recordBackupRootPassword_calls [calls_intro]:
  "(\<And>n. P (Get KSecret n)) \<Longrightarrow> (\<And>x. obj_kind x = KSecret \<Longrightarrow> P (Create x)) \<Longrightarrow> meta_laws (cx_lib c) \<Longrightarrow>
   calls_in P (recordBackupRootPassword c b)"
  unfolding recordBackupRootPassword_def get_secret_def Let_def
  by (rule calls_in_bnd, rule calls_in_ask, assumption, intro calls_in_sum calls_in_if calls_in_fail calls_in_ret
      calls_in_bnd [OF readRootPassword_calls] calls_in_bnd_or_wrap calls_in_bnd [OF calls_in_do_write] calls_in_ok_or_wrap)
    (auto simp: meta_laws_def)

section \<open>Two owners of one Secret\<close>

text \<open>SyncBackup and SyncRestore keep their credentials under the same name when the Backup and the Restore have the
  same name, and SetControllerReference refuses an object that another object controls: the second of
  the two fails for as long as the first keeps its Secret.\<close>

lemma shared_credentials_refused:
  assumes "\<And>x y ref. controller_of (cx_lib c) (om_owners (obj_meta_of y)) = Some ref \<Longrightarrow>
      or_uid ref \<noteq> om_uid (obj_meta_of x) \<Longrightarrow> \<exists>e. controller_reference (cx_lib c) x y = Inl e"
    and "\<And>h sec f. om_name (sec_meta sec) = brSecretName n \<Longrightarrow> ev_cou_secret E h sec f = f stored"
    and "controller_of (cx_lib c) (om_owners (sec_meta stored)) = Some ref" "or_uid ref \<noteq> om_uid (obj_meta_of owner)"
  shows "\<exists>e. fst (ensureBRCredentials c owner (brSecretName n) storage E h) = Inl e"
proof -
  have "\<exists>e. credentials_mutate (cx_lib c) owner keys stored = Inl e" for keys
    using assms(1) [where y = "OSecret (stored\<lparr>sec_data := [''access_key'' \<mapsto> fst keys, ''secret_key'' \<mapsto> snd keys]\<rparr>)",
        OF _ assms(4)] assms(3)
    by (auto simp: credentials_mutate_def owned_meta_def Let_def)
  then obtain e where e: "\<And>keys. credentials_mutate (cx_lib c) owner keys stored = Inl (e keys)" by metis
  show ?thesis
    by (cases "ev_credentials E h (bst_name storage)") (simp_all add: ensureBRCredentials_def io_eval bare_meta_def assms(2) e)
qed

end
