(* ===== verification/TikvSizing.thy ===== *)
theory TikvSizing
  imports TomlConfig
begin

text \<open>
  internal/provider/tikv_sizing.go: TiKV settings that fit a small memory limit or volume, and
  the rejection of a memory limit too small to run. Quantities are compared and read by
  resource.Quantity, so by parameters.
\<close>

section \<open>The operations\<close>

definition mib :: int where "mib = 2 ^ 20"

definition tikvRuntimeReserve :: quantity where "tikvRuntimeReserve = ''2560Mi''"
definition tikvMinMemory :: quantity where "tikvMinMemory = ''4Gi''"
definition tikvMemorySizingThreshold :: quantity where "tikvMemorySizingThreshold = ''8Gi''"

definition key_block_cache :: "string list" where
  "key_block_cache = [''storage'', ''block-cache'', ''capacity'']"
definition key_write_buffer :: "string list" where
  "key_write_buffer = [''rocksdb'', ''write-buffer-limit'']"
definition key_memory_usage :: "string list" where
  "key_memory_usage = [''memory-usage-limit'']"

definition tikvMemoryKeys :: "string list list" where
  "tikvMemoryKeys = [key_block_cache, key_write_buffer, key_memory_usage]"

definition tikvReserveSpaceKey :: "string list" where
  "tikvReserveSpaceKey = [''storage'', ''reserve-space'']"
definition tikvReserveSpaceThreshold :: quantity where "tikvReserveSpaceThreshold = ''100Gi''"
definition tikvReserveSpace :: string where "tikvReserveSpace = ''1GiB''"

text \<open>The three sizes in MiB for a limit: block cache, write buffers, memory usage.\<close>

definition memory_remainder :: "lib \<Rightarrow> quantity \<Rightarrow> int" where
  "memory_remainder L limit = go_div (q_value L limit - q_value L tikvRuntimeReserve) mib"

definition size_block_cache :: "lib \<Rightarrow> quantity \<Rightarrow> int" where
  "size_block_cache L limit = go_div (memory_remainder L limit * 45) 100"
definition size_write_buffer :: "lib \<Rightarrow> quantity \<Rightarrow> int" where
  "size_write_buffer L limit = go_div (memory_remainder L limit * 15) 100"
definition size_memory_usage :: "lib \<Rightarrow> quantity \<Rightarrow> int" where
  "size_memory_usage L limit =
     go_div (q_value L tikvRuntimeReserve) mib + go_div (memory_remainder L limit * 75) 100"

definition in_mib :: "int \<Rightarrow> string" where "in_mib n = itoa n @ ''MiB''"

definition set_memory_keys :: "lib \<Rightarrow> quantity \<Rightarrow> toml_table \<Rightarrow> toml_table" where
  "set_memory_keys L limit cfg =
     setKey (setKey (setKey cfg key_block_cache (in_mib (size_block_cache L limit)))
       key_write_buffer (in_mib (size_write_buffer L limit)))
       key_memory_usage (in_mib (size_memory_usage L limit))"

definition sizes_memory :: "lib \<Rightarrow> (string \<rightharpoonup> quantity) \<Rightarrow> bool" where
  "sizes_memory L limits =
     (case limits ''memory'' of
        None \<Rightarrow> False
      | Some limit \<Rightarrow> q_cmp L limit tikvMinMemory \<ge> 0 \<and> q_cmp L limit tikvMemorySizingThreshold < 0)"

definition sizes_disk :: "lib \<Rightarrow> quantity \<Rightarrow> bool" where
  "sizes_disk L volume \<longleftrightarrow> \<not> q_is_zero L volume \<and> q_cmp L volume tikvReserveSpaceThreshold < 0"

text \<open>tikvConfig after decoding: the table with the settings added, and whether anything was.\<close>

definition tikv_edit :: "lib \<Rightarrow> (string \<rightharpoonup> quantity) \<Rightarrow> quantity \<Rightarrow> toml_table \<Rightarrow> toml_table \<times> bool" where
  "tikv_edit L limits volume cfg =
     (let limit = (case limits ''memory'' of None \<Rightarrow> '''' | Some q \<Rightarrow> q);
          memory = sizes_memory L limits \<and> \<not> hasAnyKey cfg tikvMemoryKeys;
          cfg1 = (if memory then set_memory_keys L limit cfg else cfg);
          disk = sizes_disk L volume \<and> \<not> hasKey cfg1 tikvReserveSpaceKey;
          cfg2 = (if disk then setKey cfg1 tikvReserveSpaceKey tikvReserveSpace else cfg1)
      in (cfg2, memory \<or> disk))"

definition tikvConfig :: "lib \<Rightarrow> string \<Rightarrow> (string \<rightharpoonup> quantity) \<Rightarrow> quantity \<Rightarrow> string" where
  "tikvConfig L userConfig limits volume =
     (if \<not> sizes_memory L limits \<and> \<not> sizes_disk L volume then userConfig
      else (case toml_decode L userConfig of
              None \<Rightarrow> userConfig
            | Some cfg \<Rightarrow>
                (case tikv_edit L limits volume cfg of (cfg', changed) \<Rightarrow>
                   if \<not> changed then userConfig
                   else (case toml_encode L cfg' of None \<Rightarrow> userConfig | Some s \<Rightarrow> s))))"

text \<open>validateTiKVMemory: a limit below the minimum is rejected, unless the group already runs with
  exactly that limit.\<close>

definition validateTiKVMemory :: "ctx \<Rightarrow> unit io" where
  "validateTiKVMemory c =
     (let L = cx_lib c; co = component_of (c_components c) TiKV in
      case co_resources co of
        None \<Rightarrow> ret ()
      | Some limits \<Rightarrow>
          (case limits ''memory'' of
             None \<Rightarrow> ret ()
           | Some limit \<Rightarrow>
               if q_cmp L limit tikvMinMemory \<ge> 0 then ret ()
               else
                 bnd (exists_group TiKV (c_name c)) (\<lambda>r.
                 bnd (or_wrap ''reading current tikv resources'' r) (\<lambda>g.
                   let rejected = fail (Message (''tikv memory limit '' @ q_string L limit @
                         '' is below the minimum of '' @ q_string L tikvMinMemory @
                         '': TiKV holds about '' @ q_string L tikvRuntimeReserve @
                         '' for its own runtime and is OOM-killed under light load with less'')) in
                   case g of
                     None \<Rightarrow> rejected
                   | Some grp \<Rightarrow>
                       (case g_memory grp of
                          None \<Rightarrow> rejected
                        | Some current \<Rightarrow>
                            if q_cmp L current limit = 0 then ret () else rejected)))))"

section \<open>What resource.Quantity documents\<close>

text \<open>Quantities compare like the numbers they stand for, the literals stand for their values, and
  a value that is not zero is not reported as zero. Value() rounds up to an integer, so it is
  monotone in the comparison.\<close>

definition quantity_laws :: "lib \<Rightarrow> bool" where
  "quantity_laws L \<longleftrightarrow>
     (\<forall>a. q_cmp L a a = 0) \<and>
     (\<forall>a b. q_cmp L a b < 0 \<longleftrightarrow> q_cmp L b a > 0) \<and>
     (\<forall>a b c. q_cmp L a b \<le> 0 \<longrightarrow> q_cmp L b c \<le> 0 \<longrightarrow> q_cmp L a c \<le> 0) \<and>
     (\<forall>a b. q_cmp L a b \<le> 0 \<longrightarrow> q_value L a \<le> q_value L b) \<and>
     q_value L tikvRuntimeReserve = 2560 * 2 ^ 20 \<and>
     q_value L tikvMinMemory = 4 * 2 ^ 30 \<and>
     q_value L tikvMemorySizingThreshold = 8 * 2 ^ 30"

lemma quantity_le_value:
  "quantity_laws L \<Longrightarrow> q_cmp L a b \<ge> 0 \<Longrightarrow> q_value L b \<le> q_value L a"
  unfolding quantity_laws_def by (metis linorder_not_less)

lemma sized_limit_bounds:
  assumes "quantity_laws L" "limits ''memory'' = Some limit" "sizes_memory L limits"
  shows "4 * 2 ^ 30 \<le> q_value L limit \<and> q_value L limit \<le> 8 * 2 ^ 30"
  using assms quantity_le_value [OF assms(1), of limit tikvMinMemory]
    quantity_le_value [OF assms(1), of tikvMemorySizingThreshold limit]
  unfolding sizes_memory_def quantity_laws_def by (auto simp: less_imp_le)

lemma memory_remainder_eq:
  assumes "quantity_laws L" "limits ''memory'' = Some limit" "sizes_memory L limits"
  shows "memory_remainder L limit = (q_value L limit - 2560 * mib) div mib"
    and "1536 \<le> memory_remainder L limit" and "memory_remainder L limit \<le> 5632"
proof -
  have r: "q_value L tikvRuntimeReserve = 2560 * mib"
    using assms(1) by (simp add: quantity_laws_def mib_def)
  have b: "4096 * mib \<le> q_value L limit" "q_value L limit \<le> 8192 * mib"
    using sized_limit_bounds [OF assms] by (simp_all add: mib_def)
  then show eq: "memory_remainder L limit = (q_value L limit - 2560 * mib) div mib"
    unfolding memory_remainder_def r by (subst go_div_nonneg) (simp_all add: mib_def)
  have "1536 * mib div mib \<le> (q_value L limit - 2560 * mib) div mib"
    using b by (intro zdiv_mono1) (simp_all add: mib_def)
  then show "1536 \<le> memory_remainder L limit" by (simp add: eq mib_def)
  have "(q_value L limit - 2560 * mib) div mib \<le> 5632 * mib div mib"
    using b by (intro zdiv_mono1) (simp_all add: mib_def)
  then show "memory_remainder L limit \<le> 5632" by (simp add: eq mib_def)
qed

section \<open>What the edit does to each setting\<close>

definition managed_keys :: "string list list" where
  "managed_keys = tikvReserveSpaceKey # tikvMemoryKeys"

lemmas key_defs = key_block_cache_def key_write_buffer_def key_memory_usage_def
  tikvReserveSpaceKey_def

lemma lookup_set_memory_keys:
  "lookup_path (set_memory_keys L limit cfg) key_block_cache = Some (TStr (in_mib (size_block_cache L limit)))"
  "lookup_path (set_memory_keys L limit cfg) key_write_buffer = Some (TStr (in_mib (size_write_buffer L limit)))"
  "lookup_path (set_memory_keys L limit cfg) key_memory_usage = Some (TStr (in_mib (size_memory_usage L limit)))"
  by (simp_all add: set_memory_keys_def key_defs)

lemma lookup_set_memory_keys_other:
  assumes "\<And>p. p \<in> set tikvMemoryKeys \<Longrightarrow> \<not> prefix p q \<and> \<not> prefix q p"
  shows "lookup_path (set_memory_keys L limit cfg) q = lookup_path cfg q"
  using assms unfolding set_memory_keys_def tikvMemoryKeys_def
  by (simp add: lookup_setKey_other)

lemma reserve_space_unrelated:
  "p \<in> set tikvMemoryKeys \<Longrightarrow> \<not> prefix p tikvReserveSpaceKey \<and> \<not> prefix tikvReserveSpaceKey p"
  by (auto simp: tikvMemoryKeys_def key_defs)

lemma hasKey_set_memory_keys:
  "hasKey (set_memory_keys L limit cfg) tikvReserveSpaceKey \<longleftrightarrow> hasKey cfg tikvReserveSpaceKey"
  by (simp add: hasKey_iff lookup_set_memory_keys_other reserve_space_unrelated)

lemma lookup_setKey_reserve:
  "p \<in> set tikvMemoryKeys \<Longrightarrow> lookup_path (setKey cfg tikvReserveSpaceKey v) p = lookup_path cfg p"
  by (simp add: lookup_setKey_other reserve_space_unrelated)

lemma lookup_tikv_edit_memory:
  assumes "p \<in> set tikvMemoryKeys"
  shows "lookup_path (fst (tikv_edit L limits volume cfg)) p =
    (if sizes_memory L limits \<and> \<not> hasAnyKey cfg tikvMemoryKeys
     then lookup_path (set_memory_keys L (the (limits ''memory'')) cfg) p else lookup_path cfg p)"
  using assms
  by (auto simp: tikv_edit_def Let_def lookup_setKey_reserve sizes_memory_def split: option.splits)

lemma lookup_tikv_edit_reserve:
  "lookup_path (fst (tikv_edit L limits volume cfg)) tikvReserveSpaceKey =
    (if sizes_disk L volume \<and> \<not> hasKey cfg tikvReserveSpaceKey then Some (TStr tikvReserveSpace)
     else lookup_path cfg tikvReserveSpaceKey)"
proof -
  have "tikvReserveSpaceKey \<noteq> []" by (simp add: tikvReserveSpaceKey_def)
  then show ?thesis
    by (auto simp: tikv_edit_def Let_def hasKey_set_memory_keys lookup_setKey_same
        lookup_set_memory_keys_other reserve_space_unrelated)
qed

lemma lookup_tikv_edit_other:
  assumes "\<And>p. p \<in> set managed_keys \<Longrightarrow> \<not> prefix p q \<and> \<not> prefix q p"
  shows "lookup_path (fst (tikv_edit L limits volume cfg)) q = lookup_path cfg q"
  using assms unfolding managed_keys_def
  by (simp add: tikv_edit_def Let_def lookup_setKey_other lookup_set_memory_keys_other)

text \<open>After an edit nothing is left to add.\<close>

lemma lookup_set_memory_keys_some:
  "p \<in> set tikvMemoryKeys \<Longrightarrow> lookup_path (set_memory_keys L limit cfg) p \<noteq> None"
  using lookup_set_memory_keys [of L limit cfg] by (auto simp: tikvMemoryKeys_def)

lemma tikv_edit_done:
  "tikv_edit L limits volume (fst (tikv_edit L limits volume cfg)) = (fst (tikv_edit L limits volume cfg), False)"
proof -
  let ?cfg' = "fst (tikv_edit L limits volume cfg)"
  have "sizes_memory L limits \<Longrightarrow> hasAnyKey ?cfg' tikvMemoryKeys"
    by (cases "hasAnyKey cfg tikvMemoryKeys")
      (auto simp: hasAnyKey_iff hasKey_iff lookup_tikv_edit_memory lookup_set_memory_keys
        tikvMemoryKeys_def)
  moreover have "sizes_disk L volume \<Longrightarrow> hasKey ?cfg' tikvReserveSpaceKey"
    by (simp add: hasKey_iff lookup_tikv_edit_reserve)
  ultimately show ?thesis
    unfolding tikv_edit_def [of L limits volume ?cfg'] Let_def by auto
qed

lemma tikvConfig_result:
  "tikvConfig L u limits volume = u \<or>
     (\<exists>cfg s. toml_decode L u = Some cfg \<and> toml_encode L (fst (tikv_edit L limits volume cfg)) = Some s \<and>
        tikvConfig L u limits volume = s)"
  by (auto simp: tikvConfig_def split: option.splits prod.splits)

lemma tikvConfig_stable:
  assumes "toml_roundtrip L"
  shows "tikvConfig L (tikvConfig L u limits volume) limits volume = tikvConfig L u limits volume"
  using tikvConfig_result [of L u limits volume]
proof (elim disjE exE conjE)
  fix cfg s
  assume "toml_encode L (fst (tikv_edit L limits volume cfg)) = Some s"
    and eq: "tikvConfig L u limits volume = s"
  then have "toml_decode L s = Some (fst (tikv_edit L limits volume cfg))"
    using toml_roundtripD [OF assms] by blast
  then show ?thesis unfolding eq by (simp add: tikvConfig_def tikv_edit_done)
qed simp

interpretation tikv_sizing: config_editor "\<lambda>L u. tikvConfig L u limits volume" for limits volume
  by unfold_locales (rule tikvConfig_stable, assumption, simp add: tikvConfig_def)

section \<open>Properties\<close>

text \<open>C29: for every memory limit the provider sizes (at least 4Gi, below 8Gi), the block cache and the
  write buffers it sets are positive and together with the runtime reserve stay below the limit,
  the memory usage limit covers all three and does not exceed the limit either, and no product
  in the computation comes near the 64-bit range.\<close>

theorem tikv_memory_fits:
  assumes "quantity_laws L" "limits ''memory'' = Some limit" "sizes_memory L limits"
  shows "0 < size_block_cache L limit \<and> 0 < size_write_buffer L limit \<and>
    (size_block_cache L limit + size_write_buffer L limit) * mib + q_value L tikvRuntimeReserve < q_value L limit \<and>
    (size_block_cache L limit + size_write_buffer L limit) * mib + q_value L tikvRuntimeReserve
       \<le> size_memory_usage L limit * mib \<and>
    size_memory_usage L limit * mib \<le> q_value L limit \<and> memory_remainder L limit * 75 < 2 ^ 63"
proof -
  let ?r = "memory_remainder L limit"
  note r = memory_remainder_eq [OF assms]
  have bc: "size_block_cache L limit = ?r * 45 div 100"
    and wb: "size_write_buffer L limit = ?r * 15 div 100"
    and mu: "size_memory_usage L limit = 2560 + ?r * 75 div 100"
    using r(2) assms(1)
    by (simp_all add: size_block_cache_def size_write_buffer_def size_memory_usage_def go_div_nonneg
        quantity_laws_def mib_def)
  have res: "q_value L tikvRuntimeReserve = 2560 * mib"
    using assms(1) by (simp add: quantity_laws_def mib_def)
  have lim: "(2560 + ?r) * 2 ^ 20 \<le> q_value L limit"
    using r(1) by (simp add: mib_def)
  obtain x y z where xyz: "x = ?r * 45 div 100" "y = ?r * 15 div 100" "z = ?r * 75 div 100"
    by blast
  have "x + y \<le> z" "z < ?r" "0 < x" "0 < y"
    using r(2) unfolding xyz by linarith+
  with lim r(2,3) show ?thesis
    unfolding bc wb mu res mib_def xyz [symmetric] by simp
qed

lemma sample_quantity_laws: "quantity_laws sample_lib"
proof -
  have le: "sgn a \<le> 0 \<longleftrightarrow> a \<le> 0" for a :: int
    by (metis linorder_not_less sgn_greater)
  have "sample_quantity ''2560Mi'' = 2560 * 2 ^ 20" "sample_quantity ''4Gi'' = 4 * 2 ^ 30"
    "sample_quantity ''8Gi'' = 8 * 2 ^ 30"
    by (simp_all add: sample_quantity_def)
  then show ?thesis
    unfolding quantity_laws_def tikvRuntimeReserve_def tikvMinMemory_def tikvMemorySizingThreshold_def
    by (simp add: le)
qed

theorem tikv_memory_fits_witness:
  "0 < size_block_cache sample_lib ''6Gi'' \<and> 0 < size_write_buffer sample_lib ''6Gi'' \<and>
    (size_block_cache sample_lib ''6Gi'' + size_write_buffer sample_lib ''6Gi'') * mib
       + q_value sample_lib tikvRuntimeReserve < q_value sample_lib ''6Gi''"
  using tikv_memory_fits [OF sample_quantity_laws, of "[''memory'' \<mapsto> ''6Gi'']" "''6Gi''"]
  by (simp add: sizes_memory_def tikvMinMemory_def tikvMemorySizingThreshold_def sample_quantity_def)

text \<open>C30: what the user's TiKV config sets is kept: a value the user gives to one of the settings the
  provider manages, or to any setting unrelated to them, is the value in the config file the
  group gets.\<close>

theorem tikvConfig_keeps_user_settings:
  assumes "toml_roundtrip L" and "toml_decode L u = Some cfg" and "lookup_path cfg q = Some v"
    and "q \<in> set managed_keys \<or> (\<forall>p \<in> set managed_keys. \<not> prefix p q \<and> \<not> prefix q p)"
  shows "\<exists>cfg'. toml_decode L (tikvConfig L u limits volume) = Some cfg' \<and> lookup_path cfg' q = Some v"
proof -
  have kept: "lookup_path (fst (tikv_edit L limits volume cfg)) q = Some v"
  proof (cases "q \<in> set managed_keys")
    case True
    then consider "q = tikvReserveSpaceKey" | "q \<in> set tikvMemoryKeys"
      by (auto simp: managed_keys_def)
    then show ?thesis
    proof cases
      case 1
      then show ?thesis using assms(3) by (simp add: lookup_tikv_edit_reserve hasKey_iff)
    next
      case 2
      moreover have "hasAnyKey cfg tikvMemoryKeys"
        using 2 assms(3) by (auto simp: hasAnyKey_iff hasKey_iff)
      ultimately show ?thesis using assms(3) by (simp add: lookup_tikv_edit_memory)
    qed
  next
    case False
    then show ?thesis using assms(3,4) by (simp add: lookup_tikv_edit_other)
  qed
  from tikvConfig_result [of L u limits volume] show ?thesis
  proof (elim disjE exE conjE)
    assume "tikvConfig L u limits volume = u"
    then show ?thesis using assms(2,3) by simp
  next
    fix cfg1 s
    assume "toml_decode L u = Some cfg1" "tikvConfig L u limits volume = s"
      "toml_encode L (fst (tikv_edit L limits volume cfg1)) = Some s"
    then show ?thesis using kept assms(2) toml_roundtripD [OF assms(1)] by auto
  qed
qed

theorem tikvConfig_keeps_user_settings_witness:
  "\<exists>L cfg'. tikvConfig L ''in'' Map.empty ''10Gi'' \<noteq> ''in'' \<and>
     toml_decode L (tikvConfig L ''in'' Map.empty ''10Gi'') = Some cfg' \<and>
     lookup_path cfg' [''log'', ''level''] = Some (TStr ''info'')"
proof -
  let ?user = "[''log'' \<mapsto> TTable [''level'' \<mapsto> TStr ''info'']] :: toml_table"
  let ?out = "setKey ?user tikvReserveSpaceKey tikvReserveSpace"
  let ?L = "two_document_lib ?user ?out"
  have "tikvConfig ?L ''in'' Map.empty ''10Gi'' = ''out''"
    by (simp add: tikvConfig_def tikv_edit_def Let_def sizes_memory_def sizes_disk_def
        tikvReserveSpaceThreshold_def sample_quantity_def tikvReserveSpaceKey_def)
  moreover have "\<exists>cfg'. toml_decode ?L (tikvConfig ?L ''in'' Map.empty ''10Gi'') = Some cfg' \<and>
      lookup_path cfg' [''log'', ''level''] = Some (TStr ''info'')"
    by (rule tikvConfig_keeps_user_settings [OF two_document_roundtrip, where cfg = ?user])
      (simp_all add: managed_keys_def tikvMemoryKeys_def key_defs)
  ultimately show ?thesis by (intro exI [of _ ?L]) auto
qed

text \<open>On a limit or volume small enough to be sized, the config file holds the three computed
  memory settings when the user sets none of the three, and the small disk reserve when the user
  sets none; otherwise the user's config is passed on byte for byte.\<close>

theorem tikvConfig_adds:
  assumes "toml_roundtrip L" and "toml_decode L u = Some cfg"
    and "toml_encode L (fst (tikv_edit L limits volume cfg)) \<noteq> None"
  shows "\<exists>cfg'. toml_decode L (tikvConfig L u limits volume) = Some cfg' \<and>
    (\<forall>limit. limits ''memory'' = Some limit \<and> sizes_memory L limits \<and> \<not> hasAnyKey cfg tikvMemoryKeys \<longrightarrow>
       lookup_path cfg' key_block_cache = Some (TStr (in_mib (size_block_cache L limit))) \<and>
       lookup_path cfg' key_write_buffer = Some (TStr (in_mib (size_write_buffer L limit))) \<and>
       lookup_path cfg' key_memory_usage = Some (TStr (in_mib (size_memory_usage L limit)))) \<and>
    (sizes_disk L volume \<and> \<not> hasKey cfg tikvReserveSpaceKey \<longrightarrow>
       lookup_path cfg' tikvReserveSpaceKey = Some (TStr tikvReserveSpace)) \<and>
    (\<not> sizes_memory L limits \<and> \<not> sizes_disk L volume \<longrightarrow> tikvConfig L u limits volume = u)"
proof -
  let ?cfg' = "fst (tikv_edit L limits volume cfg)"
  have same: "\<not> snd (tikv_edit L limits volume cfg) \<Longrightarrow> ?cfg' = cfg"
    by (auto simp: tikv_edit_def Let_def)
  have "toml_decode L (tikvConfig L u limits volume) = Some ?cfg'"
    using assms(2,3) same toml_roundtripD [OF assms(1)]
    by (cases "tikv_edit L limits volume cfg")
      (auto simp: tikvConfig_def tikv_edit_def Let_def split: option.splits if_splits)
  moreover have "lookup_path ?cfg' p = lookup_path (set_memory_keys L limit cfg) p"
    if "limits ''memory'' = Some limit \<and> sizes_memory L limits \<and> \<not> hasAnyKey cfg tikvMemoryKeys"
      and "p \<in> {key_block_cache, key_write_buffer, key_memory_usage}" for limit p
    using that by (simp add: lookup_tikv_edit_memory tikvMemoryKeys_def)
  moreover have "\<not> sizes_memory L limits \<and> \<not> sizes_disk L volume \<Longrightarrow> tikvConfig L u limits volume = u"
    by (simp add: tikvConfig_def)
  ultimately show ?thesis
    using lookup_set_memory_keys [of L _ cfg] lookup_tikv_edit_reserve [of L limits volume cfg]
    by (intro exI [of _ ?cfg']) auto
qed

theorem tikvConfig_adds_witness:
  "\<exists>L cfg'. toml_decode L (tikvConfig L ''in'' [''memory'' \<mapsto> ''6Gi''] ''10Gi'') = Some cfg' \<and>
     lookup_path cfg' key_block_cache = Some (TStr ''1612MiB'') \<and>
     lookup_path cfg' tikvReserveSpaceKey = Some (TStr tikvReserveSpace)"
proof -
  let ?lim = "[''memory'' \<mapsto> ''6Gi'']"
  let ?out = "fst (tikv_edit sample_lib ?lim ''10Gi'' Map.empty)"
  let ?L = "two_document_lib Map.empty ?out"
  have sizes: "sizes_memory ?L ?lim" "sizes_disk ?L ''10Gi''"
    by (simp_all add: sizes_memory_def sizes_disk_def tikvMinMemory_def tikvMemorySizingThreshold_def
        tikvReserveSpaceThreshold_def sample_quantity_def)
  have bc: "in_mib (size_block_cache ?L ''6Gi'') = ''1612MiB''"
    by (simp add: in_mib_def size_block_cache_def memory_remainder_def go_div_def mib_def
        tikvRuntimeReserve_def sample_quantity_def itoa_def nat_base.simps hex_digits_def)
  have out: "fst (tikv_edit ?L ?lim ''10Gi'' Map.empty) = ?out"
    by (simp add: tikv_edit_def Let_def sizes_memory_def sizes_disk_def set_memory_keys_def
        size_block_cache_def size_write_buffer_def size_memory_usage_def memory_remainder_def)
  have "\<not> hasAnyKey Map.empty tikvMemoryKeys \<and> \<not> hasKey Map.empty tikvReserveSpaceKey"
    by (simp add: hasAnyKey_iff hasKey_iff)
  moreover have "toml_encode ?L (fst (tikv_edit ?L ?lim ''10Gi'' Map.empty)) \<noteq> None"
    unfolding out by simp
  moreover have "toml_decode ?L ''in'' = Some Map.empty" by simp
  ultimately obtain cfg' where
    "toml_decode ?L (tikvConfig ?L ''in'' ?lim ''10Gi'') = Some cfg'"
    "lookup_path cfg' key_block_cache = Some (TStr (in_mib (size_block_cache ?L ''6Gi'')))"
    "lookup_path cfg' tikvReserveSpaceKey = Some (TStr tikvReserveSpace)"
    using tikvConfig_adds [OF two_document_roundtrip [of Map.empty ?out], of "''in''" Map.empty ?lim "''10Gi''"]
      sizes by (metis fun_upd_same)
  then show ?thesis unfolding bc by blast
qed

text \<open>The other side of C6: a scalar the user put where a managed table belongs is replaced by that
  table, so TiKV never sees and never reports it.\<close>

lemma tikv_edit_replaces_scalar:
  assumes "cfg ''storage'' = Some (TStr x)" and "sizes_disk L volume"
  shows "\<exists>t. fst (tikv_edit L limits volume cfg) ''storage'' = Some (TTable t)"
  using assms by (auto simp: tikv_edit_def Let_def set_memory_keys_def key_defs split: option.splits toml.splits)

end
