(* ===== verification/ComponentGroups.thy ===== *)
theory ComponentGroups
  imports Certificates TikvSizing
begin

text \<open>
  The objects SyncTiDB applies, from internal/provider/sync.go and pd_dns.go: the Cluster, the five
  component groups, and the init container that holds new PD pods back until DNS knows them.
\<close>

section \<open>The pod overlay\<close>

definition podOverlay :: "ctx \<Rightarrow> comp \<Rightarrow> policy option \<Rightarrow> overlay" where
  "podOverlay c k pol =
     (let labels = pod_labels (cx_lib c) (cx_instance c) (comp_name k);
          pod = \<lparr>po_labels = labels, po_spec = None\<rparr> in
      case pol of
        None \<Rightarrow> \<lparr>ov_pod = Some pod\<rparr>
      | Some p \<Rightarrow>
          (let spec = \<lparr>ps_scheduler = pol_scheduler p, ps_node_selector = pol_node_selector p,
                 ps_affinity = pol_affinity p, ps_tolerations = pol_tolerations p,
                 ps_spread = topology_spread (cx_lib c) p labels, ps_init = []\<rparr> in
           \<lparr>ov_pod = Some (if spec \<noteq> empty_pod_spec then pod\<lparr>po_spec := Some spec\<rparr> else pod)\<rparr>))"

definition clusterRef :: "ctx \<Rightarrow> string" where "clusterRef c = c_name c"

section \<open>The component groups\<close>

text \<open>What the five builders share: a group of one component with its version, image, resources,
  overlay and replicas, and neither volumes, configuration nor TLS.\<close>

definition plain_group :: "ctx \<Rightarrow> comp \<Rightarrow> component_spec \<Rightarrow> string \<Rightarrow> int \<Rightarrow> group" where
  "plain_group c k co img dflt =
     \<lparr>g_meta = c_object_meta c (c_name c), g_comp = k, g_cluster = clusterRef c, g_features = [],
      g_replicas = Some (replicasOrDefault (co_replicas co) dflt), g_version = co_version co,
      g_image = (if img \<noteq> '''' then Some img else None),
      g_cpu = fst (toResources (cx_lib c) (co_resources co)), g_memory = snd (toResources (cx_lib c) (co_resources co)),
      g_volumes = [], g_config = '''', g_overlay = Some (podOverlay c k (co_policy co)),
      g_mysql_tls = None, g_backend_tls = None, g_status = zero_group_status\<rparr>"

definition data_volume :: "ctx \<Rightarrow> component_spec \<Rightarrow> string \<Rightarrow> volume" where
  "data_volume c co ty = dataVolume (cx_lib c) (co_storage co) (api_const (cx_lib c) ty)"

definition buildPDGroup :: "ctx \<Rightarrow> component_spec \<Rightarrow> string \<Rightarrow> group" where
  "buildPDGroup c co img =
     (plain_group c PD co img defaultPDReplicas)
       \<lparr>g_volumes := [data_volume c co ''VolumeMountTypePDData''], g_config := componentConfig (cx_lib c) co\<rparr>"

definition buildTiKVGroup :: "ctx \<Rightarrow> component_spec \<Rightarrow> string \<Rightarrow> group" where
  "buildTiKVGroup c co img =
     (let volume = data_volume c co ''VolumeMountTypeTiKVData'';
          limits = (case co_resources co of None \<Rightarrow> Map.empty | Some l \<Rightarrow> l) in
      (plain_group c TiKV co img defaultTiKVReplicas)
        \<lparr>g_volumes := [volume],
         g_config := tikvConfig (cx_lib c) (componentConfig (cx_lib c) co) limits (vol_storage volume)\<rparr>)"

definition buildTiDBGroup :: "ctx \<Rightarrow> component_spec \<Rightarrow> string \<Rightarrow> group" where
  "buildTiDBGroup c co img =
     (plain_group c TiDB co img defaultTiDBReplicas)
       \<lparr>g_config := componentConfig (cx_lib c) co,
        g_mysql_tls := (if tls_Client (tlsSettings c) then Some True else None)\<rparr>"

definition buildTiFlashGroup :: "ctx \<Rightarrow> component_spec \<Rightarrow> string \<Rightarrow> group" where
  "buildTiFlashGroup c co img =
     (plain_group c TiFlash co img defaultTiFlashReplicas)
       \<lparr>g_volumes := [data_volume c co ''VolumeMountTypeTiFlashData''], g_config := componentConfig (cx_lib c) co\<rparr>"

definition buildTiProxyGroup :: "ctx \<Rightarrow> component_spec \<Rightarrow> string \<Rightarrow> group" where
  "buildTiProxyGroup c co img =
     (let cfg = componentConfig (cx_lib c) co; g = plain_group c TiProxy co img defaultTiProxyReplicas in
      if tls_Client (tlsSettings c) then
        g\<lparr>g_mysql_tls := Some True, g_backend_tls := Some True, g_config := withOptionalClientCerts (cx_lib c) cfg\<rparr>
      else g\<lparr>g_config := cfg\<rparr>)"

section \<open>Waiting for DNS: pd_dns.go\<close>

definition pdDNSWaitContainer :: string where "pdDNSWaitContainer = ''wait-for-dns''"

definition pdDNSWaitScript :: string where
  \<open>pdDNSWaitScript = join_str
     [''ok=0'',
      ''for i in $(seq 720); do'',
      ''  if nslookup "$(hostname).${PEER_DOMAIN}" >/dev/null 2>&1; then'',
      ''    ok=$((ok+1))'',
      ''    [ "$ok" -ge 20 ] && exit 0'',
      ''  else'',
      ''    ok=0'',
      ''  fi'',
      ''  sleep 0.25'',
      ''done'',
      ''echo "DNS name $(hostname).${PEER_DOMAIN} still does not resolve consistently; starting PD anyway"'']
     [CHR 0x0A]\<close>

definition hasPDDNSWait :: "group \<Rightarrow> bool" where
  "hasPDDNSWait g =
     (case g_overlay g of
        None \<Rightarrow> False
      | Some ov \<Rightarrow>
          (case ov_pod ov of
             None \<Rightarrow> False
           | Some pod \<Rightarrow>
               (case po_spec pod of
                  None \<Rightarrow> False
                | Some spec \<Rightarrow> \<exists>ic \<in> set (ps_init spec). ct_name ic = pdDNSWaitContainer)))"

definition dns_wait_container :: "ctx \<Rightarrow> string \<Rightarrow> string \<Rightarrow> container" where
  "dns_wait_container c gname img =
     (let small = [(''cpu'', ''100m''), (''memory'', ''64Mi'')] in
      \<lparr>ct_name = pdDNSWaitContainer, ct_image = img, ct_command = [''/bin/sh'', ''-c'', pdDNSWaitScript],
       ct_env = [(''PEER_DOMAIN'', gname @ ''-pd-peer.'' @ c_namespace c)], ct_requests = small, ct_limits = small\<rparr>)"

definition add_init :: "group \<Rightarrow> container \<Rightarrow> group" where
  "add_init g ic =
     (let ov = (case g_overlay g of None \<Rightarrow> \<lparr>ov_pod = None\<rparr> | Some ov \<Rightarrow> ov);
          pod = (case ov_pod ov of None \<Rightarrow> empty_pod_overlay | Some pod \<Rightarrow> pod);
          spec = (case po_spec pod of None \<Rightarrow> empty_pod_spec | Some spec \<Rightarrow> spec) in
      g\<lparr>g_overlay := Some (ov\<lparr>ov_pod := Some (pod\<lparr>po_spec := Some (spec\<lparr>ps_init := ps_init spec @ [ic]\<rparr>)\<rparr>)\<rparr>)\<rparr>)"

definition addPDDNSWait :: "ctx \<Rightarrow> group \<Rightarrow> string \<Rightarrow> group io" where
  "addPDDNSWait c g img =
     (if img = '''' then ret g
      else
        (let add = ret (add_init g (dns_wait_container c (om_name (g_meta g)) img)) in
         bnd (get_group PD (om_name (g_meta g))) (\<lambda>r.
           case r of
             Inl e \<Rightarrow> if e = NotFound then add else fail (Wrapped ''get PD group'' (Passed e))
           | Inr existing \<Rightarrow> if \<not> hasPDDNSWait existing then ret g else add)))"

section \<open>The Cluster\<close>

definition with_source :: "cluster \<Rightarrow> string \<Rightarrow> cluster" where
  "with_source cl source =
     (if source \<noteq> '''' then cl\<lparr>cl_meta := (cl_meta cl)\<lparr>om_annotations := [tlsSourceAnnotation \<mapsto> source]\<rparr>\<rparr> else cl)"

definition buildCluster :: "ctx \<Rightarrow> cluster io" where
  "buildCluster c =
     (let cl = \<lparr>cl_meta = c_object_meta c (c_name c), cl_bootstrap_sql = None, cl_tls = None, cl_gates = [],
                cl_security = None\<rparr> in
      bnd (get_cluster (c_name c)) (\<lambda>r.
        case r of
          Inl e \<Rightarrow>
            if e = NotFound then
              (let settings = tlsSettings c;
                   cl = with_source (cl\<lparr>cl_bootstrap_sql := Some (bootstrapConfigMapName (c_name c)),
                          cl_tls := (if tls_Cluster settings then Some True else None)\<rparr>) (tlsSource settings);
                   (gates, security) = newClusterSessionTokenSigning c in
               ret (cl\<lparr>cl_gates := gates, cl_security := security\<rparr>))
            else fail (Passed e)
        | Inr existing \<Rightarrow>
            bnd (existingClusterSessionTokenSigning c existing) (\<lambda>(gates, security).
              ret ((with_source (cl\<lparr>cl_bootstrap_sql := cl_bootstrap_sql existing, cl_tls := cl_tls existing\<rparr>)
                     (lookup_str (om_annotations (cl_meta existing)) tlsSourceAnnotation))
                   \<lparr>cl_gates := gates, cl_security := security\<rparr>))))"

section \<open>Optional components\<close>

text \<open>syncTiFlash and syncTiProxy differ in the component only: applied while it is enabled, deleted once
  it is not.\<close>

definition remove_group :: "ctx \<Rightarrow> comp \<Rightarrow> unit io" where
  "remove_group c k =
     bnd (exists_group k (c_name c)) (\<lambda>r.
     bnd (or_wrap (''get '' @ comp_name k @ '' group'') r) (\<lambda>found.
       case found of
         None \<Rightarrow> ret ()
       | Some g \<Rightarrow> if \<not> not_deleting (g_meta g) then ret () else delete_obj (KGroup k) (om_name (g_meta g))))"

definition syncTiFlash :: "ctx \<Rightarrow> string \<Rightarrow> cluster \<Rightarrow> unit io" where
  "syncTiFlash c spec owner =
     (case enabledTiFlash (c_components c) of
        Some co \<Rightarrow> applyOwnedByCluster c owner
          (OGroup (buildTiFlashGroup c co (resolveImage (cx_lib c) spec (comp_name TiFlash) co)))
      | None \<Rightarrow> remove_group c TiFlash)"

definition syncTiProxy :: "ctx \<Rightarrow> string \<Rightarrow> cluster \<Rightarrow> unit io" where
  "syncTiProxy c spec owner =
     (case enabledTiProxy (c_components c) of
        Some co \<Rightarrow> applyOwnedByCluster c owner
          (OGroup (buildTiProxyGroup c co (resolveImage (cx_lib c) spec (comp_name TiProxy) co)))
      | None \<Rightarrow> remove_group c TiProxy)"

section \<open>Seeding a new Instance\<close>

definition clusterReady :: "ctx \<Rightarrow> bool io" where
  "clusterReady c =
     bnd (get_group PD (c_name c)) (\<lambda>r. case r of Inl _ \<Rightarrow> ret False | Inr pd \<Rightarrow>
     bnd (get_group TiKV (c_name c)) (\<lambda>r. case r of Inl _ \<Rightarrow> ret False | Inr tikv \<Rightarrow>
     bnd (get_group TiDB (c_name c)) (\<lambda>r. case r of Inl _ \<Rightarrow> ret False | Inr tidb \<Rightarrow>
     ret (groupIsReady (g_replicas pd) (gs_ready (g_status pd)) \<and>
          groupIsReady (g_replicas tikv) (gs_ready (g_status tikv)) \<and>
          groupIsReady (g_replicas tidb) (gs_ready (g_status tidb))))))"

definition reconcileDataSource :: "ctx \<Rightarrow> unit io" where
  "reconcileDataSource c =
     (if \<not> in_has_data_source (cx_instance c) then ret ()
      else
        bnd (clusterReady c) (\<lambda>ready.
          if \<not> ready then
            bnd (do_write (SetDataSourceStatus False ''Waiting for the TiDB cluster to be ready before restoring''))
              (\<lambda>_. ret ())
          else bnd (do_write ReconcileDataSource) (ok_or_wrap ''reconcile data source'')))"

section \<open>The frozen fields of the Cluster\<close>

text \<open>One pass of the provider over an existing Cluster: whatever the Instance asks for by then and
  whatever else the cluster answers, the provider applies the Cluster it builds.\<close>

inductive cluster_pass :: "string \<Rightarrow> cluster \<Rightarrow> cluster \<Rightarrow> bool" where
  "c_name c = n \<Longrightarrow> rd_get (ev_cluster E) h n = Inr cl \<Longrightarrow> buildCluster c E h = (Inr cl', t) \<Longrightarrow> cluster_pass n cl cl'"

inductive_cases cluster_passE: "cluster_pass n cl cl'"

abbreviation source_of :: "cluster \<Rightarrow> string" where
  "source_of cl \<equiv> lookup_str (om_annotations (cl_meta cl)) tlsSourceAnnotation"

lemma with_source_simps [simp]:
  "cl_bootstrap_sql (with_source cl s) = cl_bootstrap_sql cl" "cl_tls (with_source cl s) = cl_tls cl"
  "s \<noteq> '''' \<Longrightarrow> source_of (with_source cl s) = s"
  by (simp_all add: with_source_def lookup_str_def)

lemma cluster_pass_keeps:
  assumes "cluster_pass n cl cl'"
  shows "cl_bootstrap_sql cl' = cl_bootstrap_sql cl \<and> cl_tls cl' = cl_tls cl \<and>
    (source_of cl \<noteq> '''' \<longrightarrow> source_of cl' = source_of cl)"
  using assms
  by (elim cluster_passE) (auto simp: buildCluster_def get_cluster_def io_Inr split: prod.splits)

interpretation frozen: one_way "cluster_pass n"
  "\<lambda>cl cl'. cl_bootstrap_sql cl' = cl_bootstrap_sql cl \<and> cl_tls cl' = cl_tls cl \<and>
    (source_of cl \<noteq> '''' \<longrightarrow> source_of cl' = source_of cl)" for n
  by unfold_locales (use cluster_pass_keeps in auto)

text \<open>C23: the fields of the Cluster that TiDB Operator freezes never change once the Cluster exists: through
  any number of passes, with any edits of the Instance between them, the bootstrap SQL, the TLS
  switch and the recorded certificate source stay those the Cluster was created with.\<close>

theorem cluster_frozen_fields:
  assumes "(cluster_pass n)\<^sup>*\<^sup>* cl cl'"
  shows "cl_bootstrap_sql cl' = cl_bootstrap_sql cl \<and> cl_tls cl' = cl_tls cl \<and>
    (source_of cl \<noteq> '''' \<longrightarrow> source_of cl' = source_of cl)"
  by (rule frozen.steps_le [OF assms])

theorem cluster_frozen_fields_witness:
  "\<exists>cl'. cluster_pass ''db'' (sample_cluster\<lparr>cl_tls := Some True\<rparr>) cl' \<and> cl_tls cl' = Some True"
proof -
  let ?cl = "sample_cluster\<lparr>cl_tls := Some True\<rparr>"
  let ?E = "env_of (empty_store\<lparr>so_cluster := [''db'' \<mapsto> ?cl]\<rparr>)"
  obtain cl' t where run: "buildCluster sample_ctx ?E [] = (Inr cl', t)"
    by (simp add: buildCluster_def existingClusterSessionTokenSigning_def hasFeatureGate_def sample_cluster_def
        enabledTiProxy_def io_eval)
  then have pass: "cluster_pass ''db'' ?cl cl'"
    by (intro cluster_pass.intros [of sample_ctx _ ?E "[]"]) simp_all
  from cluster_frozen_fields [OF r_into_rtranclp [where r = "cluster_pass ''db''", OF pass]] pass show ?thesis by auto
qed

section \<open>Holding back PD\<close>

lemma hasPDDNSWait_add_init:
  "hasPDDNSWait (add_init g ic) \<longleftrightarrow> hasPDDNSWait g \<or> ct_name ic = pdDNSWaitContainer"
  by (auto simp: hasPDDNSWait_def add_init_def Let_def empty_pod_overlay_def empty_pod_spec_def split: option.split)

lemma hasPDDNSWait_buildPDGroup [simp]: "\<not> hasPDDNSWait (buildPDGroup c co img)"
  by (auto simp: hasPDDNSWait_def buildPDGroup_def plain_group_def podOverlay_def Let_def split: option.split)

text \<open>A new PD group gets the init container that waits for DNS, and it stays with the PD groups created
  with it: upgrading the provider never adds it to, nor removes it from, the pods of an existing
  group.\<close>

theorem pd_dns_wait_settled:
  assumes "img \<noteq> ''''" "om_name (g_meta (buildPDGroup c co img)) = n"
    and "addPDDNSWait c (buildPDGroup c co img) img E h = (Inr g, t)"
  shows "(rd_get (ev_group E PD) h n = Inl NotFound \<longrightarrow> hasPDDNSWait g) \<and>
    (\<forall>existing. rd_get (ev_group E PD) h n = Inr existing \<longrightarrow>
       hasPDDNSWait g = hasPDDNSWait existing \<and> (\<not> hasPDDNSWait existing \<longrightarrow> g = buildPDGroup c co img))"
  using assms(3)
  by (auto simp: addPDDNSWait_def Let_def assms(1,2) get_group_def io_Inr hasPDDNSWait_add_init dns_wait_container_def
      split: sum.splits if_splits)

theorem pd_dns_wait_settled_witness:
  "\<exists>g t. addPDDNSWait sample_ctx (buildPDGroup sample_ctx zero_component ''pd:v8'') ''pd:v8'' (env_of empty_store) [] = (Inr g, t) \<and>
     hasPDDNSWait g"
proof -
  let ?g = "buildPDGroup sample_ctx zero_component ''pd:v8''"
  obtain g t where run: "addPDDNSWait sample_ctx ?g ''pd:v8'' (env_of empty_store) [] = (Inr g, t)"
    by (simp add: addPDDNSWait_def io_eval)
  from pd_dns_wait_settled [OF _ refl run] run show ?thesis by simp
qed

section \<open>Optional components come and go\<close>

lemma remove_group_writes:
  assumes "serves (ev_group E k) G"
  shows "runs E (\<lambda>q. is_write q \<longrightarrow> (\<exists>g. G (c_name c) = Some g \<and> not_deleting (g_meta g) \<and>
     q = Delete (KGroup k) (om_name (g_meta g)))) (\<lambda>_. True) (remove_group c k)"
  unfolding remove_group_def delete_obj_def
  by (rule runs_bnd_exists_group [OF assms]) (auto intro!: runs_intro split: option.split)

end
