(* ===== verification/Pitr.thy ===== *)
theory Pitr
  imports Backups ComponentGroups
begin

text \<open>
  internal/provider/pitr.go: the log backup of an Instance with point-in-time recovery, the restorable
  window, and point-in-time restores. A TSO is a 64-bit word.
\<close>

section \<open>Names and constants\<close>

definition logBackupSuffix :: string where "logBackupSuffix = ''-pitr''"
definition annotationLogBackupStorage :: string where "annotationLogBackupStorage = ''tidb.openeverest.io/backup-storage''"
definition annotationPITRBaseBackup :: string where "annotationPITRBaseBackup = ''tidb.openeverest.io/pitr-base-backup''"
definition logBackupMaxLag :: duration where "logBackupMaxLag = 15 * minute"
definition brRestoreWithLogBackupVersion :: string where "brRestoreWithLogBackupVersion = ''v8.5.5''"
definition brFinalizer :: string where "brFinalizer = ''pingcap.com/finalizer''"
definition reasonPITRStorageInvalid :: string where "reasonPITRStorageInvalid = ''PITRStorageInvalid''"

definition pitrReasonWindowAvailable :: string where "pitrReasonWindowAvailable = ''WindowAvailable''"
definition pitrReasonLagging :: string where "pitrReasonLagging = ''LogBackupLagging''"
definition pitrReasonStarting :: string where "pitrReasonStarting = ''LogBackupStarting''"
definition pitrReasonFailed :: string where "pitrReasonFailed = ''LogBackupFailed''"
definition pitrReasonNoBaseBackup :: string where "pitrReasonNoBaseBackup = ''NoBaseBackup''"

definition logBackupName :: "string \<Rightarrow> string" where "logBackupName i = i @ logBackupSuffix"

definition logBackupPrefix :: "string \<Rightarrow> string \<Rightarrow> string" where
  "logBackupPrefix namespace i = namespace @ ''/'' @ i @ ''/_log''"

section \<open>Running the log backup\<close>

definition pitrStorage :: "instance_backup option \<Rightarrow> backup_storage_ref option" where
  "pitrStorage b =
     (case b of
        None \<Rightarrow> None
      | Some ib \<Rightarrow> if \<not> ib_enabled ib then None else find (\<lambda>s. bs_pitr s = Some True) (ib_storages ib))"

definition readyForLogBackup :: "ctx \<Rightarrow> bool io" where
  "readyForLogBackup c =
     bnd get_data_source_status (\<lambda>ds.
       if (case ds of None \<Rightarrow> False | Some s \<Rightarrow> \<not> ds_done s) then ret False else clusterReady c)"

definition buildLogBackup :: "ctx \<Rightarrow> backup_storage \<Rightarrow> s3_spec \<Rightarrow> br_backup" where
  "buildLogBackup c storage s3 =
     (let name = logBackupName (c_name c) in
      (zero_br_backup (c_namespace c) name)
        \<lparr>bb_meta := (bare_meta (c_namespace c) name)\<lparr>om_annotations := [annotationLogBackupStorage \<mapsto> bst_name storage]\<rparr>,
         bb_mode := ModeLog, bb_log_start := True, bb_clean := CleanDelete, bb_account := backupManagerName,
         bb_s3 := Some (brS3Storage (cx_lib c) s3 (logBackupPrefix (c_namespace c) (c_name c)) (brSecretName name)),
         bb_br := Some \<lparr>brc_cluster = c_name c, brc_namespace = c_namespace c\<rparr>\<rparr>)"

definition deleteSecretIfExists :: "string \<Rightarrow> unit io" where
  "deleteSecretIfExists name =
     bnd (exists_secret name) (\<lambda>r.
     bnd (or_fail r) (\<lambda>found.
       case found of None \<Rightarrow> ret () | Some sec \<Rightarrow> delete_obj KSecret (om_name (sec_meta sec))))"

definition log_storage_of :: "br_backup \<Rightarrow> string" where
  "log_storage_of b = lookup_str (om_annotations (bb_meta b)) annotationLogBackupStorage"

text \<open>The rest of syncLogBackup, once the log backup is to run on a storage.\<close>

definition run_log_backup :: "ctx \<Rightarrow> string \<Rightarrow> unit io" where
  "run_log_backup c ref =
     bnd (get_backup_storage ref) (\<lambda>r.
       case r of
         Inl e \<Rightarrow>
           if e = NotFound then
             fail (BackupConfigError reasonPITRStorageInvalid
               (''BackupStorage '' @ go_quote ref @ '' for point-in-time recovery not found''))
           else fail (Passed e)
       | Inr bs \<Rightarrow>
           (case bst_s3 bs of
              None \<Rightarrow> fail (BackupConfigError reasonPITRStorageInvalid
                (''BackupStorage '' @ go_quote (bst_name bs) @ '' is not S3-backed''))
            | Some s3 \<Rightarrow>
                thn (ensureBRCredentials c (OInstance (cx_instance c)) (brSecretName (logBackupName (c_name c))) bs)
                (thn (ensureBackupManagerRBAC c (c_namespace c))
                (apply_obj (OBRBackup (buildLogBackup c bs s3))))))"

definition syncLogBackup :: "ctx \<Rightarrow> unit io" where
  "syncLogBackup c =
     (let storage = pitrStorage (in_backup (cx_instance c)); name = logBackupName (c_name c) in
      bnd (exists_br_backup name) (\<lambda>r.
      bnd (or_wrap ''get log backup'' r) (\<lambda>found.
        case found of
          Some b \<Rightarrow>
            if \<not> not_deleting (bb_meta b) then ret ()
            else
              (case storage of
                 None \<Rightarrow> delete_obj KBRBackup (om_name (bb_meta b))
               | Some st \<Rightarrow>
                   if log_storage_of b \<noteq> bs_ref st then delete_obj KBRBackup (om_name (bb_meta b))
                   else run_log_backup c (bs_ref st))
        | None \<Rightarrow>
            (case storage of
               None \<Rightarrow> deleteSecretIfExists (brSecretName name)
             | Some st \<Rightarrow> bnd (readyForLogBackup c) (\<lambda>ready. if \<not> ready then ret () else run_log_backup c (bs_ref st))))))"

definition stopLogBackup :: "ctx \<Rightarrow> bool io" where
  "stopLogBackup c =
     bnd (exists_br_backup (logBackupName (c_name c))) (\<lambda>r.
     bnd (or_wrap ''get log backup'' r) (\<lambda>found.
       case found of
         None \<Rightarrow> ret True
       | Some b \<Rightarrow>
           if not_deleting (bb_meta b) then
             bnd (do_write (Delete KBRBackup (om_name (bb_meta b)))) (\<lambda>r.
             thn (ok_or_wrap ''delete log backup'' r) (ret False))
           else
             bnd (exists_cluster (c_name c)) (\<lambda>r.
             bnd (or_wrap ''get cluster'' r) (\<lambda>cluster.
               let (finalizers, removed) = remove_finalizer (cx_lib c) (om_finalizers (bb_meta b)) brFinalizer in
               if cluster = None \<and> removed then
                 bnd (do_write (Update (OBRBackup (b\<lparr>bb_meta := (bb_meta b)\<lparr>om_finalizers := finalizers\<rparr>\<rparr>)))) (\<lambda>r.
                 thn (ok_or_wrap ''release log backup'' (ignore_not_found r)) (ret False))
               else ret False))))"

text \<open>The version of a TiKV group that is not there is the empty string.\<close>

definition restoreBlockedByLogBackup :: "ctx \<Rightarrow> restore_exec option io" where
  "restoreBlockedByLogBackup c =
     bnd (exists_br_backup (logBackupName (c_name c))) (\<lambda>r.
     bnd (or_fail r) (\<lambda>found.
       case found of
         None \<Rightarrow> ret None
       | Some b \<Rightarrow>
           if \<not> not_deleting (bb_meta b) then
             ret (Some (restore_says RsPending (''Waiting for the log backup of Instance '' @ go_quote (c_name c) @ '' to stop'')))
           else
             bnd (get_group TiKV (c_name c)) (\<lambda>r.
             bnd (case r of
                    Inr g \<Rightarrow> ret (g_version g)
                  | Inl e \<Rightarrow> if e = NotFound then ret '''' else fail (Wrapped ''get tikv group'' (Passed e))) (\<lambda>v.
             if semver_valid (cx_lib c) v \<and> semver_compare (cx_lib c) v brRestoreWithLogBackupVersion \<ge> 0 then ret None
             else
               ret (Some (restore_says RsFailed
                 (''Turn off point-in-time recovery on Instance '' @ go_quote (c_name c) @
                  '' before restoring into it: BR before TiDB '' @ brRestoreWithLogBackupVersion @
                  '' can't restore into a cluster while its log backup runs'')))))))"

section \<open>The log stream\<close>

record logStream =
  ls_start :: "64 word"
  ls_truncated :: "64 word"
  ls_checkpoint :: "64 word"

text \<open>InstanceBackupStoragePITRStatus; the state is Available or Unavailable.\<close>

record pitr_status =
  pw_available :: bool
  pw_earliest :: "time option"
  pw_latest :: "time option"
  pw_reason :: string
  pw_message :: string

definition unavailablePITR :: "string \<Rightarrow> string \<Rightarrow> pitr_status" where
  "unavailablePITR reason message =
     \<lparr>pw_available = False, pw_earliest = None, pw_latest = None, pw_reason = reason, pw_message = message\<rparr>"

text \<open>A TSO of the BR Backup's status, and the error that wraps one that does not parse.\<close>

definition read_ts :: "ctx \<Rightarrow> br_backup \<Rightarrow> string \<Rightarrow> string \<Rightarrow> 64 word io" where
  "read_ts c b what s =
     (case ts_parse (cx_lib c) s of
        Inl e \<Rightarrow> fail (Wrapped (''log backup '' @ om_name (bb_meta b) @ '' '' @ what) (Message e))
      | Inr ts \<Rightarrow> ret ts)"

text \<open>The stream, or the status that says why there is none.\<close>

definition openLogStream :: "ctx \<Rightarrow> string \<Rightarrow> string \<Rightarrow> (pitr_status + logStream) io" where
  "openLogStream c i storage =
     bnd (exists_br_backup (logBackupName i)) (\<lambda>r.
     bnd (or_wrap ''get log backup'' r) (\<lambda>found.
       case found of
         None \<Rightarrow> ret (Inl (unavailablePITR pitrReasonStarting ''The log backup starts once the cluster is ready''))
       | Some b \<Rightarrow>
           if \<not> not_deleting (bb_meta b) \<or> log_storage_of b \<noteq> storage then
             ret (Inl (unavailablePITR pitrReasonStarting (''The log backup is moving to storage '' @ go_quote storage)))
           else if bb_phase b = BrFailed \<or> bb_phase b = BrInvalid then
             ret (Inl (unavailablePITR pitrReasonFailed (brFailureMessage b)))
           else
             bnd (read_ts c b ''start'' (bb_commit_ts b)) (\<lambda>start.
             bnd (read_ts c b ''checkpoint'' (bb_checkpoint_ts b)) (\<lambda>checkpoint.
             bnd (read_ts c b ''truncation'' (bb_truncate_ts b)) (\<lambda>truncated.
             if start = 0 \<or> checkpoint = 0 then
               ret (Inl (unavailablePITR pitrReasonStarting ''The log backup is starting''))
             else ret (Inr \<lparr>ls_start = start, ls_truncated = truncated, ls_checkpoint = checkpoint\<rparr>))))))"

section \<open>Base backups\<close>

record pitrBase =
  pb_name :: string
  pb_ts :: "64 word"

text \<open>A full backup the stream covers onward: complete, no log backup, its snapshot at or after the floor.\<close>

definition base_of :: "lib \<Rightarrow> 64 word \<Rightarrow> backup \<Rightarrow> br_backup \<Rightarrow> pitrBase option" where
  "base_of L floor b snapshot =
     (if bb_mode snapshot = ModeLog \<or> bb_phase snapshot \<noteq> BrComplete then None
      else
        (case ts_parse L (bb_commit_ts snapshot) of
           Inl _ \<Rightarrow> None
         | Inr ts \<Rightarrow> if ts < floor then None else Some \<lparr>pb_name = om_name (bk_meta b), pb_ts = ts\<rparr>))"

fun collect_bases :: "ctx \<Rightarrow> string \<Rightarrow> string \<Rightarrow> 64 word \<Rightarrow> backup list \<Rightarrow> pitrBase list io" where
  "collect_bases c i storage floor [] = ret []"
| "collect_bases c i storage floor (b # bs) =
     (if bk_instance b \<noteq> Some i \<or> bk_storage b \<noteq> storage then collect_bases c i storage floor bs
      else
        bnd (get_br_backup (om_name (bk_meta b))) (\<lambda>r.
          case r of
            Inl e \<Rightarrow>
              if e = NotFound then collect_bases c i storage floor bs
              else fail (Wrapped (''get BR backup '' @ om_name (bk_meta b)) (Passed e))
          | Inr snapshot \<Rightarrow>
              bnd (collect_bases c i storage floor bs) (\<lambda>rest.
              ret (case base_of (cx_lib c) floor b snapshot of None \<Rightarrow> rest | Some base \<Rightarrow> base # rest))))"

text \<open>sort.Slice leaves the order of backups with the same TSO open; here they keep theirs.\<close>

definition pitrBases :: "ctx \<Rightarrow> string \<Rightarrow> string \<Rightarrow> logStream \<Rightarrow> pitrBase list io" where
  "pitrBases c i storage stream =
     bnd (ask ListBackups (\<lambda>E h. ev_backups E h)) (\<lambda>r.
     bnd (or_wrap ''list backups'' r) (\<lambda>backups.
     bnd (collect_bases c i storage (max (ls_start stream) (ls_truncated stream)) backups) (\<lambda>bases.
     ret (sort_key pb_ts bases))))"

section \<open>The restorable window\<close>

text \<open>time.UnixMilli of the upper 46 bits.\<close>

definition tsTime :: "64 word \<Rightarrow> time" where
  "tsTime ts = uint (drop_bit 18 ts) * 1000000"

definition formatTS :: "lib \<Rightarrow> 64 word \<Rightarrow> string" where
  "formatTS L ts = time_rfc3339 L (tsTime ts)"

text \<open>Duration.Round to a minute, for a duration that is not negative.\<close>

definition round_minute :: "duration \<Rightarrow> duration" where
  "round_minute d =
     (let r = d mod minute in
      if r + r < minute then d - r else if d + minute - r < 2 ^ 63 then d + minute - r else 2 ^ 63 - 1)"

definition available_window :: "lib \<Rightarrow> time \<Rightarrow> logStream \<Rightarrow> pitrBase \<Rightarrow> pitr_status" where
  "available_window L now stream base =
     (let latest = tsTime (ls_checkpoint stream);
          st = \<lparr>pw_available = True, pw_earliest = Some (tsTime (pb_ts base)), pw_latest = Some latest,
                pw_reason = pitrReasonWindowAvailable, pw_message = ''''\<rparr>;
          lag = time_sub now latest in
      if lag > logBackupMaxLag then
        st\<lparr>pw_reason := pitrReasonLagging,
           pw_message := ''The log backup checkpoint is '' @ duration_string L (round_minute lag) @
             '' behind; check the TiKV logs and `br log status`''\<rparr>
      else st)"

definition pitrWindow :: "ctx \<Rightarrow> string \<Rightarrow> time \<Rightarrow> pitr_status io" where
  "pitrWindow c storage now =
     bnd (openLogStream c (c_name c) storage) (\<lambda>opened.
       case opened of
         Inl unavailable \<Rightarrow> ret unavailable
       | Inr stream \<Rightarrow>
           bnd (pitrBases c (c_name c) storage stream) (\<lambda>bases.
             case bases of
               [] \<Rightarrow> ret (unavailablePITR pitrReasonNoBaseBackup
                 (''Take a full backup to storage '' @ go_quote storage @
                  '': point-in-time recovery starts from one taken after the log backup started at '' @
                  formatTS (cx_lib c) (ls_start stream)))
             | base # _ \<Rightarrow>
                 if ls_checkpoint stream < pb_ts base then
                   ret (unavailablePITR pitrReasonStarting
                     (''The log backup hasn't reached backup '' @ go_quote (pb_name base) @ '' yet''))
                 else ret (available_window (cx_lib c) now stream base)))"

fun storage_statuses :: "ctx \<Rightarrow> backup_storage_ref list \<Rightarrow> (string \<times> pitr_status option) list io" where
  "storage_statuses c [] = ret []"
| "storage_statuses c (s # ss) =
     bnd (if bs_pitr s = Some True then
            bnd (ask Now (\<lambda>E h. ev_now E h)) (\<lambda>now.
            bnd (pitrWindow c (bs_ref s) now) (\<lambda>window. ret (Some window)))
          else ret None) (\<lambda>p.
     bnd (storage_statuses c ss) (\<lambda>rest. ret ((bs_ref s, p) # rest)))"

definition BackupStorageStatuses :: "ctx \<Rightarrow> (string \<times> pitr_status option) list io" where
  "BackupStorageStatuses c =
     (case in_backup (cx_instance c) of
        None \<Rightarrow> ret []
      | Some ib \<Rightarrow> if \<not> ib_enabled ib then ret [] else storage_statuses c (ib_storages ib))"

section \<open>Point-in-time restores\<close>

text \<open>The loop that picks the last base at or before the target.\<close>

fun pick_base :: "64 word \<Rightarrow> pitrBase option \<Rightarrow> pitrBase list \<Rightarrow> pitrBase option" where
  "pick_base target chosen [] = chosen"
| "pick_base target chosen (b # bs) = pick_base target (if pb_ts b \<le> target then Some b else chosen) bs"

definition pitr_restore :: "ctx \<Rightarrow> restore \<Rightarrow> string \<Rightarrow> pitrBase \<Rightarrow> 64 word \<Rightarrow> s3_spec \<Rightarrow> br_restore" where
  "pitr_restore c rst source base target s3 =
     (let name = om_name (rs_meta rst); ns = om_namespace (rs_meta rst) in
      (zero_br_restore ns name)
        \<lparr>br_meta := (bare_meta ns name)\<lparr>om_annotations := [annotationPITRBaseBackup \<mapsto> pb_name base]\<rparr>,
         br_pitr := True, br_account := backupManagerName,
         br_s3 := Some (brS3Storage (cx_lib c) s3 (logBackupPrefix ns source) (brSecretName name)),
         br_full_s3 := Some (brS3Storage (cx_lib c) s3 (backupPrefix ns source (pb_name base)) (brSecretName name)),
         br_restored_ts := nat_base 10 (unat target),
         br_br := Some \<lparr>brc_cluster = c_name c, brc_namespace = c_namespace c\<rparr>\<rparr>)"

text \<open>The end of startPointInTimeRestore: the BR Restore from the chosen base to the target.\<close>

definition create_pitr_restore :: "ctx \<Rightarrow> restore \<Rightarrow> string \<Rightarrow> string \<Rightarrow> pitrBase \<Rightarrow> 64 word \<Rightarrow> restore_exec io" where
  "create_pitr_restore c rst source storageName base target =
     bnd (get_backup_storage storageName) (\<lambda>r.
     bnd (or_fail r) (\<lambda>storage.
       case bst_s3 storage of
         None \<Rightarrow> ret (restore_says RsFailed (''BackupStorage '' @ go_quote (bst_name storage) @ '' is not S3-backed''))
       | Some s3 \<Rightarrow>
           thn (ensureBRCredentials c (ORestore rst) (brSecretName (om_name (rs_meta rst))) storage)
           (thn (ensureBackupManagerRBAC c (om_namespace (rs_meta rst)))
           (let brst = pitr_restore c rst source base target s3 in
            bnd (or_fail (owned_meta (cx_lib c) (ORestore rst) (OBRRestore brst))) (\<lambda>m.
            bnd (do_write (Create (OBRRestore (brst\<lparr>br_meta := m\<rparr>)))) (\<lambda>r.
            thn (ok_or_wrap ''create BR restore'' (if r = Some AlreadyExists then None else r))
            (ret (brRestoreExecutionStatus (brst\<lparr>br_meta := m\<rparr>)))))))))"

definition no_base :: "lib \<Rightarrow> pit_source \<Rightarrow> string \<Rightarrow> logStream \<Rightarrow> 64 word \<Rightarrow> pitrBase list \<Rightarrow> restore_exec" where
  "no_base L pit source stream target bases =
     (if pit_target pit \<noteq> RecoverDate then
        restore_says RsPending (''Waiting for a full backup of Instance '' @ go_quote source @ '' on storage '' @
          go_quote (pit_storage pit) @ '' that the log backup covers'')
      else if bases = [] then
        restore_says RsFailed (formatTS L target @ '' isn't restorable: Instance '' @ go_quote source @
          '' has no full backup on storage '' @ go_quote (pit_storage pit) @ '' since its log backup started at '' @
          formatTS L (ls_start stream))
      else
        restore_says RsFailed (formatTS L target @ '' is before the restorable window of Instance '' @ go_quote source @
          '' on storage '' @ go_quote (pit_storage pit) @ '', which starts at '' @ formatTS L (pb_ts (hd bases))))"

definition start_from_stream :: "ctx \<Rightarrow> restore \<Rightarrow> string \<Rightarrow> pit_source \<Rightarrow> logStream \<Rightarrow> restore_exec io" where
  "start_from_stream c rst source pit stream =
     (let L = cx_lib c;
          target = (if pit_target pit = RecoverDate then time_to_ts L (pit_date pit) else ls_checkpoint stream) in
      if pit_target pit = RecoverDate \<and> target > ls_checkpoint stream then
        ret (restore_says RsPending (''Waiting for the log backup of Instance '' @ go_quote source @ '' to reach '' @
          formatTS L target @ ''; it is at '' @ formatTS L (ls_checkpoint stream)))
      else
        bnd (pitrBases c source (pit_storage pit) stream) (\<lambda>bases.
          case pick_base target None bases of
            None \<Rightarrow> ret (no_base L pit source stream target bases)
          | Some base \<Rightarrow> create_pitr_restore c rst source (pit_storage pit) base target))"

definition startPointInTimeRestore :: "ctx \<Rightarrow> restore \<Rightarrow> string \<Rightarrow> pit_source \<Rightarrow> restore_exec io" where
  "startPointInTimeRestore c rst source pit =
     bnd (exists_cluster (c_name c)) (\<lambda>r.
     bnd (or_wrap ''get cluster'' r) (\<lambda>cluster.
       if cluster = None then ret (restore_says RsPending ''Waiting for TiDB cluster to exist'')
       else
         bnd (restoreBlockedByLogBackup c) (\<lambda>blocked.
           case blocked of
             Some st \<Rightarrow> ret st
           | None \<Rightarrow>
               bnd (openLogStream c source (pit_storage pit)) (\<lambda>opened.
                 case opened of
                   Inl unavailable \<Rightarrow> ret (restore_says RsPending
                     (''Waiting for the log backup of Instance '' @ go_quote source @ '': '' @ pw_message unavailable))
                 | Inr stream \<Rightarrow> start_from_stream c rst source pit stream))))"

text \<open>The Backup that stands for the base of a running restore: only its name, namespace and Instance are set.\<close>

definition base_backup :: "string \<Rightarrow> string \<Rightarrow> string \<Rightarrow> backup" where
  "base_backup ns name source =
     \<lparr>bk_meta = bare_meta ns name, bk_instance = Some source, bk_class = '''', bk_storage = '''', bk_schedule = '''',
      bk_policy = PolicyUnset, bk_parameters = None, bk_state = BkNone\<rparr>"

definition syncPointInTimeRestore :: "ctx \<Rightarrow> restore \<Rightarrow> pit_source \<Rightarrow> restore_exec io" where
  "syncPointInTimeRestore c rst pit =
     (let source = stream_instance (cx_lib c) rst in
      if source = c_name c then
        ret (restore_says RsFailed
          (''TiDB restores a point in time only into an empty cluster that runs no log backup, so Instance '' @
           go_quote (c_name c) @ '' can't be rolled back in place. Create a new Instance from it with '' @
           ''spec.dataSource.pointInTime.source.instanceRef.name: '' @ c_name c))
      else
        bnd (exists_br_restore (om_name (rs_meta rst))) (\<lambda>r.
        bnd (or_wrap ''get BR restore'' r) (\<lambda>found.
          case found of
            None \<Rightarrow> startPointInTimeRestore c rst source pit
          | Some brst \<Rightarrow>
              restoreExecutionStatus c rst brst
                (base_backup (om_namespace (rs_meta rst))
                  (lookup_str (om_annotations (br_meta brst)) annotationPITRBaseBackup) source))))"

section \<open>What the stream and the bases are\<close>

text \<open>The stream and the base backups, given the BR Backups \<open>BB\<close> and the Backups \<open>bs\<close>.\<close>

definition is_stream :: "lib \<Rightarrow> (string \<rightharpoonup> br_backup) \<Rightarrow> string \<Rightarrow> string \<Rightarrow> logStream \<Rightarrow> bool" where
  "is_stream L BB i storage stream \<longleftrightarrow> (\<exists>b. BB (logBackupName i) = Some b \<and> not_deleting (bb_meta b) \<and>
     log_storage_of b = storage \<and> bb_phase b \<noteq> BrFailed \<and> bb_phase b \<noteq> BrInvalid \<and>
     ts_parse L (bb_commit_ts b) = Inr (ls_start stream) \<and> ts_parse L (bb_checkpoint_ts b) = Inr (ls_checkpoint stream) \<and>
     ts_parse L (bb_truncate_ts b) = Inr (ls_truncated stream) \<and> ls_start stream \<noteq> 0 \<and> ls_checkpoint stream \<noteq> 0)"

definition is_base :: "lib \<Rightarrow> (string \<rightharpoonup> br_backup) \<Rightarrow> backup list \<Rightarrow> string \<Rightarrow> string \<Rightarrow> 64 word \<Rightarrow> pitrBase \<Rightarrow> bool" where
  "is_base L BB bs i storage floor base \<longleftrightarrow> (\<exists>b \<in> set bs. bk_instance b = Some i \<and> bk_storage b = storage \<and>
     (\<exists>snapshot. BB (om_name (bk_meta b)) = Some snapshot \<and> base_of L floor b snapshot = Some base))"

lemma is_stream_unique: "is_stream L BB i storage s \<Longrightarrow> is_stream L BB i storage s' \<Longrightarrow> s = s'"
  unfolding is_stream_def by (auto intro!: logStream.equality)

lemma openLogStream_runs:
  assumes "serves (ev_br_backup E) BB"
  shows "runs E (\<lambda>k. \<not> is_write k) (\<lambda>r. (\<forall>u. r = Inl u \<longrightarrow> \<not> pw_available u) \<and>
      (\<forall>stream. r = Inr stream \<longrightarrow> is_stream (cx_lib c) BB i storage stream)) (openLogStream c i storage)"
  unfolding openLogStream_def read_ts_def
  by (rule runs_bnd_exists_br_backup [OF assms])
    (auto intro!: runs_intro simp: is_stream_def unavailablePITR_def split: option.split sum.split)

lemma collect_bases_runs:
  assumes "serves (ev_br_backup E) BB"
  shows "runs E (\<lambda>k. \<not> is_write k) (\<lambda>r. \<forall>base. base \<in> set r \<longleftrightarrow> is_base (cx_lib c) BB bs i storage floor base)
    (collect_bases c i storage floor bs)"
proof (induction bs)
  case Nil
  then show ?case by (auto intro: runs_intro simp: is_base_def)
next
  case (Cons b bs)
  let ?n = "om_name (bk_meta b)"
  show ?case
    unfolding collect_bases.simps
  proof (rule runs_if)
    assume "bk_instance b \<noteq> Some i \<or> bk_storage b \<noteq> storage"
    then show "runs E (\<lambda>k. \<not> is_write k) (\<lambda>r. \<forall>base. base \<in> set r \<longleftrightarrow> is_base (cx_lib c) BB (b # bs) i storage floor base)
        (collect_bases c i storage floor bs)"
      by (intro runs_weaken [OF Cons.IH]) (auto simp: is_base_def)
  next
    assume here: "\<not> (bk_instance b \<noteq> Some i \<or> bk_storage b \<noteq> storage)"
    show "runs E (\<lambda>k. \<not> is_write k) (\<lambda>r. \<forall>base. base \<in> set r \<longleftrightarrow> is_base (cx_lib c) BB (b # bs) i storage floor base)
        (bnd (get_br_backup ?n) (\<lambda>r.
          case r of
            Inl e \<Rightarrow>
              if e = NotFound then collect_bases c i storage floor bs
              else fail (Wrapped (''get BR backup '' @ ?n) (Passed e))
          | Inr snapshot \<Rightarrow>
              bnd (collect_bases c i storage floor bs) (\<lambda>rest.
              ret (case base_of (cx_lib c) floor b snapshot of None \<Rightarrow> rest | Some base \<Rightarrow> base # rest))))"
    proof (rule runs_bnd_get_br_backup [OF assms], simp, cases "BB ?n")
      case None
      then show "runs E (\<lambda>k. \<not> is_write k) (\<lambda>r. \<forall>base. base \<in> set r \<longleftrightarrow> is_base (cx_lib c) BB (b # bs) i storage floor base)
        (case case BB ?n of None \<Rightarrow> Inl NotFound | Some x \<Rightarrow> Inr x of
           Inl e \<Rightarrow> if e = NotFound then collect_bases c i storage floor bs
              else fail (Wrapped (''get BR backup '' @ ?n) (Passed e))
         | Inr snapshot \<Rightarrow> bnd (collect_bases c i storage floor bs) (\<lambda>rest.
              ret (case base_of (cx_lib c) floor b snapshot of None \<Rightarrow> rest | Some base \<Rightarrow> base # rest)))"
        by (simp, intro runs_weaken [OF Cons.IH]) (auto simp: is_base_def)
    next
      case (Some snapshot)
      then show "runs E (\<lambda>k. \<not> is_write k) (\<lambda>r. \<forall>base. base \<in> set r \<longleftrightarrow> is_base (cx_lib c) BB (b # bs) i storage floor base)
        (case case BB ?n of None \<Rightarrow> Inl NotFound | Some x \<Rightarrow> Inr x of
           Inl e \<Rightarrow> if e = NotFound then collect_bases c i storage floor bs
              else fail (Wrapped (''get BR backup '' @ ?n) (Passed e))
         | Inr snapshot \<Rightarrow> bnd (collect_bases c i storage floor bs) (\<lambda>rest.
              ret (case base_of (cx_lib c) floor b snapshot of None \<Rightarrow> rest | Some base \<Rightarrow> base # rest)))"
        using here by (simp, intro runs_bnd [OF Cons.IH] runs_ret) (auto simp: is_base_def split: option.split)
    qed
  qed
qed

definition floor_of :: "logStream \<Rightarrow> 64 word" where "floor_of stream = max (ls_start stream) (ls_truncated stream)"

lemma pitrBases_runs:
  assumes "serves (ev_br_backup E) BB" "\<And>h. ev_backups E h = Inr bs"
  shows "runs E (\<lambda>k. \<not> is_write k) (\<lambda>r. sorted (map pb_ts r) \<and>
      (\<forall>base. base \<in> set r \<longleftrightarrow> is_base (cx_lib c) BB bs i storage (floor_of stream) base))
    (pitrBases c i storage stream)"
proof -
  have "runs E (\<lambda>k. \<not> is_write k) (\<lambda>r. sorted (map pb_ts r) \<and>
      (\<forall>base. base \<in> set r \<longleftrightarrow> is_base (cx_lib c) BB bs i storage (floor_of stream) base))
    (bnd (collect_bases c i storage (floor_of stream) bs) (\<lambda>bases. ret (sort_key pb_ts bases)))"
    by (intro runs_bnd [OF collect_bases_runs [OF assms(1)]] runs_ret) simp
  then show ?thesis
    unfolding pitrBases_def floor_of_def
    by (intro runs_bnd_ask) (simp_all add: assms(2))
qed

section \<open>Choosing the base\<close>

lemma pick_base_Some:
  assumes "pick_base target chosen bs = Some base" "sorted (map pb_ts bs)"
    and "\<And>b x. chosen = Some b \<Longrightarrow> x \<in> set bs \<Longrightarrow> pb_ts b \<le> pb_ts x"
  shows "(base \<in> set bs \<and> pb_ts base \<le> target \<or> chosen = Some base) \<and>
    (\<forall>b \<in> set bs. pb_ts b \<le> target \<longrightarrow> pb_ts b \<le> pb_ts base)"
  using assms
proof (induction bs arbitrary: chosen)
  case Nil
  then show ?case by simp
next
  case (Cons b bs)
  show ?case
  proof (cases "pb_ts b \<le> target")
    case True
    with Cons.prems(1) have "pick_base target (Some b) bs = Some base" by simp
    from Cons.IH [OF this] Cons.prems(2) have
      "(base \<in> set bs \<and> pb_ts base \<le> target \<or> b = base) \<and> (\<forall>x \<in> set bs. pb_ts x \<le> target \<longrightarrow> pb_ts x \<le> pb_ts base)"
      by auto
    with True Cons.prems(2) show ?thesis by auto
  next
    case False
    with Cons.prems(1) have "pick_base target chosen bs = Some base" by simp
    from Cons.IH [OF this] Cons.prems(2,3) False show ?thesis by auto
  qed
qed

lemma pick_base_None:
  "pick_base target chosen bs = None \<longleftrightarrow> chosen = None \<and> (\<forall>b \<in> set bs. target < pb_ts b)"
  by (induction bs arbitrary: chosen) auto

end
