(* ===== verification/Restores.thy ===== *)
theory Restores
  imports Pitr
begin

text \<open>
  SyncRestore of internal/provider/backup.go: restores from a backup, and the way to point-in-time
  restores.
\<close>

section \<open>SyncRestore\<close>

text \<open>The function SyncRestore passes to CreateOrUpdate.\<close>

definition restore_mutate :: "ctx \<Rightarrow> restore \<Rightarrow> s3_spec \<Rightarrow> string \<Rightarrow> br_restore \<Rightarrow> api_err + br_restore" where
  "restore_mutate c rst s3 pre brst =
     (let brst' = brst\<lparr>br_account := backupManagerName, br_full := True, br_pitr := False,
            br_s3 := Some (brS3Storage (cx_lib c) s3 pre (brSecretName (om_name (rs_meta rst)))),
            br_br := Some \<lparr>brc_cluster = c_name c, brc_namespace = c_namespace c\<rparr>\<rparr> in
      map_sum id (\<lambda>m. brst'\<lparr>br_meta := m\<rparr>) (owned_meta (cx_lib c) (ORestore rst) (OBRRestore brst')))"

text \<open>The rest of SyncRestore, once nothing keeps the restore from running.\<close>

definition run_restore :: "ctx \<Rightarrow> restore \<Rightarrow> backup \<Rightarrow> string \<Rightarrow> restore_exec io" where
  "run_restore c rst src origin =
     bnd (get_backup_storage (bk_storage src)) (\<lambda>r.
     bnd (or_fail r) (\<lambda>storage.
       case bst_s3 storage of
         None \<Rightarrow> ret (restore_says RsFailed (''BackupStorage '' @ go_quote (bst_name storage) @ '' is not S3-backed''))
       | Some s3 \<Rightarrow>
           (let pre = backupPrefix (om_namespace (bk_meta src)) origin (om_name (bk_meta src));
                brst = zero_br_restore (om_namespace (rs_meta rst)) (om_name (rs_meta rst)) in
            thn (ensureBRCredentials c (ORestore rst) (brSecretName (om_name (rs_meta rst))) storage)
            (thn (ensureBackupManagerRBAC c (om_namespace (rs_meta rst)))
            (bnd (ask (CreateOrUpdate (OBRRestore brst)) (\<lambda>E h. ev_cou_restore E h brst (restore_mutate c rst s3 pre))) (\<lambda>r.
             bnd (or_wrap ''create or update BR restore'' r) (\<lambda>brst.
             restoreExecutionStatus c rst brst src)))))))"

definition restore_from_backup :: "ctx \<Rightarrow> restore \<Rightarrow> string \<Rightarrow> restore_exec io" where
  "restore_from_backup c rst name =
     bnd (get_backup name) (\<lambda>r.
       case r of
         Inl e \<Rightarrow> if e = NotFound then ret (restore_says RsFailed (''source backup '' @ go_quote name @ '' not found''))
                  else fail (Wrapped ''get source backup'' (Passed e))
       | Inr src \<Rightarrow>
           if validate_backup_succeeded (cx_lib c) src \<noteq> None then
             ret (restore_says RsPending ''Waiting for source backup to succeed'')
           else
             (case bk_instance src of
                None \<Rightarrow> ret (restore_says RsFailed ''source backup has no instance origin'')
              | Some origin \<Rightarrow>
                  bnd (get_cluster (c_name c)) (\<lambda>r.
                    case r of
                      Inl e \<Rightarrow> if e = NotFound then ret (restore_says RsPending ''Waiting for TiDB cluster to exist'')
                               else fail (Wrapped ''get cluster'' (Passed e))
                    | Inr _ \<Rightarrow>
                        bnd (exists_br_restore (om_name (rs_meta rst))) (\<lambda>r.
                        bnd (or_wrap ''get BR restore'' r) (\<lambda>started.
                        bnd (if started = None then restoreBlockedByLogBackup c else ret None) (\<lambda>blocked.
                          case blocked of
                            Some st \<Rightarrow> ret st
                          | None \<Rightarrow> run_restore c rst src origin))))))"

text \<open>How the type of a data source is printed.\<close>

fun ds_type_text :: "lib \<Rightarrow> ds_type \<Rightarrow> string" where
  "ds_type_text L DsBackup = api_const L ''DataSourceTypeBackup''"
| "ds_type_text L DsPointInTime = api_const L ''DataSourceTypePointInTime''"
| "ds_type_text L (DsOther s) = s"

definition SyncRestore :: "ctx \<Rightarrow> restore \<Rightarrow> restore_exec io" where
  "SyncRestore c rst =
     (case (rs_type rst, rs_backup rst, rs_pit rst) of
        (DsPointInTime, _, Some pit) \<Rightarrow> syncPointInTimeRestore c rst pit
      | (DsBackup, Some name, _) \<Rightarrow> restore_from_backup c rst name
      | _ \<Rightarrow> ret (restore_says RsFailed (''Unsupported data source type '' @ go_quote (ds_type_text (cx_lib c) (rs_type rst)))))"

section \<open>Where backups live\<close>

text \<open>Names that are DNS labels or subdomains contain neither a slash nor an underscore.\<close>

definition plain_name :: "string \<Rightarrow> bool" where
  "plain_name s \<longleftrightarrow> CHR ''/'' \<notin> set s \<and> CHR ''_'' \<notin> set s"

lemma backupPrefix_inject:
  assumes "plain_name ns" "plain_name i" "plain_name ns'" "plain_name i'"
    and "backupPrefix ns i b = backupPrefix ns' i' b'"
  shows "ns = ns' \<and> i = i' \<and> b = b'"
proof -
  from assms(5) have "ns @ CHR ''/'' # (i @ CHR ''/'' # b) = ns' @ CHR ''/'' # (i' @ CHR ''/'' # b')"
    by (simp add: backupPrefix_def)
  from separator_append_inject [OF _ _ this] assms(1,3)
  have "ns = ns'" "i @ CHR ''/'' # b = i' @ CHR ''/'' # b'" by (simp_all add: plain_name_def)
  from this(1) separator_append_inject [OF _ _ this(2)] assms(2,4) show ?thesis by (simp add: plain_name_def)
qed

lemma logBackupPrefix_eq: "logBackupPrefix ns i = backupPrefix ns i ''_log''"
  by (simp add: logBackupPrefix_def backupPrefix_def)

section \<open>What an operation asks the API server for\<close>

text \<open>
  A CreateOrUpdate takes a function, which the call sequence does not show. What an operation asks for is
  seen from outside instead: \<open>unmoved Var E m\<close> says that \<open>m\<close> cannot tell \<open>E\<close> from any
  variation of it. If the variations answer every request for a BR Restore in any way at all unless the request
  has property \<open>Q\<close>, then \<open>m\<close> makes only requests with that property.
\<close>

definition unmoved :: "(env \<Rightarrow> env \<Rightarrow> bool) \<Rightarrow> env \<Rightarrow> 'a io \<Rightarrow> bool" where
  "unmoved Var E m \<longleftrightarrow> (\<forall>E' h. Var E E' \<longrightarrow> m E' h = m E h)"

definition vary_restores :: "((br_restore \<Rightarrow> api_err + br_restore) \<Rightarrow> bool) \<Rightarrow> env \<Rightarrow> env \<Rightarrow> bool" where
  "vary_restores Q E E' \<longleftrightarrow> (\<exists>ans. E' = E\<lparr>ev_cou_restore := ans\<rparr> \<and> (\<forall>h x f. Q f \<longrightarrow> ans h x f = ev_cou_restore E h x f))"

definition vary_backups :: "((br_backup \<Rightarrow> api_err + br_backup) \<Rightarrow> bool) \<Rightarrow> env \<Rightarrow> env \<Rightarrow> bool" where
  "vary_backups Q E E' \<longleftrightarrow> (\<exists>ans. E' = E\<lparr>ev_cou_backup := ans\<rparr> \<and> (\<forall>h x f. Q f \<longrightarrow> ans h x f = ev_cou_backup E h x f))"

text \<open>Every BR Restore (BR Backup) an operation asks for satisfies \<open>R\<close>, whatever is there already.\<close>

definition asks_restores :: "(br_restore \<Rightarrow> bool) \<Rightarrow> env \<Rightarrow> 'a io \<Rightarrow> bool" where
  "asks_restores R E m \<longleftrightarrow> unmoved (vary_restores (\<lambda>f. \<forall>old r. f old = Inr r \<longrightarrow> R r)) E m"

definition asks_backups :: "(br_backup \<Rightarrow> bool) \<Rightarrow> env \<Rightarrow> 'a io \<Rightarrow> bool" where
  "asks_backups R E m \<longleftrightarrow> unmoved (vary_backups (\<lambda>f. \<forall>old r. f old = Inr r \<longrightarrow> R r)) E m"

named_theorems unmoved_intro

lemma unmoved_ret [unmoved_intro]: "unmoved Var E (ret x)" by (simp add: unmoved_def ret_run)
lemma unmoved_fail [unmoved_intro]: "unmoved Var E (fail e)" by (simp add: unmoved_def fail_run)

lemma unmoved_bnd:
  assumes "unmoved Var E m" "\<And>x h t. m E h = (Inr x, t) \<Longrightarrow> unmoved Var E (f x)"
  shows "unmoved Var E (bnd m f)"
  unfolding unmoved_def
proof (intro allI impI)
  fix E' h
  assume "Var E E'"
  then have same: "m E' h = m E h" using assms(1) unfolding unmoved_def by blast
  show "bnd m f E' h = bnd m f E h"
  proof (cases "m E h")
    case (Pair r t)
    show ?thesis
    proof (cases r)
      case (Inr x)
      with Pair assms(2) \<open>Var E E'\<close> have "f x E' k = f x E k" for k unfolding unmoved_def by blast
      then show ?thesis using same Pair Inr by (simp add: bnd_def)
    qed (use same Pair in \<open>simp add: bnd_def\<close>)
  qed
qed

lemma unmoved_bnd_any [unmoved_intro]: "unmoved Var E m \<Longrightarrow> (\<And>x. unmoved Var E (f x)) \<Longrightarrow> unmoved Var E (bnd m f)"
  by (rule unmoved_bnd)

lemma unmoved_thn [unmoved_intro]: "unmoved Var E m \<Longrightarrow> unmoved Var E m' \<Longrightarrow> unmoved Var E (thn m m')"
  unfolding thn_def by (rule unmoved_bnd)

lemma unmoved_each [unmoved_intro]: "(\<And>x. x \<in> set xs \<Longrightarrow> unmoved Var E (f x)) \<Longrightarrow> unmoved Var E (each f xs)"
  by (induction xs) (auto intro!: unmoved_intro)

lemma unmoved_wrapping [unmoved_intro]: "unmoved Var E m \<Longrightarrow> unmoved Var E (wrapping s m)"
  by (simp add: unmoved_def wrapping_def)

lemma unmoved_ask: "(\<And>E' h. Var E E' \<Longrightarrow> f E' h = f E h) \<Longrightarrow> unmoved Var E (ask k f)"
  by (simp add: unmoved_def ask_run)

lemma unmoved_results [unmoved_intro]:
  "unmoved Var E (or_fail r)" "unmoved Var E (or_wrap s r)" "unmoved Var E (ok_or_fail q)" "unmoved Var E (ok_or_wrap s q)"
  unfolding or_fail_def or_wrap_def ok_or_fail_def ok_or_wrap_def
  by (auto intro: unmoved_intro split: sum.split option.split)

lemma unmoved_cases [unmoved_intro]:
  "unmoved Var E m \<Longrightarrow> unmoved Var E m' \<Longrightarrow> unmoved Var E (if b then m else m')"
  "unmoved Var E m \<Longrightarrow> (\<And>x. unmoved Var E (f x)) \<Longrightarrow> unmoved Var E (case q of None \<Rightarrow> m | Some x \<Rightarrow> f x)"
  "(\<And>x. unmoved Var E (g x)) \<Longrightarrow> (\<And>x. unmoved Var E (f x)) \<Longrightarrow> unmoved Var E (case r of Inl e \<Rightarrow> g e | Inr x \<Rightarrow> f x)"
  by (auto split: option.split sum.split)

text \<open>The variations leave every other answer as it is.\<close>

definition benign :: "(env \<Rightarrow> env \<Rightarrow> bool) \<Rightarrow> env \<Rightarrow> bool" where
  "benign Var E \<longleftrightarrow> (\<forall>E'. Var E E' \<longrightarrow> (\<exists>b r. E' = E\<lparr>ev_cou_backup := b, ev_cou_restore := r\<rparr>))"

lemma benign_vary: "benign (vary_restores Q) E" "benign (vary_backups Q') E"
proof -
  have "E\<lparr>ev_cou_restore := ans\<rparr> = E\<lparr>ev_cou_backup := ev_cou_backup E, ev_cou_restore := ans\<rparr>" for ans by simp
  then show "benign (vary_restores Q) E" unfolding benign_def vary_restores_def by blast
  have "E\<lparr>ev_cou_backup := ans\<rparr> = E\<lparr>ev_cou_backup := ans, ev_cou_restore := ev_cou_restore E\<rparr>" for ans by simp
  then show "benign (vary_backups Q') E" unfolding benign_def vary_backups_def by blast
qed

lemma benign_ask:
  assumes "benign Var E" "\<And>b r h. f (E\<lparr>ev_cou_backup := b, ev_cou_restore := r\<rparr>) h = f E h"
  shows "unmoved Var E (ask k f)"
  using assms by (intro unmoved_ask) (metis benign_def)

lemma benign_reads:
  assumes "benign Var E"
  shows "unmoved Var E (get_cluster n)" "unmoved Var E (get_group k n)" "unmoved Var E (get_secret n)" "unmoved Var E (get_backup n)"
    "unmoved Var E (exists_br_backup n)" "unmoved Var E (exists_br_restore n)" "unmoved Var E (get_backup_storage n)"
    "unmoved Var E (do_write q)"
  unfolding read_defs do_write_def get_backup_storage_def by (rule benign_ask [OF assms], simp)+

lemma benign_steps:
  assumes "benign Var E"
  shows "unmoved Var E (ensureBRCredentials c owner n st)" "unmoved Var E (ensureBackupManagerRBAC c ns)"
    "unmoved Var E (recordBackupRootPassword c b)" "unmoved Var E (restoreBlockedByLogBackup c)"
    "unmoved Var E (restoreExecutionStatus c rst brst b)"
proof -
  note reads = benign_reads [OF assms]
  show "unmoved Var E (ensureBRCredentials c owner n st)"
    unfolding ensureBRCredentials_def Let_def by (intro unmoved_intro benign_ask [OF assms]) simp_all
  show "unmoved Var E (ensureBackupManagerRBAC c ns)"
    unfolding ensureBackupManagerRBAC_def applyServerSide_def build_config_def case_prod_beta by (intro unmoved_intro reads)
  show "unmoved Var E (recordBackupRootPassword c b)"
    unfolding recordBackupRootPassword_def readRootPassword_def Let_def by (intro unmoved_intro reads)
  show "unmoved Var E (restoreBlockedByLogBackup c)"
    unfolding restoreBlockedByLogBackup_def Let_def by (intro unmoved_intro reads)
  have first: "unmoved Var E (first_password ns)" for ns
    by (induction ns) (auto intro!: unmoved_intro reads)
  show "unmoved Var E (restoreExecutionStatus c rst brst b)"
    unfolding restoreExecutionStatus_def adoptRestoredRootPassword_def restoredRootPassword_def Let_def
    by (intro unmoved_intro reads first)
qed

lemma asks_backups_mono: "asks_backups R E m \<Longrightarrow> (\<And>x. R x \<Longrightarrow> R' x) \<Longrightarrow> asks_backups R' E m"
proof -
  assume R: "asks_backups R E m" "\<And>x. R x \<Longrightarrow> R' x"
  have "vary_backups (\<lambda>f. \<forall>old r. f old = Inr r \<longrightarrow> R r) E E'" if "vary_backups (\<lambda>f. \<forall>old r. f old = Inr r \<longrightarrow> R' r) E E'" for E'
  proof -
    from that obtain ans where ans: "E' = E\<lparr>ev_cou_backup := ans\<rparr>"
        "\<And>h x f. (\<forall>old r. f old = Inr r \<longrightarrow> R' r) \<Longrightarrow> ans h x f = ev_cou_backup E h x f"
      unfolding vary_backups_def by blast
    have "ans h x f = ev_cou_backup E h x f" if "\<forall>old r. f old = Inr r \<longrightarrow> R r" for h x f
      using that R(2) by (intro ans(2)) blast
    with ans(1) show ?thesis unfolding vary_backups_def by blast
  qed
  with R(1) show "asks_backups R' E m" unfolding asks_backups_def unmoved_def by simp
qed

lemma asks_restores_mono: "asks_restores R E m \<Longrightarrow> (\<And>x. R x \<Longrightarrow> R' x) \<Longrightarrow> asks_restores R' E m"
proof -
  assume R: "asks_restores R E m" "\<And>x. R x \<Longrightarrow> R' x"
  have "vary_restores (\<lambda>f. \<forall>old r. f old = Inr r \<longrightarrow> R r) E E'" if "vary_restores (\<lambda>f. \<forall>old r. f old = Inr r \<longrightarrow> R' r) E E'" for E'
  proof -
    from that obtain ans where ans: "E' = E\<lparr>ev_cou_restore := ans\<rparr>"
        "\<And>h x f. (\<forall>old r. f old = Inr r \<longrightarrow> R' r) \<Longrightarrow> ans h x f = ev_cou_restore E h x f"
      unfolding vary_restores_def by blast
    have "ans h x f = ev_cou_restore E h x f" if "\<forall>old r. f old = Inr r \<longrightarrow> R r" for h x f
      using that R(2) by (intro ans(2)) blast
    with ans(1) show ?thesis unfolding vary_restores_def by blast
  qed
  with R(1) show "asks_restores R' E m" unfolding asks_restores_def unmoved_def by simp
qed

lemma owned_meta_Inr: "map_sum id f (owned_meta L owner x) = Inr y \<Longrightarrow> \<exists>m. y = f m"
  by (cases "owned_meta L owner x") auto

text \<open>The storage of a backup, with the Secret its credentials are in.\<close>

abbreviation backup_location :: "ctx \<Rightarrow> backup \<Rightarrow> s3_spec \<Rightarrow> string \<Rightarrow> s3_storage" where
  "backup_location c b s3 secret \<equiv> brS3Storage (cx_lib c) s3 (backupPrefix (c_namespace c) (c_name c) (om_name (bk_meta b))) secret"

lemma SyncBackup_asks:
  assumes "\<And>h. ev_backup_storage E h (bk_storage b) = Inr st" "bst_s3 st = Some s3"
  shows "asks_backups (\<lambda>bb. bb_s3 bb = Some (backup_location c b s3 (brSecretName (om_name (bk_meta b)))) \<and>
     bb_br bb = Some \<lparr>brc_cluster = c_name c, brc_namespace = c_namespace c\<rparr>) E (SyncBackup c b)"
proof -
  define Q :: "br_backup \<Rightarrow> bool" where "Q = (\<lambda>bb. bb_s3 bb = Some (backup_location c b s3 (brSecretName (om_name (bk_meta b)))) \<and>
     bb_br bb = Some \<lparr>brc_cluster = c_name c, brc_namespace = c_namespace c\<rparr>)"
  let ?V = "vary_backups (\<lambda>f. \<forall>old r. f old = Inr r \<longrightarrow> Q r)"
  have "Q bb'" if "backup_mutate c b s3 bb = Inr bb'" for bb bb'
    using owned_meta_Inr [OF that [unfolded backup_mutate_def Let_def]] by (auto simp: Q_def)
  then have cou: "unmoved ?V E (ask k (\<lambda>E h. ev_cou_backup E h bb (backup_mutate c b s3)))" for k bb
    by (intro unmoved_ask) (auto simp: vary_backups_def)
  have st: "r = Inr st" if "get_backup_storage (bk_storage b) E h = (Inr r, t)" for r h t
    using that assms(1) by (simp add: get_backup_storage_def ask_run)
  note benign = benign_vary(2) [where Q' = "\<lambda>f. \<forall>old r. f old = Inr r \<longrightarrow> Q r" and E = E]
  note reads = benign_reads [OF benign] and steps = benign_steps [OF benign]
  have "unmoved ?V E (SyncBackup c b)"
    unfolding SyncBackup_def Let_def
    by (rule unmoved_bnd_any [OF reads(1)], rule unmoved_cases(3), (intro unmoved_intro)[1],
        rule unmoved_bnd [OF reads(7)], drule st)
      (simp add: assms(2), intro unmoved_intro steps cou)
  then show ?thesis unfolding asks_backups_def Q_def .
qed

lemma run_restore_asks:
  assumes "\<And>h. ev_backup_storage E h (bk_storage b) = Inr st" "bst_s3 st = Some s3"
  shows "asks_restores (\<lambda>r. br_s3 r = Some (brS3Storage (cx_lib c) s3 (backupPrefix (om_namespace (bk_meta b)) origin (om_name (bk_meta b)))
        (brSecretName (om_name (rs_meta rst)))) \<and>
     br_br r = Some \<lparr>brc_cluster = c_name c, brc_namespace = c_namespace c\<rparr>) E (run_restore c rst b origin)"
proof -
  define Q :: "br_restore \<Rightarrow> bool" where "Q = (\<lambda>r. br_s3 r = Some (brS3Storage (cx_lib c) s3 (backupPrefix (om_namespace (bk_meta b)) origin (om_name (bk_meta b)))
        (brSecretName (om_name (rs_meta rst)))) \<and>
     br_br r = Some \<lparr>brc_cluster = c_name c, brc_namespace = c_namespace c\<rparr>)"
  let ?V = "vary_restores (\<lambda>f. \<forall>old r. f old = Inr r \<longrightarrow> Q r)"
  let ?pre = "backupPrefix (om_namespace (bk_meta b)) origin (om_name (bk_meta b))"
  have "Q r'" if "restore_mutate c rst s3 ?pre r = Inr r'" for r r'
    using owned_meta_Inr [OF that [unfolded restore_mutate_def Let_def]] by (auto simp: Q_def)
  then have cou: "unmoved ?V E (ask k (\<lambda>E h. ev_cou_restore E h r (restore_mutate c rst s3 ?pre)))" for k r
    by (intro unmoved_ask) (auto simp: vary_restores_def)
  have st: "r = Inr st" if "get_backup_storage (bk_storage b) E h = (Inr r, t)" for r h t
    using that assms(1) by (simp add: get_backup_storage_def ask_run)
  note benign = benign_vary(1) [where Q = "\<lambda>f. \<forall>old r. f old = Inr r \<longrightarrow> Q r" and E = E]
  note steps = benign_steps [OF benign]
  have "unmoved ?V E (run_restore c rst b origin)"
    unfolding run_restore_def Let_def
    by (rule unmoved_bnd [OF benign_reads(7) [OF benign]], drule st) (simp add: assms(2), intro unmoved_intro steps cou)
  then show ?thesis unfolding asks_restores_def Q_def .
qed

lemma SyncRestore_asks:
  assumes "rs_type rst = DsBackup" "rs_backup rst = Some n" "\<And>h. rd_get (ev_backup E) h n = Inr b" "bk_instance b = Some origin"
    and "\<And>h. ev_backup_storage E h (bk_storage b) = Inr st" "bst_s3 st = Some s3"
  shows "asks_restores (\<lambda>r. br_s3 r = Some (brS3Storage (cx_lib c) s3 (backupPrefix (om_namespace (bk_meta b)) origin (om_name (bk_meta b)))
        (brSecretName (om_name (rs_meta rst)))) \<and>
     br_br r = Some \<lparr>brc_cluster = c_name c, brc_namespace = c_namespace c\<rparr>) E (SyncRestore c rst)"
proof -
  have src: "r = Inr b" if "get_backup n E h = (Inr r, t)" for r h t
    using that assms(3) by (simp add: get_backup_def ask_run)
  have start: "SyncRestore c rst = restore_from_backup c rst n"
    using assms(1,2) by (simp add: SyncRestore_def)
  note run = run_restore_asks [OF assms(5,6), unfolded asks_restores_def]
  show ?thesis
    unfolding asks_restores_def start restore_from_backup_def
    by (rule unmoved_bnd [OF benign_reads(4) [OF benign_vary(1)]], drule src)
      (simp add: assms(4) cong: if_cong split del: if_split, intro unmoved_intro benign_reads(1,6) benign_steps(4) benign_vary(1) run)
qed

text \<open>C16: a restore reads exactly what the backup wrote. Every BR Restore that SyncRestore asks for, for a Restore from a Backup
  and into whatever cluster, goes to the cluster of the Instance being restored and names the bucket, endpoint,
  region, provider and object prefix of the BR Backup SyncBackup asked for when it took that Backup, with
  the Restore's own credentials; the BackupStorage is taken to be the same. No other Backup and no log
  backup, of whatever Instance and namespace, uses that prefix.\<close>

theorem restore_reads_the_backup:
  assumes "bk_instance b = Some (c_name cb)" "om_namespace (bk_meta b) = c_namespace cb" "cx_lib cr = cx_lib cb"
    and "bst_s3 st = Some s3" "\<And>h. ev_backup_storage Eb h (bk_storage b) = Inr st"
    and "\<And>h. ev_backup_storage Er h (bk_storage b) = Inr st" "\<And>h. rd_get (ev_backup Er) h n = Inr (b\<lparr>bk_state := state\<rparr>)"
    and "rs_type rst = DsBackup" "rs_backup rst = Some n"
    and "plain_name (c_namespace cb)" "plain_name (c_name cb)" "plain_name (om_name (bk_meta b))" "plain_name ns" "plain_name i"
  shows "\<exists>w. asks_backups (\<lambda>bb. bb_s3 bb = Some w) Eb (SyncBackup cb b) \<and>
      asks_restores (\<lambda>r. br_s3 r = Some (w\<lparr>ss_secret := brSecretName (om_name (rs_meta rst))\<rparr>) \<and>
        br_br r = Some \<lparr>brc_cluster = c_name cr, brc_namespace = c_namespace cr\<rparr>) Er (SyncRestore cr rst) \<and>
      ss_prefix w = backupPrefix (c_namespace cb) (c_name cb) (om_name (bk_meta b)) \<and>
      (backupPrefix ns i m = ss_prefix w \<longrightarrow> ns = c_namespace cb \<and> i = c_name cb \<and> m = om_name (bk_meta b)) \<and>
      logBackupPrefix ns i \<noteq> ss_prefix w"
proof (intro exI conjI impI)
  let ?w = "backup_location cb b s3 (brSecretName (om_name (bk_meta b)))"
  show "asks_backups (\<lambda>bb. bb_s3 bb = Some ?w) Eb (SyncBackup cb b)"
    by (rule asks_backups_mono [OF SyncBackup_asks [OF assms(5,4)]]) simp
  show "asks_restores (\<lambda>r. br_s3 r = Some (?w\<lparr>ss_secret := brSecretName (om_name (rs_meta rst))\<rparr>) \<and>
        br_br r = Some \<lparr>brc_cluster = c_name cr, brc_namespace = c_namespace cr\<rparr>) Er (SyncRestore cr rst)"
    using SyncRestore_asks [where b = "b\<lparr>bk_state := state\<rparr>" and c = cr, OF assms(8,9,7), of "c_name cb" st s3] assms(1-4,6)
    by (simp add: brS3Storage_def)
  show prefix: "ss_prefix ?w = backupPrefix (c_namespace cb) (c_name cb) (om_name (bk_meta b))" by (simp add: brS3Storage_def)
  have "om_name (bk_meta b) \<noteq> ''_log''"
    using assms(12) by (intro notI) (simp add: plain_name_def)
  then show "logBackupPrefix ns i \<noteq> ss_prefix ?w"
    using backupPrefix_inject [OF assms(13,14,10,11)] unfolding prefix logBackupPrefix_eq by metis
  show "ns = c_namespace cb" "i = c_name cb" "m = om_name (bk_meta b)" if "backupPrefix ns i m = ss_prefix ?w"
    using backupPrefix_inject [OF assms(13,14,10,11) that [unfolded prefix]] by blast+
qed

definition sample_backup :: "string \<Rightarrow> backup" where
  "sample_backup n = (base_backup ''ns'' n ''db'')\<lparr>bk_storage := ''s3'', bk_state := BkSucceeded\<rparr>"

definition sample_restore :: "string \<Rightarrow> restore" where
  "sample_restore n = \<lparr>rs_meta = bare_meta ''ns'' n, rs_instance = ''db'', rs_type = DsBackup, rs_backup = Some ''b1'', rs_pit = None\<rparr>"

definition sample_s3 :: s3_spec where
  "sample_s3 = \<lparr>s3_bucket = ''bucket'', s3_region = ''r'', s3_endpoint = ''''\<rparr>"

text \<open>A cluster with a finished backup, and the same with an API server that refuses every BR Restore in the wrong
  place: the restore does not notice. If it refuses all of them, it does.\<close>

definition backed_up_env :: env where
  "backed_up_env = env_of (empty_store\<lparr>so_cluster := [''db'' \<mapsto> sample_cluster], so_backup := [''b1'' \<mapsto> sample_backup ''b1''],
     so_storage := [''s3'' \<mapsto> \<lparr>bst_name = ''s3'', bst_s3 = Some sample_s3\<rparr>]\<rparr>)"

theorem restore_reads_the_backup_witness:
  "\<exists>w. asks_restores (\<lambda>r. br_s3 r = Some (w\<lparr>ss_secret := ''r1-br-s3''\<rparr>)) backed_up_env (SyncRestore sample_ctx (sample_restore ''r1'')) \<and>
     ss_prefix w = ''ns/db/b1'' \<and>
     \<not> asks_restores (\<lambda>r. False) backed_up_env (SyncRestore sample_ctx (sample_restore ''r1''))"
proof -
  let ?m = "SyncRestore sample_ctx (sample_restore ''r1'')" and ?E = backed_up_env and ?Q = "\<lambda>f :: br_restore \<Rightarrow> api_err + br_restore. \<forall>old r. f old \<noteq> Inr r"
  let ?E' = "?E\<lparr>ev_cou_restore := \<lambda>h x f. if ?Q f then ev_cou_restore ?E h x f else Inl NotFound\<rparr>"
  note run = SyncRestore_def sample_restore_def restore_from_backup_def run_restore_def backed_up_env_def sample_backup_def base_backup_def
    restoreBlockedByLogBackup_def ensureBRCredentials_def ensureBackupManagerRBAC_def applyServerSide_def build_config_def
    backup_manager_objects_def get_backup_storage_def credentials_mutate_def owned_meta_def bare_meta_def io_eval
  have mutate: "\<exists>r'. restore_mutate sample_ctx rst s3 pre r = Inr r'" for rst s3 pre r
    by (simp add: restore_mutate_def owned_meta_def Let_def)
  then have asked: "?Q (restore_mutate sample_ctx rst s3 pre) = False" for rst s3 pre by blast
  have "\<exists>e. fst (?m ?E' []) = Inl e" by (simp add: run asked)
  moreover have "\<exists>x. fst (?m ?E []) = Inr x"
    by (simp add: run restore_mutate_def restoreExecutionStatus_def brRestoreExecutionStatus_def zero_br_restore_def)
  ultimately have "?m ?E' [] \<noteq> ?m ?E []" by auto
  moreover have "vary_restores (\<lambda>f. \<forall>old r. f old = Inr r \<longrightarrow> False) ?E ?E'"
    unfolding vary_restores_def by (rule exI, rule conjI [OF refl]) simp
  ultimately have asked: "\<not> asks_restores (\<lambda>r. False) ?E ?m" unfolding asks_restores_def unmoved_def by blast
  have b: "bk_instance (sample_backup ''b1'') = Some ''db''" "om_namespace (bk_meta (sample_backup ''b1'')) = ''ns''"
    "om_name (bk_meta (sample_backup ''b1'')) = ''b1''" "bk_storage (sample_backup ''b1'') = ''s3''" "bk_state (sample_backup ''b1'') = BkSucceeded"
    by (simp_all add: sample_backup_def base_backup_def bare_meta_def)
  have same: "sample_backup ''b1''\<lparr>bk_state := BkSucceeded\<rparr> = sample_backup ''b1''" by (simp add: sample_backup_def)
  have "\<exists>w. asks_backups (\<lambda>bb. bb_s3 bb = Some w) ?E (SyncBackup sample_ctx (sample_backup ''b1'')) \<and>
      asks_restores (\<lambda>r. br_s3 r = Some (w\<lparr>ss_secret := brSecretName (om_name (rs_meta (sample_restore ''r1'')))\<rparr>) \<and>
        br_br r = Some \<lparr>brc_cluster = c_name sample_ctx, brc_namespace = c_namespace sample_ctx\<rparr>) ?E ?m \<and>
      ss_prefix w = backupPrefix (c_namespace sample_ctx) (c_name sample_ctx) (om_name (bk_meta (sample_backup ''b1''))) \<and>
      (backupPrefix ''ns'' ''db'' ''b1'' = ss_prefix w \<longrightarrow>
        ''ns'' = c_namespace sample_ctx \<and> ''db'' = c_name sample_ctx \<and> ''b1'' = om_name (bk_meta (sample_backup ''b1''))) \<and>
      logBackupPrefix ''ns'' ''db'' \<noteq> ss_prefix w"
    by (rule restore_reads_the_backup [where n = "''b1''" and state = BkSucceeded and st = "\<lparr>bst_name = ''s3'', bst_s3 = Some sample_s3\<rparr>"])
      (simp_all add: b same backed_up_env_def sample_restore_def plain_name_def)
  then obtain w where "asks_restores (\<lambda>r. br_s3 r = Some (w\<lparr>ss_secret := brSecretName (om_name (rs_meta (sample_restore ''r1'')))\<rparr>) \<and>
        br_br r = Some \<lparr>brc_cluster = c_name sample_ctx, brc_namespace = c_namespace sample_ctx\<rparr>) ?E ?m"
      "ss_prefix w = backupPrefix (c_namespace sample_ctx) (c_name sample_ctx) (om_name (bk_meta (sample_backup ''b1'')))" by blast
  then have "asks_restores (\<lambda>r. br_s3 r = Some (w\<lparr>ss_secret := ''r1-br-s3''\<rparr>)) ?E ?m" "ss_prefix w = ''ns/db/b1''"
    by (auto elim!: asks_restores_mono simp: brSecretName_def sample_restore_def bare_meta_def backupPrefix_def b)
  with asked show ?thesis by blast
qed

end
