(* ===== verification/Recovery.thy ===== *)
theory Recovery
  imports Restores Samples
begin

text \<open>
  What backups, restores and the log backup guarantee together: BR jobs start only with their account
  and credentials, a restore waits for the log backup, a point-in-time restore replays onto the
  newest base, every point of the published window is restorable, and there is one log stream.
\<close>

section \<open>BR jobs\<close>

text \<open>The requests for a BR Backup or Restore, which make TiDB Operator start a job.\<close>

fun is_br_job :: "call \<Rightarrow> bool" where
  "is_br_job (CreateOrUpdate x) \<longleftrightarrow> obj_kind x = KBRBackup \<or> obj_kind x = KBRRestore"
| "is_br_job (Create x) \<longleftrightarrow> obj_kind x = KBRBackup \<or> obj_kind x = KBRRestore"
| "is_br_job (Apply x) \<longleftrightarrow> obj_kind x = KBRBackup \<or> obj_kind x = KBRRestore"
| "is_br_job _ \<longleftrightarrow> False"

lemma is_br_job_write: "is_br_job k \<Longrightarrow> is_write k"
  by (cases k) simp_all

text \<open>What a job in a namespace needs: the three objects of its account, and the Secret with its S3 credentials.\<close>

definition job_needs :: "ctx \<Rightarrow> string \<Rightarrow> string \<Rightarrow> (call \<Rightarrow> bool) set" where
  "job_needs c ns name =
     insert (\<lambda>k. \<exists>sec. k = CreateOrUpdate (OSecret sec) \<and> om_name (sec_meta sec) = brSecretName name)
       ((\<lambda>x k. \<exists>j. k = ServerSideApply x j) ` snd ` set (backup_manager_objects (cx_lib c) ns))"

lemma marks_applyServerSide: "(\<And>j. P (ServerSideApply x j)) \<Longrightarrow> marks E P (applyServerSide c x)"
  unfolding applyServerSide_def by (intro marks_bnd_after marks_do_write) simp

lemma marks_ensureBackupManagerRBAC:
  assumes "x \<in> snd ` set (backup_manager_objects (cx_lib c) ns)" "\<And>j. P (ServerSideApply x j)"
  shows "marks E P (ensureBackupManagerRBAC c ns)"
proof -
  from assms(1) obtain ty where "(ty, x) \<in> set (backup_manager_objects (cx_lib c) ns)" by force
  then show ?thesis
    unfolding ensureBackupManagerRBAC_def
    by (rule marks_each) (simp add: marks_wrapping marks_applyServerSide assms(2))
qed

lemma marks_ensureBRCredentials:
  "(\<And>sec. om_name (sec_meta sec) = n \<Longrightarrow> P (CreateOrUpdate (OSecret sec))) \<Longrightarrow>
   marks E P (ensureBRCredentials c owner n storage)"
  unfolding ensureBRCredentials_def Let_def
  by (rule marks_bnd_after, rule marks_bnd_after, rule marks_bnd) (auto simp: marks_def ask_run bare_meta_def)

text \<open>The two steps that make the account and the credentials, followed by anything.\<close>

lemma job_steps:
  assumes "P \<in> job_needs c ns name"
  shows "precedes E P is_br_job (thn (ensureBRCredentials c owner (brSecretName name) storage)
    (thn (ensureBackupManagerRBAC c ns) m))"
proof -
  have quiet: "runs E (\<lambda>k. \<not> is_br_job k) (\<lambda>_. True) (ensureBRCredentials c owner (brSecretName name) storage)"
    "runs E (\<lambda>k. \<not> is_br_job k) (\<lambda>_. True) (ensureBackupManagerRBAC c ns)"
    by (rule runs_calls, intro calls_intro; simp)+
  show ?thesis
  proof (cases "P = (\<lambda>k. \<exists>sec. k = CreateOrUpdate (OSecret sec) \<and> om_name (sec_meta sec) = brSecretName name)")
    case True
    then show ?thesis by (intro precedes_thn_mark [OF quiet(1)] marks_ensureBRCredentials) auto
  next
    case False
    with assms obtain x where x: "x \<in> snd ` set (backup_manager_objects (cx_lib c) ns)"
      and P: "P = (\<lambda>k. \<exists>j. k = ServerSideApply x j)"
      unfolding job_needs_def by blast
    have "marks E P (ensureBackupManagerRBAC c ns)"
      by (rule marks_ensureBackupManagerRBAC [OF x]) (auto simp: P)
    then show ?thesis
      by (intro precedes_thn_skip [OF quiet(1)] precedes_thn_mark [OF quiet(2)])
  qed
qed

lemma SyncBackup_order:
  assumes "P \<in> job_needs c (om_namespace (bk_meta b)) (om_name (bk_meta b))"
  shows "precedes E P is_br_job (SyncBackup c b)"
  unfolding SyncBackup_def read_defs
  by (intro precedes_intro job_steps [OF assms]) simp_all

lemma run_log_backup_order:
  assumes "P \<in> job_needs c (c_namespace c) (logBackupName (c_name c))"
  shows "precedes E P is_br_job (run_log_backup c ref)"
  unfolding run_log_backup_def read_defs
  by (intro precedes_intro job_steps [OF assms]) simp_all

lemma syncLogBackup_order:
  assumes "P \<in> job_needs c (c_namespace c) (logBackupName (c_name c))"
  shows "precedes E P is_br_job (syncLogBackup c)"
proof -
  have quiet: "runs E (\<lambda>k. \<not> is_br_job k) (\<lambda>_. True) (delete_obj k n)"
    "runs E (\<lambda>k. \<not> is_br_job k) (\<lambda>_. True) (deleteSecretIfExists n)"
    "runs E (\<lambda>k. \<not> is_br_job k) (\<lambda>_. True) (readyForLogBackup c)" for k n
    unfolding deleteSecretIfExists_def readyForLogBackup_def clusterReady_def read_defs
    by (rule runs_calls, intro calls_intro; simp)+
  show ?thesis
    unfolding syncLogBackup_def Let_def exists_br_backup_def
    by (intro precedes_intro run_log_backup_order [OF assms] precedes_never [OF quiet(1)] precedes_never [OF quiet(2)]
        precedes_bnd_value [OF quiet(3)]) simp_all
qed

section \<open>Restores\<close>

lemma restoreExecutionStatus_quiet:
  "calls_in (\<lambda>k. \<not> is_br_job k) (restoreExecutionStatus c rst brst src)"
proof -
  have first: "calls_in (\<lambda>k. \<not> is_br_job k) (first_password ns)" for ns
    by (induction ns) (auto simp: get_secret_def intro!: calls_intro split: sum.split)
  show ?thesis
    unfolding restoreExecutionStatus_def adoptRestoredRootPassword_def restoredRootPassword_def Let_def get_secret_def
    by (intro calls_intro first) simp_all
qed

text \<open>When the log backup of the Instance lets BR restore into its cluster.\<close>

definition log_backup_allows :: "ctx \<Rightarrow> (string \<rightharpoonup> br_backup) \<Rightarrow> (string \<rightharpoonup> group) \<Rightarrow> bool" where
  "log_backup_allows c BB G \<longleftrightarrow>
     (case BB (logBackupName (c_name c)) of
        None \<Rightarrow> True
      | Some b \<Rightarrow> not_deleting (bb_meta b) \<and>
          (let v = (case G (c_name c) of None \<Rightarrow> '''' | Some g \<Rightarrow> g_version g) in
           semver_valid (cx_lib c) v \<and> semver_compare (cx_lib c) v brRestoreWithLogBackupVersion \<ge> 0))"

lemma restoreBlocked_runs:
  assumes "serves (ev_br_backup E) BB" "serves (ev_group E TiKV) G" "\<And>k. \<not> is_br_job k \<Longrightarrow> P k"
  shows "runs E P (\<lambda>r. r = None \<longrightarrow> log_backup_allows c BB G) (restoreBlockedByLogBackup c)"
  unfolding restoreBlockedByLogBackup_def
  by (rule runs_bnd_exists_br_backup [OF assms(1)])
    (auto intro!: runs_intro runs_bnd_get_group [OF assms(2)] assms(3) simp: log_backup_allows_def Let_def split: option.split)

text \<open>A point-in-time restore as it has to be: onto the newest base backup at or before a target that the
  log has reached.\<close>

definition newest_base :: "lib \<Rightarrow> (string \<rightharpoonup> br_backup) \<Rightarrow> backup list \<Rightarrow> string \<Rightarrow> pit_source \<Rightarrow> pitrBase \<Rightarrow> 64 word \<Rightarrow> bool" where
  "newest_base L BB bs source pit base target \<longleftrightarrow> (\<exists>stream. is_stream L BB source (pit_storage pit) stream \<and>
     target = (if pit_target pit = RecoverDate then time_to_ts L (pit_date pit) else ls_checkpoint stream) \<and>
     target \<le> ls_checkpoint stream \<and>
     is_base L BB bs source (pit_storage pit) (floor_of stream) base \<and> pb_ts base \<le> target \<and>
     (\<forall>b. is_base L BB bs source (pit_storage pit) (floor_of stream) b \<and> pb_ts b \<le> target \<longrightarrow> pb_ts b \<le> pb_ts base))"

definition replays_onto :: "restore \<Rightarrow> string \<Rightarrow> pitrBase \<Rightarrow> 64 word \<Rightarrow> br_restore \<Rightarrow> bool" where
  "replays_onto rst source base target y \<longleftrightarrow> br_pitr y \<and> br_restored_ts y = nat_base 10 (unat target) \<and>
     map_option ss_prefix (br_s3 y) = Some (logBackupPrefix (om_namespace (rs_meta rst)) source) \<and>
     map_option ss_prefix (br_full_s3 y) = Some (backupPrefix (om_namespace (rs_meta rst)) source (pb_name base))"

text \<open>The calls a restore may make.\<close>

definition restore_call :: "ctx \<Rightarrow> (string \<rightharpoonup> br_backup) \<Rightarrow> backup list \<Rightarrow> (string \<rightharpoonup> group) \<Rightarrow> (string \<rightharpoonup> br_restore) \<Rightarrow> restore \<Rightarrow> call \<Rightarrow> bool" where
  "restore_call c BB bs G RR rst k \<longleftrightarrow> (is_br_job k \<longrightarrow>
     (RR (om_name (rs_meta rst)) = None \<longrightarrow> log_backup_allows c BB G) \<and>
     (\<forall>y. k = Create (OBRRestore y) \<longrightarrow> RR (om_name (rs_meta rst)) = None \<and>
       (\<exists>pit base target. rs_pit rst = Some pit \<and> stream_instance (cx_lib c) rst \<noteq> c_name c \<and>
          newest_base (cx_lib c) BB bs (stream_instance (cx_lib c) rst) pit base target \<and>
          replays_onto rst (stream_instance (cx_lib c) rst) base target y)))"

lemma restore_call_quiet [simp]: "\<not> is_br_job k \<Longrightarrow> restore_call c BB bs G RR rst k"
  by (simp add: restore_call_def)

lemma create_pitr_restore_runs:
  assumes "log_backup_allows c BB G" "RR (om_name (rs_meta rst)) = None" "rs_pit rst = Some pit"
    and "stream_instance (cx_lib c) rst \<noteq> c_name c"
    and "newest_base (cx_lib c) BB bs (stream_instance (cx_lib c) rst) pit base target"
  shows "runs E (restore_call c BB bs G RR rst) (\<lambda>_. True)
    (create_pitr_restore c rst (stream_instance (cx_lib c) rst) n base target)"
proof -
  have "restore_call c BB bs G RR rst (Create (OBRRestore ((pitr_restore c rst (stream_instance (cx_lib c) rst) base target s3)\<lparr>br_meta := m\<rparr>)))" for m s3
    unfolding restore_call_def replays_onto_def
    using assms by (auto simp: pitr_restore_def Let_def brS3Storage_def intro!: exI [of _ base] exI [of _ target])
  then show ?thesis
    unfolding create_pitr_restore_def get_backup_storage_def Let_def
    by (intro runs_intro runs_calls [OF ensureBRCredentials_calls] runs_calls [OF ensureBackupManagerRBAC_calls]) simp_all
qed

lemma start_from_stream_runs:
  assumes served: "serves (ev_br_backup E) BB" "\<And>h. ev_backups E h = Inr bs"
    and ok: "log_backup_allows c BB G" "RR (om_name (rs_meta rst)) = None" "rs_pit rst = Some pit"
    "stream_instance (cx_lib c) rst \<noteq> c_name c"
    and stream: "is_stream (cx_lib c) BB (stream_instance (cx_lib c) rst) (pit_storage pit) stream"
  shows "runs E (restore_call c BB bs G RR rst) (\<lambda>_. True) (start_from_stream c rst (stream_instance (cx_lib c) rst) pit stream)"
proof -
  let ?src = "stream_instance (cx_lib c) rst"
  let ?target = "if pit_target pit = RecoverDate then time_to_ts (cx_lib c) (pit_date pit) else ls_checkpoint stream"
  have reads: "runs E (restore_call c BB bs G RR rst) (\<lambda>r. sorted (map pb_ts r) \<and>
      (\<forall>base. base \<in> set r \<longleftrightarrow> is_base (cx_lib c) BB bs ?src (pit_storage pit) (floor_of stream) base))
    (pitrBases c ?src (pit_storage pit) stream)"
    using pitrBases_runs [where c = c and bs = bs and E = E, OF served, of ?src "pit_storage pit" stream]
    by (rule runs_calls_mono) (metis is_br_job_write restore_call_quiet)
  have newest: "newest_base (cx_lib c) BB bs ?src pit base ?target"
    if "sorted (map pb_ts bases)" "\<forall>b. b \<in> set bases \<longleftrightarrow> is_base (cx_lib c) BB bs ?src (pit_storage pit) (floor_of stream) b"
      "pick_base ?target None bases = Some base" "\<not> (pit_target pit = RecoverDate \<and> ?target > ls_checkpoint stream)"
    for bases base
    using pick_base_Some [OF that(3,1)] that(2,4) stream unfolding newest_base_def
    by (intro exI [of _ stream]) auto
  show ?thesis
    unfolding start_from_stream_def Let_def
    by (intro runs_if runs_ret runs_bnd [OF reads] runs_option create_pitr_restore_runs [where RR = RR and rst = rst, OF ok])
      (rule TrueI, rule TrueI, elim conjE, rule newest, assumption+)
qed

lemma startPointInTimeRestore_runs:
  assumes served: "serves (ev_br_backup E) BB" "\<And>h. ev_backups E h = Inr bs" "serves (ev_group E TiKV) G"
    and ok: "RR (om_name (rs_meta rst)) = None" "rs_pit rst = Some pit" "stream_instance (cx_lib c) rst \<noteq> c_name c"
  shows "runs E (restore_call c BB bs G RR rst) (\<lambda>_. True) (startPointInTimeRestore c rst (stream_instance (cx_lib c) rst) pit)"
proof -
  have opened: "runs E (restore_call c BB bs G RR rst)
      (\<lambda>r. \<forall>stream. r = Inr stream \<longrightarrow> is_stream (cx_lib c) BB (stream_instance (cx_lib c) rst) (pit_storage pit) stream)
      (openLogStream c (stream_instance (cx_lib c) rst) (pit_storage pit))"
    by (rule runs_calls_mono [OF runs_weaken [OF openLogStream_runs [OF served(1)]]]) (simp, metis is_br_job_write restore_call_quiet)
  have blocked: "runs E (restore_call c BB bs G RR rst) (\<lambda>r. r = None \<longrightarrow> log_backup_allows c BB G) (restoreBlockedByLogBackup c)"
    by (rule restoreBlocked_runs [OF served(1,3)]) simp
  show ?thesis
    unfolding startPointInTimeRestore_def exists_cluster_def
    by (intro runs_intro runs_bnd [OF blocked] runs_bnd [OF opened]
        start_from_stream_runs [where bs = bs and E = E, OF served(1,2)] ok) auto
qed

lemma run_restore_runs:
  assumes "RR (om_name (rs_meta rst)) = None \<Longrightarrow> log_backup_allows c BB G"
  shows "runs E (restore_call c BB bs G RR rst) (\<lambda>_. True) (run_restore c rst src origin)"
proof -
  have "restore_call c BB bs G RR rst (CreateOrUpdate x)" for x
    using assms by (simp add: restore_call_def)
  then show ?thesis
    unfolding run_restore_def get_backup_storage_def Let_def
    by (intro runs_intro runs_calls [OF ensureBRCredentials_calls] runs_calls [OF ensureBackupManagerRBAC_calls]
        runs_calls [OF calls_in_mono [OF restoreExecutionStatus_quiet]]) simp_all
qed

lemma restore_from_backup_runs:
  assumes served: "serves (ev_br_backup E) BB" "serves (ev_group E TiKV) G" "serves (ev_br_restore E) RR"
  shows "runs E (restore_call c BB bs G RR rst) (\<lambda>_. True) (restore_from_backup c rst n)"
proof -
  have wait: "runs E (restore_call c BB bs G RR rst)
      (\<lambda>r. r = None \<longrightarrow> RR (om_name (rs_meta rst)) = None \<longrightarrow> log_backup_allows c BB G)
      (if RR (om_name (rs_meta rst)) = None then restoreBlockedByLogBackup c else ret None)"
    by (intro runs_if runs_weaken [OF restoreBlocked_runs [OF served(1,2)]] runs_ret) auto
  have rest: "runs E (restore_call c BB bs G RR rst) (\<lambda>_. True)
      (bnd (exists_br_restore (om_name (rs_meta rst))) (\<lambda>r.
       bnd (or_wrap ''get BR restore'' r) (\<lambda>started.
       bnd (if started = None then restoreBlockedByLogBackup c else ret None) (\<lambda>blocked.
         case blocked of Some st \<Rightarrow> ret st | None \<Rightarrow> run_restore c rst src origin))))" for src origin
    by (rule runs_bnd_exists_br_restore [OF served(3)], simp, simp only: or_wrap_Inr bnd_ret,
        rule runs_bnd [OF wait], intro runs_option runs_ret run_restore_runs) simp_all
  show ?thesis
    unfolding restore_from_backup_def get_backup_def get_cluster_def by (intro runs_intro rest) simp_all
qed

lemma SyncRestore_runs:
  assumes served: "serves (ev_br_backup E) BB" "\<And>h. ev_backups E h = Inr bs" "serves (ev_group E TiKV) G" "serves (ev_br_restore E) RR"
  shows "runs E (restore_call c BB bs G RR rst) (\<lambda>_. True) (SyncRestore c rst)"
proof -
  have pit: "runs E (restore_call c BB bs G RR rst) (\<lambda>_. True) (syncPointInTimeRestore c rst pit)" if "rs_pit rst = Some pit" for pit
    unfolding syncPointInTimeRestore_def Let_def
    by (rule runs_if, simp add: runs_ret, rule runs_bnd_exists_br_restore [OF served(4)])
      (auto intro!: runs_option startPointInTimeRestore_runs [where bs = bs and E = E, OF served(1-3)] that
        runs_calls [OF calls_in_mono [OF restoreExecutionStatus_quiet]])
  show ?thesis
    unfolding SyncRestore_def
    by (auto split: ds_type.split option.split intro!: runs_ret pit restore_from_backup_runs [OF served(1,3,4)])
qed

section \<open>The log stream\<close>

text \<open>The calls syncLogBackup may make, given the storage \<open>st\<close> that has point-in-time recovery and the
  BR Backup \<open>found\<close> under the name of the log backup.\<close>

definition log_call :: "ctx \<Rightarrow> br_backup option \<Rightarrow> call \<Rightarrow> bool" where
  "log_call c found k \<longleftrightarrow> (let st = pitrStorage (in_backup (cx_instance c)) in
     (\<forall>n. k = Delete KBRBackup n \<longrightarrow> (\<exists>b. found = Some b \<and> not_deleting (bb_meta b) \<and> n = om_name (bb_meta b) \<and>
        (st = None \<or> (\<exists>s. st = Some s \<and> log_storage_of b \<noteq> bs_ref s)))) \<and>
     (\<forall>x. k = Apply x \<longrightarrow> (\<exists>s bs s3. st = Some s \<and> x = OBRBackup (buildLogBackup c bs s3) \<and>
        (\<forall>b. found = Some b \<longrightarrow> not_deleting (bb_meta b) \<and> log_storage_of b = bs_ref s))))"

lemma log_call_other [simp]: "\<not> is_br_job k \<Longrightarrow> (\<And>n. k \<noteq> Delete KBRBackup n) \<Longrightarrow> (\<And>x. k \<noteq> Apply x) \<Longrightarrow> log_call c found k"
  by (simp add: log_call_def Let_def)

lemma run_log_backup_calls:
  assumes "pitrStorage (in_backup (cx_instance c)) = Some s"
    "\<And>b. found = Some b \<Longrightarrow> not_deleting (bb_meta b) \<and> log_storage_of b = bs_ref s"
  shows "calls_in (log_call c found) (run_log_backup c (bs_ref s))"
proof -
  have "log_call c found (Apply (OBRBackup (buildLogBackup c bs s3)))" for bs s3
    using assms by (auto simp: log_call_def)
  moreover have "log_call c found (CreateOrUpdate x)" "log_call c found (ServerSideApply x j)"
    "log_call c found (GetCredentials n)" "log_call c found (GetBackupStorage n)" for x j n
    by (simp_all add: log_call_def Let_def)
  ultimately show ?thesis
    unfolding run_log_backup_def get_backup_storage_def by (intro calls_intro) simp_all
qed

lemma syncLogBackup_runs:
  assumes "serves (ev_br_backup E) BB"
  shows "runs E (log_call c (BB (logBackupName (c_name c)))) (\<lambda>_. True) (syncLogBackup c)"
proof -
  have quiet: "calls_in (log_call c found) (readyForLogBackup c)" "calls_in (log_call c found) (deleteSecretIfExists n)" for found n
    unfolding readyForLogBackup_def clusterReady_def deleteSecretIfExists_def read_defs
    by (intro calls_intro; simp add: log_call_def Let_def)+
  have del: "calls_in (log_call c (Some b)) (delete_obj KBRBackup (om_name (bb_meta b)))"
    if "not_deleting (bb_meta b)" "pitrStorage (in_backup (cx_instance c)) = None \<or>
       (\<exists>s. pitrStorage (in_backup (cx_instance c)) = Some s \<and> log_storage_of b \<noteq> bs_ref s)" for b
    using that by (intro calls_intro) (auto simp: log_call_def Let_def)
  show ?thesis
    unfolding syncLogBackup_def Let_def
    by (rule runs_bnd_exists_br_backup [OF assms])
      (auto simp: log_call_def Let_def intro!: runs_intro runs_bnd [OF runs_calls [OF quiet(1)]] runs_calls [OF quiet(2)]
        runs_calls [OF del] runs_calls [OF run_log_backup_calls] split: option.split)
qed

section \<open>Properties\<close>

lemma SyncRestore_order:
  assumes "P \<in> job_needs c (om_namespace (rs_meta rst)) (om_name (rs_meta rst))"
  shows "precedes E P is_br_job (SyncRestore c rst)"
proof -
  have create: "precedes E P is_br_job (create_pitr_restore c rst source n base target)" for source n base target
    unfolding create_pitr_restore_def get_backup_storage_def
    by (intro precedes_intro job_steps [OF assms]) simp_all
  have run: "precedes E P is_br_job (run_restore c rst src origin)" for src origin
    unfolding run_restore_def get_backup_storage_def Let_def
    by (intro precedes_intro job_steps [OF assms]) simp_all
  have collect: "calls_in (\<lambda>k. \<not> is_br_job k) (collect_bases c i storage floor bs)" for i storage floor bs
    by (induction bs) (auto simp: get_br_backup_def intro!: calls_intro split: sum.split option.split)
  have quiet: "calls_in (\<lambda>k. \<not> is_br_job k) (restoreBlockedByLogBackup c)"
    "calls_in (\<lambda>k. \<not> is_br_job k) (openLogStream c i storage)"
    "calls_in (\<lambda>k. \<not> is_br_job k) (pitrBases c i storage stream)"
    "calls_in (\<lambda>k. \<not> is_br_job k) (if b then restoreBlockedByLogBackup c else ret None)" for i storage stream b
    unfolding restoreBlockedByLogBackup_def openLogStream_def read_ts_def pitrBases_def read_defs
    by (intro calls_intro collect; simp)+
  note steps = precedes_bnd_value [OF runs_calls [OF quiet(1)]] precedes_bnd_value [OF runs_calls [OF quiet(2)]]
    precedes_bnd_value [OF runs_calls [OF quiet(3)]] precedes_bnd_value [OF runs_calls [OF quiet(4)]]
  have start: "precedes E P is_br_job (startPointInTimeRestore c rst source pit)" for source pit
    unfolding startPointInTimeRestore_def start_from_stream_def Let_def exists_cluster_def
    by (intro precedes_intro steps create) simp_all
  have "precedes E P is_br_job (syncPointInTimeRestore c rst pit)" for pit
    unfolding syncPointInTimeRestore_def Let_def exists_br_restore_def
    by (intro precedes_intro start precedes_never [OF runs_calls [OF restoreExecutionStatus_quiet]]) simp_all
  moreover have "precedes E P is_br_job (restore_from_backup c rst n)" for n
    unfolding restore_from_backup_def read_defs
    by (intro precedes_intro steps run) simp_all
  ultimately show ?thesis
    unfolding SyncRestore_def by (auto split: ds_type.split option.split intro!: precedes_ret)
qed

text \<open>C22: TiDB Operator never starts a BR job that cannot run: in every pass of SyncBackup, SyncRestore and
  syncLogBackup the request for a BR Backup or Restore comes after the S3 credentials Secret and the
  ServiceAccount, Role and RoleBinding of the job's account were written.\<close>

theorem br_jobs_have_their_account:
  assumes "is_br_job k" "P \<in> job_needs c ns name"
    and "snd (SyncBackup c b E h) = t @ k # t' \<and> ns = om_namespace (bk_meta b) \<and> name = om_name (bk_meta b) \<or>
      snd (SyncRestore c rst E h) = t @ k # t' \<and> ns = om_namespace (rs_meta rst) \<and> name = om_name (rs_meta rst) \<or>
      snd (syncLogBackup c E h) = t @ k # t' \<and> ns = c_namespace c \<and> name = logBackupName (c_name c)"
  shows "\<exists>k' \<in> set t. P k'"
  using assms(3)
proof (elim disjE conjE)
  assume "snd (SyncBackup c b E h) = t @ k # t'" "ns = om_namespace (bk_meta b)" "name = om_name (bk_meta b)"
  with assms(1,2) show ?thesis by (intro precedesD [OF SyncBackup_order]) simp_all
next
  assume "snd (SyncRestore c rst E h) = t @ k # t'" "ns = om_namespace (rs_meta rst)" "name = om_name (rs_meta rst)"
  with assms(1,2) show ?thesis by (intro precedesD [OF SyncRestore_order]) simp_all
next
  assume "snd (syncLogBackup c E h) = t @ k # t'" "ns = c_namespace c" "name = logBackupName (c_name c)"
  with assms(1,2) show ?thesis by (intro precedesD [OF syncLogBackup_order]) simp_all
qed

definition sample_storage :: backup_storage where
  "sample_storage = \<lparr>bst_name = ''s3'', bst_s3 = Some sample_s3\<rparr>"

definition backup_store :: store where
  "backup_store = empty_store\<lparr>so_cluster := [''db'' \<mapsto> sample_cluster], so_storage := [''s3'' \<mapsto> sample_storage]\<rparr>"

text \<open>The trace of a sample backup: reads, the credentials, the three account objects, the root password, and the
  BR Backup last.\<close>

lemma sample_backup_trace:
  "\<exists>t. snd (SyncBackup sample_ctx (sample_backup ''b1'') (env_of backup_store) []) =
     t @ [CreateOrUpdate (OBRBackup (zero_br_backup ''ns'' ''b1''))]"
proof -
  have meta: "om_namespace (bk_meta (sample_backup ''b1'')) = ''ns''" "om_name (bk_meta (sample_backup ''b1'')) = ''b1''"
    "bk_storage (sample_backup ''b1'') = ''s3''"
    by (simp_all add: sample_backup_def base_backup_def bare_meta_def)
  have "snd (SyncBackup sample_ctx (sample_backup ''b1'') (env_of backup_store) []) \<noteq> [] \<and>
     last (snd (SyncBackup sample_ctx (sample_backup ''b1'') (env_of backup_store) [])) =
       CreateOrUpdate (OBRBackup (zero_br_backup ''ns'' ''b1''))"
    by (simp add: SyncBackup_def meta ensureBRCredentials_def credentials_mutate_def ensureBackupManagerRBAC_def
        backup_manager_objects_def applyServerSide_def build_config_def recordBackupRootPassword_def readRootPassword_def
        backup_mutate_def owned_meta_def backup_store_def sample_storage_def io_eval)
  then show ?thesis by (metis append_butlast_last_id)
qed

theorem br_jobs_have_their_account_witness:
  "\<exists>t. (\<exists>x j. ServerSideApply x j \<in> set t \<and> obj_kind x = KServiceAccount) \<and>
     snd (SyncBackup sample_ctx (sample_backup ''b1'') (env_of backup_store) []) =
       t @ [CreateOrUpdate (OBRBackup (zero_br_backup ''ns'' ''b1''))]"
proof -
  obtain t where t: "snd (SyncBackup sample_ctx (sample_backup ''b1'') (env_of backup_store) []) =
     t @ [CreateOrUpdate (OBRBackup (zero_br_backup ''ns'' ''b1''))]"
    using sample_backup_trace by blast
  obtain m where acc: "OServiceAccount m \<in> snd ` set (backup_manager_objects sample_lib ''ns'')"
    by (auto simp: backup_manager_objects_def Let_def)
  then have "(\<lambda>k. \<exists>j. k = ServerSideApply (OServiceAccount m) j) \<in> job_needs sample_ctx ''ns'' ''b1''"
    unfolding job_needs_def by auto
  from br_jobs_have_their_account [OF _ this, where b = "sample_backup ''b1''" and E = "env_of backup_store" and h = "[]"
      and k = "CreateOrUpdate (OBRBackup (zero_br_backup ''ns'' ''b1''))" and t = t and t' = "[]"] t
  obtain j where "ServerSideApply (OServiceAccount m) j \<in> set t"
    by (auto simp: sample_backup_def base_backup_def bare_meta_def)
  with t show ?thesis by (intro exI [of _ t] conjI exI [of _ "OServiceAccount m"] exI [of _ j]) simp_all
qed

text \<open>C7: a restore never runs into a cluster it would damage or that cannot take it. SyncRestore asks for a
  new BR Restore only while the Instance has no log backup, or one that is not stopping on a TiKV
  whose BR restores beside it. A point-in-time restore is created once, never onto its own source,
  and replays the log of the source up to the target (one the log has reached) onto the newest
  complete full backup of that Instance and storage at or before it that the log covers.\<close>

theorem SyncRestore_safe:
  assumes "serves (ev_br_backup E) BB" "\<And>h. ev_backups E h = Inr bs" "serves (ev_group E TiKV) G" "serves (ev_br_restore E) RR"
    and "k \<in> set (snd (SyncRestore c rst E h))" "is_br_job k"
  shows "(RR (om_name (rs_meta rst)) = None \<longrightarrow> log_backup_allows c BB G) \<and>
    (\<forall>y. k = Create (OBRRestore y) \<longrightarrow> RR (om_name (rs_meta rst)) = None \<and>
       (\<exists>pit base target. rs_pit rst = Some pit \<and> stream_instance (cx_lib c) rst \<noteq> c_name c \<and>
          newest_base (cx_lib c) BB bs (stream_instance (cx_lib c) rst) pit base target \<and>
          replays_onto rst (stream_instance (cx_lib c) rst) base target y))"
  using runs_callD [OF SyncRestore_runs [where bs = bs and E = E and c = c and rst = rst, OF assms(1-4)] assms(5)] assms(6)
  unfolding restore_call_def by blast

definition log_sample :: br_backup where
  "log_sample = (zero_br_backup ''ns'' ''src-pitr'')\<lparr>bb_meta := (bare_meta ''ns'' ''src-pitr'')
     \<lparr>om_annotations := [annotationLogBackupStorage \<mapsto> ''s3'']\<rparr>,
     bb_phase := BrRunning, bb_commit_ts := ''1'', bb_checkpoint_ts := ''333'', bb_truncate_ts := ''''\<rparr>"

definition snapshot_sample :: br_backup where
  "snapshot_sample = (zero_br_backup ''ns'' ''b1'')\<lparr>bb_phase := BrComplete, bb_commit_ts := ''22''\<rparr>"

definition pit_sample :: restore where
  "pit_sample = \<lparr>rs_meta = bare_meta ''ns'' ''r1'', rs_instance = ''src'', rs_type = DsPointInTime, rs_backup = None,
     rs_pit = Some \<lparr>pit_storage = ''s3'', pit_target = RecoverLatest, pit_date = 0\<rparr>\<rparr>"

definition recovery_store :: store where
  "recovery_store = backup_store\<lparr>so_br_backup := [''src-pitr'' \<mapsto> log_sample, ''b1'' \<mapsto> snapshot_sample],
     so_backups := [(base_backup ''ns'' ''b1'' ''src'')\<lparr>bk_storage := ''s3''\<rparr>]\<rparr>"

theorem SyncRestore_safe_witness:
  "\<exists>base target y. newest_base sample_lib [''src-pitr'' \<mapsto> log_sample, ''b1'' \<mapsto> snapshot_sample]
     [(base_backup ''ns'' ''b1'' ''src'')\<lparr>bk_storage := ''s3''\<rparr>] ''src''
     \<lparr>pit_storage = ''s3'', pit_target = RecoverLatest, pit_date = 0\<rparr> base target \<and>
     replays_onto pit_sample ''src'' base target y"
proof -
  let ?E = "env_of recovery_store"
  have log: "not_deleting (bb_meta log_sample)" "log_storage_of log_sample = ''s3''" "bb_phase log_sample = BrRunning"
    "bb_commit_ts log_sample = ''1''" "bb_checkpoint_ts log_sample = ''333''" "bb_truncate_ts log_sample = ''''"
    by (simp_all add: log_sample_def zero_br_backup_def bare_meta_def not_deleting_def log_storage_of_def lookup_str_def)
  have pit: "rs_type pit_sample = DsPointInTime" "rs_pit pit_sample = Some \<lparr>pit_storage = ''s3'', pit_target = RecoverLatest, pit_date = 0\<rparr>"
    "rs_instance pit_sample = ''src''" "rs_meta pit_sample = bare_meta ''ns'' ''r1''"
    by (simp_all add: pit_sample_def)
  have snap: "bb_mode snapshot_sample = ModeUnset" "bb_phase snapshot_sample = BrComplete" "bb_commit_ts snapshot_sample = ''22''"
    by (simp_all add: snapshot_sample_def zero_br_backup_def)
  have store: "so_cluster recovery_store = [''db'' \<mapsto> sample_cluster]" "so_storage recovery_store = [''s3'' \<mapsto> sample_storage]"
    "so_br_backup recovery_store = [''src-pitr'' \<mapsto> log_sample, ''b1'' \<mapsto> snapshot_sample]" "so_br_restore recovery_store = Map.empty"
    "so_secret recovery_store = Map.empty" "so_group recovery_store = (\<lambda>_. Map.empty)"
    "so_backups recovery_store = [(base_backup ''ns'' ''b1'' ''src'')\<lparr>bk_storage := ''s3''\<rparr>]"
    by (simp_all add: recovery_store_def backup_store_def)
  obtain y where "Create (OBRRestore y) \<in> set (snd (SyncRestore sample_ctx pit_sample ?E []))"
    by (auto simp: SyncRestore_def syncPointInTimeRestore_def startPointInTimeRestore_def restoreBlockedByLogBackup_def
        openLogStream_def read_ts_def start_from_stream_def pitrBases_def base_of_def create_pitr_restore_def
        ensureBRCredentials_def credentials_mutate_def ensureBackupManagerRBAC_def backup_manager_objects_def
        applyServerSide_def build_config_def owned_meta_def logBackupName_def logBackupSuffix_def base_backup_def bare_meta_def
        sample_storage_def log pit snap store io_eval)
  from SyncRestore_safe [where E = ?E and c = sample_ctx and rst = pit_sample and h = "[]" and G = Map.empty and RR = Map.empty
      and bs = "so_backups recovery_store" and BB = "so_br_backup recovery_store", OF _ _ _ _ this]
  show ?thesis by (auto simp: serves_serve store pit)
qed

text \<open>C21: there is at most one log stream per Instance. syncLogBackup deletes the log backup only when no
  storage has point-in-time recovery any more or another one has it, and starts one only on the
  storage that has it, while there is none or the running one writes to that storage.\<close>

theorem one_log_stream:
  assumes "serves (ev_br_backup E) BB" "k \<in> set (snd (syncLogBackup c E h))"
  shows "let st = pitrStorage (in_backup (cx_instance c)); found = BB (logBackupName (c_name c)) in
     (\<forall>n. k = Delete KBRBackup n \<longrightarrow> (\<exists>b. found = Some b \<and> not_deleting (bb_meta b) \<and> n = om_name (bb_meta b) \<and>
        (st = None \<or> (\<exists>s. st = Some s \<and> log_storage_of b \<noteq> bs_ref s)))) \<and>
     (\<forall>x. k = Apply x \<longrightarrow> (\<exists>s bs s3. st = Some s \<and> x = OBRBackup (buildLogBackup c bs s3) \<and>
        (\<forall>b. found = Some b \<longrightarrow> not_deleting (bb_meta b) \<and> log_storage_of b = bs_ref s)))"
  using runs_callD [OF syncLogBackup_runs [OF assms(1)] assms(2)] unfolding log_call_def Let_def .

definition pitr_off_ctx :: ctx where
  "pitr_off_ctx = sample_ctx\<lparr>cx_instance := sample_instance\<lparr>in_backup := None\<rparr>\<rparr>"

theorem one_log_stream_witness:
  "\<exists>b. [''db-pitr'' \<mapsto> log_sample] (logBackupName ''db'') = Some b \<and> not_deleting (bb_meta b) \<and> ''src-pitr'' = om_name (bb_meta b)"
proof -
  let ?E = "env_of (empty_store\<lparr>so_br_backup := [''db-pitr'' \<mapsto> log_sample]\<rparr>)"
  have log: "not_deleting (bb_meta log_sample)" "om_name (bb_meta log_sample) = ''src-pitr''"
    by (simp_all add: log_sample_def bare_meta_def not_deleting_def)
  have c: "c_name pitr_off_ctx = ''db''" "in_backup (cx_instance pitr_off_ctx) = None" "cx_lib pitr_off_ctx = sample_lib"
    by (simp_all add: pitr_off_ctx_def sample_ctx_def sample_instance_def c_name_def bare_meta_def)
  have "Delete KBRBackup ''src-pitr'' \<in> set (snd (syncLogBackup pitr_off_ctx ?E []))"
    by (simp add: syncLogBackup_def pitrStorage_def c log logBackupName_def logBackupSuffix_def io_eval)
  from one_log_stream [OF _ this, of "[''db-pitr'' \<mapsto> log_sample]"] show ?thesis
    by (auto simp: serves_serve c Let_def logBackupName_def logBackupSuffix_def)
qed

section \<open>The published window\<close>

text \<open>What GoTimeToTS computes: the milliseconds of the time in the upper 46 bits.\<close>

definition tso_of_ms :: "int \<Rightarrow> 64 word" where
  "tso_of_ms ms = word_of_int (ms * 2 ^ 18)"

definition go_time_law :: "lib \<Rightarrow> bool" where
  "go_time_law L \<longleftrightarrow> (\<forall>t \<ge> 0. time_to_ts L t = tso_of_ms (t div 1000000))"

lemma pitrWindow_runs:
  assumes "serves (ev_br_backup E) BB" "\<And>h. ev_backups E h = Inr bs"
  shows "runs E (\<lambda>k. \<not> is_write k) (\<lambda>w. pw_available w \<longrightarrow> (\<exists>stream base.
      is_stream (cx_lib c) BB (c_name c) storage stream \<and>
      is_base (cx_lib c) BB bs (c_name c) storage (floor_of stream) base \<and> pb_ts base \<le> ls_checkpoint stream \<and>
      pw_earliest w = Some (tsTime (pb_ts base)) \<and> pw_latest w = Some (tsTime (ls_checkpoint stream))))
    (pitrWindow c storage now)"
  unfolding pitrWindow_def
proof (rule runs_bnd [OF openLogStream_runs [OF assms(1)]], rule runs_sum)
  fix r stream
  assume "(\<forall>u. r = Inl u \<longrightarrow> \<not> pw_available u) \<and>
    (\<forall>stream. r = Inr stream \<longrightarrow> is_stream (cx_lib c) BB (c_name c) storage stream)" "r = Inr stream"
  then have stream: "is_stream (cx_lib c) BB (c_name c) storage stream" by blast
  show "runs E (\<lambda>k. \<not> is_write k) (\<lambda>w. pw_available w \<longrightarrow> (\<exists>stream base.
      is_stream (cx_lib c) BB (c_name c) storage stream \<and>
      is_base (cx_lib c) BB bs (c_name c) storage (floor_of stream) base \<and> pb_ts base \<le> ls_checkpoint stream \<and>
      pw_earliest w = Some (tsTime (pb_ts base)) \<and> pw_latest w = Some (tsTime (ls_checkpoint stream))))
    (bnd (pitrBases c (c_name c) storage stream) (\<lambda>bases.
      case bases of
        [] \<Rightarrow> ret (unavailablePITR pitrReasonNoBaseBackup
          (''Take a full backup to storage '' @ go_quote storage @
           '': point-in-time recovery starts from one taken after the log backup started at '' @
           formatTS (cx_lib c) (ls_start stream)))
      | base # _ \<Rightarrow>
          if ls_checkpoint stream < pb_ts base then
            ret (unavailablePITR pitrReasonStarting
              (''The log backup hasn't reached backup '' @ go_quote (pb_name base) @ '' yet''))
          else ret (available_window (cx_lib c) now stream base)))"
    by (rule runs_bnd [OF pitrBases_runs [where c = c and bs = bs and E = E, OF assms]])
      (auto intro!: runs_intro exI [of _ stream] simp: not_less unavailablePITR_def available_window_def Let_def stream split: list.split; blast)
qed (rule runs_ret, simp)

lemma uint_of_int_word: "0 \<le> k \<Longrightarrow> k < 2 ^ 64 \<Longrightarrow> uint (word_of_int k :: 64 word) = k"
  by (simp add: uint_word_of_int)

lemma uint_tso: "0 \<le> n \<Longrightarrow> n * 2 ^ 18 \<le> uint (w :: 64 word) \<Longrightarrow> uint (tso_of_ms n) = n * 2 ^ 18"
  unfolding tso_of_ms_def using uint_bounded [of w] by (intro uint_of_int_word) simp_all

lemma uint_drop_18: "uint (drop_bit 18 ts) = uint (ts :: 64 word) div 2 ^ 18"
  by (simp only: uint_nat unat_drop_bit_eq) (simp only: drop_bit_eq_div zdiv_int of_nat_numeral of_nat_power)

lemma uint_div_nonneg: "0 \<le> uint (ts :: 64 word) div 2 ^ 18"
  by (simp add: pos_imp_zdiv_nonneg_iff)

text \<open>A whole millisecond after the oldest base and no later than the checkpoint lies between the two.\<close>

lemma target_between:
  assumes "go_time_law L" "tsTime lo + 1000000 \<le> d" "d \<le> tsTime hi"
  shows "lo \<le> time_to_ts L d \<and> time_to_ts L d \<le> hi"
proof -
  let ?n = "d div 1000000"
  from assms(2) uint_div_nonneg [of lo] have "0 \<le> d" by (simp add: tsTime_def uint_drop_18)
  have lo: "uint lo div 2 ^ 18 + 1 \<le> ?n" and hi: "?n \<le> uint hi div 2 ^ 18"
    using assms(2,3) by (simp_all add: tsTime_def uint_drop_18)
  have n: "?n * 2 ^ 18 \<le> uint hi" "uint lo \<le> ?n * 2 ^ 18" using lo hi by simp_all
  have "uint (time_to_ts L d) = ?n * 2 ^ 18"
    using assms(1) \<open>0 \<le> d\<close> uint_tso [OF _ n(1)] by (simp add: go_time_law_def)
  with n show ?thesis by (simp add: word_le_def)
qed

text \<open>C20: every point of the published window is restorable, up to the millisecond the TSOs are
  published with: for a time at least a millisecond after the earliest restorable time and at most the
  latest, the reads of a point-in-time restore into any Instance find the log far enough and a base
  backup to start from, as long as the cluster still answers with the same backups and log.\<close>

theorem window_is_restorable:
  assumes "go_time_law (cx_lib c)" "serves (ev_br_backup E) BB" "\<And>h. ev_backups E h = Inr bs"
    and "pitrWindow c storage now E h = (Inr w, t)" "pw_available w" "pw_earliest w = Some e" "pw_latest w = Some l"
    and "e + 1000000 \<le> d" "d \<le> l" "cx_lib c' = cx_lib c"
    and "is_stream (cx_lib c) BB (c_name c) storage stream" "pitrBases c' (c_name c) storage stream E h' = (Inr bases, t')"
  shows "time_to_ts (cx_lib c) d \<le> ls_checkpoint stream \<and> pick_base (time_to_ts (cx_lib c) d) None bases \<noteq> None"
proof -
  from runs_valueD [OF pitrWindow_runs [where c = c and bs = bs and E = E, OF assms(2,3)] assms(4)] assms(5-7)
  obtain stream' base where base: "is_stream (cx_lib c) BB (c_name c) storage stream'"
    "is_base (cx_lib c) BB bs (c_name c) storage (floor_of stream') base"
    "e = tsTime (pb_ts base)" "l = tsTime (ls_checkpoint stream')"
    by auto
  with assms(11) have "stream' = stream" using is_stream_unique by blast
  with base runs_valueD [OF pitrBases_runs [where c = c' and bs = bs and E = E, OF assms(2,3)] assms(12)] assms(10)
  have "base \<in> set bases" by simp
  moreover have "pb_ts base \<le> time_to_ts (cx_lib c) d \<and> time_to_ts (cx_lib c) d \<le> ls_checkpoint stream"
    using target_between [OF assms(1), of "pb_ts base" d "ls_checkpoint stream"] assms(8,9) base(3,4) \<open>stream' = stream\<close> by simp
  ultimately show ?thesis by (auto simp: pick_base_None not_less)
qed

definition tso_ctx :: ctx where
  "tso_ctx = sample_ctx\<lparr>cx_lib := sample_lib\<lparr>time_to_ts := \<lambda>t. tso_of_ms (t div 1000000)\<rparr>\<rparr>"

definition window_store :: store where
  "window_store = empty_store\<lparr>so_br_backup := [''db-pitr'' \<mapsto> log_sample, ''b1'' \<mapsto> snapshot_sample],
     so_backups := [(base_backup ''ns'' ''b1'' ''db'')\<lparr>bk_storage := ''s3''\<rparr>]\<rparr>"

abbreviation sample_stream :: logStream where
  "sample_stream \<equiv> \<lparr>ls_start = 2 ^ 18, ls_truncated = 0, ls_checkpoint = 3 * 2 ^ 18\<rparr>"

theorem window_is_restorable_witness:
  "\<exists>bases t. pitrBases tso_ctx ''db'' ''s3'' sample_stream (env_of window_store) [] = (Inr bases, t) \<and>
     pick_base (tso_of_ms 3) None bases \<noteq> None"
proof -
  let ?E = "env_of window_store" and ?BB = "[''db-pitr'' \<mapsto> log_sample, ''b1'' \<mapsto> snapshot_sample]"
    and ?bs = "[(base_backup ''ns'' ''b1'' ''db'')\<lparr>bk_storage := ''s3''\<rparr>]"
  have log: "not_deleting (bb_meta log_sample)" "log_storage_of log_sample = ''s3''" "bb_phase log_sample = BrRunning"
    "bb_commit_ts log_sample = ''1''" "bb_checkpoint_ts log_sample = ''333''" "bb_truncate_ts log_sample = ''''"
    by (simp_all add: log_sample_def zero_br_backup_def bare_meta_def not_deleting_def log_storage_of_def lookup_str_def)
  have snap: "bb_mode snapshot_sample = ModeUnset" "bb_phase snapshot_sample = BrComplete" "bb_commit_ts snapshot_sample = ''22''"
    by (simp_all add: snapshot_sample_def zero_br_backup_def)
  have store: "so_br_backup window_store = ?BB" "so_backups window_store = ?bs"
    by (simp_all add: window_store_def)
  have c: "c_name tso_ctx = ''db''" "cx_lib tso_ctx = sample_lib\<lparr>time_to_ts := \<lambda>t. tso_of_ms (t div 1000000)\<rparr>"
    by (simp_all add: tso_ctx_def sample_ctx_def sample_instance_def c_name_def bare_meta_def)
  have ts: "tsTime 524288 = 2000000" "tsTime 786432 = 3000000"
    by (simp_all add: tsTime_def uint_drop_18)
  obtain bases t where bases: "pitrBases tso_ctx ''db'' ''s3'' sample_stream ?E [] = (Inr bases, t)"
    by (simp add: pitrBases_def base_of_def base_backup_def bare_meta_def c snap store io_eval)
  obtain w t' where w: "pitrWindow tso_ctx ''s3'' 0 ?E [] = (Inr w, t')" "pw_available w"
      "pw_earliest w = Some 2000000" "pw_latest w = Some 3000000"
    by (simp add: pitrWindow_def openLogStream_def read_ts_def pitrBases_def base_of_def available_window_def
        base_backup_def bare_meta_def logBackupName_def logBackupSuffix_def time_sub_def logBackupMaxLag_def minute_def second_def
        c log snap store ts io_eval)
  have "is_stream (cx_lib tso_ctx) ?BB (c_name tso_ctx) ''s3'' sample_stream"
    by (simp add: is_stream_def c log logBackupName_def logBackupSuffix_def)
  with window_is_restorable [OF _ _ _ w, where c' = tso_ctx and d = 3000000 and BB = ?BB and bs = ?bs
      and stream = sample_stream and bases = bases and h' = "[]" and t' = t] bases
  show ?thesis by (simp add: c go_time_law_def serves_serve store)
qed

text \<open>The earliest restorable time itself is not restorable unless the base was taken at the first tick of
  its millisecond: it is published rounded down, so the target it stands for lies before the base.\<close>

lemma earliest_time_not_restorable:
  assumes "go_time_law L" "uint (pb_ts base) mod 2 ^ 18 \<noteq> 0" "sorted (map pb_ts (base # bases))"
  shows "pick_base (time_to_ts L (tsTime (pb_ts base))) None (base # bases) = None"
proof -
  let ?n = "uint (pb_ts base) div 2 ^ 18"
  have n: "?n * 2 ^ 18 \<le> uint (pb_ts base)" "?n * 2 ^ 18 \<noteq> uint (pb_ts base)"
    using assms(2) by (simp, metis mod_mult_self2_is_0)
  have "uint (time_to_ts L (tsTime (pb_ts base))) = ?n * 2 ^ 18"
    using assms(1) uint_tso [OF uint_div_nonneg n(1)] uint_div_nonneg [of "pb_ts base"]
    by (simp add: go_time_law_def tsTime_def uint_drop_18)
  with n have "time_to_ts L (tsTime (pb_ts base)) < pb_ts base" by (simp add: word_less_def)
  with assms(3) show ?thesis by (auto simp: pick_base_None)
qed

section \<open>A backup that is named like the log backup\<close>

text \<open>The log backup is recognised by its name only: with point-in-time recovery off, the BR Backup of a
  snapshot Backup named <instance>-pitr is deleted by the next pass, its data as well where the Backup's
  clean policy says so.\<close>

lemma namesake_is_deleted:
  assumes "rd_exists (ev_br_backup E) h (logBackupName (c_name c)) = Inr (Some b)" "not_deleting (bb_meta b)"
    and "pitrStorage (in_backup (cx_instance c)) = None"
  shows "Delete KBRBackup (om_name (bb_meta b)) \<in> set (snd (syncLogBackup c E h))"
  by (simp add: syncLogBackup_def Let_def exists_br_backup_def bnd_ask assms delete_obj_def bnd_run_Inr do_write_run)

end
