(* ===== verification/Status.thy ===== *)
theory Status
  imports Certificates
begin

text \<open>
  internal/provider/status.go: the phase of the Instance from its component groups, the problems the
  operator reports on their members, and the connection details of a ready Instance.
\<close>

section \<open>One component group\<close>

record componentProblem =
  cp_message :: string
  cp_fatal :: bool

definition no_problem :: componentProblem where
  "no_problem = \<lparr>cp_message = '''', cp_fatal = False\<rparr>"

text \<open>commonStatus and groupStatus are one record (theory Objects).\<close>

record groupRollout =
  gr_component :: comp
  gr_replicas :: "int option"
  gr_version :: string
  gr_status :: group_status
  gr_problem :: componentProblem
  gr_removing :: bool

definition converged :: "groupRollout \<Rightarrow> bool" where
  "converged g =
     (if gr_removing g \<or> gr_replicas g = None \<or> gr_replicas g = Some 0 then False
      else
        (let desired = the (gr_replicas g); s = gr_status g in
         gs_replicas s = desired \<and> gs_ready s = desired \<and> gs_updated s = desired \<and> gs_current s = desired \<and>
         gs_update_revision s = gs_current_revision s \<and> gs_version s = gr_version g))"

definition desired :: "groupRollout \<Rightarrow> int" where
  "desired g = (if gr_removing g then 0 else case gr_replicas g of None \<Rightarrow> 0 | Some n \<Rightarrow> n)"

definition summary :: "lib \<Rightarrow> groupRollout \<Rightarrow> string" where
  "summary L g =
     (let counts = (if gr_removing g then ''removing''
                    else itoa (gs_ready (gr_status g)) @ ''/'' @ itoa (desired g) @ '' ready'');
          reason = (if cp_message (gr_problem g) = '''' then
                      (case find_condition L (gs_conditions (gr_status g)) (api_const L ''CondReady'') of
                         Some cond \<Rightarrow> if cond_status cond = CondFalse then cond_message cond else ''''
                       | None \<Rightarrow> '''')
                    else cp_message (gr_problem g))
      in if reason = '''' then comp_name (gr_component g) @ '' ('' @ counts @ '')''
         else comp_name (gr_component g) @ '' ('' @ counts @ '': '' @ reason @ '')'')"

section \<open>The phase of the Instance\<close>

record connection =
  cd_type :: string
  cd_provider :: string
  cd_username :: string
  cd_host :: string
  cd_port :: string
  cd_password :: string
  cd_ca :: "string option"

text \<open>The statuses the runtime's constructors make (controller.Ready, Failed, Updating,
  Provisioning and Restoring); the connection details belong to Ready.\<close>

datatype inst_status = StReady "connection option" | StFailed string | StUpdating string
  | StProvisioning string | StRestoring string

text \<open>The loop of evaluateStatus: the first failure and the summaries of the groups still pending.\<close>

fun status_loop :: "lib \<Rightarrow> groupRollout list \<Rightarrow> string \<Rightarrow> string list \<Rightarrow> string \<times> string list" where
  "status_loop L [] failure pending = (failure, pending)"
| "status_loop L (g # gs) failure pending =
     status_loop L gs
       (if cp_fatal (gr_problem g) \<and> failure = ''''
        then comp_name (gr_component g) @ '' is failing: '' @ cp_message (gr_problem g) else failure)
       (if converged g then pending else pending @ [summary L g])"

definition evaluateStatus :: "lib \<Rightarrow> phase \<Rightarrow> groupRollout list \<Rightarrow> inst_status" where
  "evaluateStatus L previous groups =
     (let (failure, pending) = status_loop L groups '''' [];
          all = join_str pending '', '' in
      if failure \<noteq> '''' then StFailed failure
      else if pending = [] then StReady None
      else if previous = PhReady \<or> previous = PhUpdating then StUpdating (''Rolling out changes to '' @ all)
      else StProvisioning (''Waiting for '' @ all))"

section \<open>Problems of the members\<close>

definition maxCrashLoopBackOff :: string where "maxCrashLoopBackOff = ''back-off 5m0s''"

definition stuckWaitingReasons :: "string list" where
  "stuckWaitingReasons = [''ImagePullBackOff'', ''ErrImageNeverPull'', ''InvalidImageName'',
     ''CreateContainerConfigError'']"

definition isStuckContainer :: "string \<Rightarrow> bool" where
  "isStuckContainer message =
     (if contains_str message ''reason: CrashLoopBackOff'' then contains_str message maxCrashLoopBackOff
      else \<exists>reason \<in> set stuckWaitingReasons. contains_str message (''reason: '' @ reason))"

definition false_condition :: "lib \<Rightarrow> condition list \<Rightarrow> string \<Rightarrow> condition option" where
  "false_condition L conds ty =
     (case find_condition L conds ty of
        None \<Rightarrow> None
      | Some cond \<Rightarrow> if cond_status cond = CondFalse then Some cond else None)"

definition instanceProblem :: "lib \<Rightarrow> string \<Rightarrow> condition list \<Rightarrow> componentProblem option" where
  "instanceProblem L i conds =
     (case false_condition L conds (api_const L ''CondRunning'') of
        Some cond \<Rightarrow> Some \<lparr>cp_message = ''instance '' @ i @ '': '' @ cond_message cond,
                           cp_fatal = isStuckContainer (cond_message cond)\<rparr>
      | None \<Rightarrow>
          (case false_condition L conds (api_const L ''CondReady'') of
             Some cond \<Rightarrow> Some \<lparr>cp_message = ''instance '' @ i @ '': '' @ cond_message cond, cp_fatal = False\<rparr>
           | None \<Rightarrow> None))"

type_synonym problems = "comp \<rightharpoonup> componentProblem"

definition recordProblem :: "lib \<Rightarrow> problems \<Rightarrow> comp \<Rightarrow> member \<Rightarrow> problems" where
  "recordProblem L problems k m =
     (case instanceProblem L (mb_name m) (mb_conditions m) of
        None \<Rightarrow> problems
      | Some p \<Rightarrow>
          (case problems k of
             None \<Rightarrow> problems(k \<mapsto> p)
           | Some existing \<Rightarrow> if cp_fatal existing \<or> \<not> cp_fatal p then problems else problems(k \<mapsto> p)))"

fun record_members :: "lib \<Rightarrow> problems \<Rightarrow> comp \<Rightarrow> member list \<Rightarrow> problems" where
  "record_members L problems k [] = problems"
| "record_members L problems k (m # ms) = record_members L (recordProblem L problems k m) k ms"

text \<open>The five lists are read one after another.\<close>

fun read_problems :: "ctx \<Rightarrow> comp list \<Rightarrow> problems \<Rightarrow> problems io" where
  "read_problems c [] problems = ret problems"
| "read_problems c (k # ks) problems =
     bnd (list_members k [(api_const (cx_lib c) ''LabelKeyCluster'', c_name c)]) (\<lambda>r.
     bnd (or_wrap (''listing '' @ comp_name k @ '' instances'') r) (\<lambda>ms.
     read_problems c ks (record_members (cx_lib c) problems k ms)))"

definition instanceProblems :: "ctx \<Rightarrow> problems io" where
  "instanceProblems c = read_problems c [PD, TiKV, TiDB, TiFlash, TiProxy] Map.empty"

section \<open>Connection details\<close>

definition connection_host :: "ctx \<Rightarrow> string" where
  "connection_host c =
     (if enabledTiProxy (c_components c) \<noteq> None then c_name c @ ''-tiproxy.'' @ c_namespace c
      else c_name c @ ''-tidb.'' @ c_namespace c)"

definition connection_port :: "ctx \<Rightarrow> string" where
  "connection_port c =
     (if enabledTiProxy (c_components c) \<noteq> None then itoa (api_port (cx_lib c) ''DefaultTiProxyPortClient'')
      else itoa (api_port (cx_lib c) ''DefaultTiDBPortClient''))"

definition connectionDetails :: "ctx \<Rightarrow> connection io" where
  "connectionDetails c =
     bnd (readRootPassword c) (\<lambda>password.
       let details = \<lparr>cd_type = ''mysql'', cd_provider = ProviderName, cd_username = rootUser,
                      cd_host = connection_host c, cd_port = connection_port c, cd_password = password, cd_ca = None\<rparr> in
       if tls_Client (tlsSettings c) then
         bnd (attempt (readClientCA c)) (\<lambda>r.
           case r of
             Inr (Some ca) \<Rightarrow> if ca \<noteq> '''' then ret (details\<lparr>cd_ca := Some ca\<rparr>) else ret details
           | _ \<Rightarrow> ret details)
       else ret details)"

section \<open>StatusTiDB\<close>

definition rollout_of :: "group \<Rightarrow> groupRollout" where
  "rollout_of g = \<lparr>gr_component = g_comp g, gr_replicas = g_replicas g, gr_version = g_version g,
     gr_status = g_status g, gr_problem = no_problem, gr_removing = False\<rparr>"

text \<open>The switch over an optional component: enabled but not created yet, there, or neither.\<close>

definition optional_rollout :: "comp \<Rightarrow> component_spec option \<Rightarrow> int \<Rightarrow> group option \<Rightarrow> groupRollout list" where
  "optional_rollout k enabled dflt found =
     (case found of
        None \<Rightarrow>
          (case enabled of
             None \<Rightarrow> []
           | Some co \<Rightarrow> [\<lparr>gr_component = k, gr_replicas = Some (replicasOrDefault (co_replicas co) dflt),
               gr_version = '''', gr_status = zero_group_status, gr_problem = no_problem, gr_removing = False\<rparr>])
      | Some g \<Rightarrow> [(rollout_of g)\<lparr>gr_component := k, gr_removing := enabled = None\<rparr>])"

definition set_problem :: "problems \<Rightarrow> groupRollout \<Rightarrow> groupRollout" where
  "set_problem problems g =
     g\<lparr>gr_problem := (case problems (gr_component g) of None \<Rightarrow> no_problem | Some p \<Rightarrow> p)\<rparr>"

text \<open>The groups StatusTiDB looks at.\<close>

definition rollouts :: "ctx \<Rightarrow> group \<Rightarrow> group \<Rightarrow> group \<Rightarrow> group option \<Rightarrow> group option \<Rightarrow> groupRollout list" where
  "rollouts c pd tikv tidb tiflash tiproxy =
     [(rollout_of pd)\<lparr>gr_component := PD\<rparr>, (rollout_of tikv)\<lparr>gr_component := TiKV\<rparr>,
      (rollout_of tidb)\<lparr>gr_component := TiDB\<rparr>] @
     optional_rollout TiFlash (enabledTiFlash (c_components c)) defaultTiFlashReplicas tiflash @
     optional_rollout TiProxy (enabledTiProxy (c_components c)) defaultTiProxyReplicas tiproxy"

text \<open>The status from the three required groups on.\<close>

definition status_of_groups :: "ctx \<Rightarrow> group \<Rightarrow> group \<Rightarrow> group \<Rightarrow> inst_status io" where
  "status_of_groups c pd tikv tidb =
     bnd (exists_group TiFlash (c_name c)) (\<lambda>r.
     bnd (or_wrap ''get tiflash group'' r) (\<lambda>tiflash.
     bnd (exists_group TiProxy (c_name c)) (\<lambda>r.
     bnd (or_wrap ''get tiproxy group'' r) (\<lambda>tiproxy.
     bnd (instanceProblems c) (\<lambda>problems.
       let status = evaluateStatus (cx_lib c) (in_phase (cx_instance c))
             (map (set_problem problems) (rollouts c pd tikv tidb tiflash tiproxy)) in
       if status = StReady None then bnd (connectionDetails c) (\<lambda>d. ret (StReady (Some d)))
       else ret status)))))"

definition StatusTiDB :: "ctx \<Rightarrow> inst_status io" where
  "StatusTiDB c =
     bnd get_data_source_status (\<lambda>ds.
       if (case ds of None \<Rightarrow> False | Some s \<Rightarrow> \<not> ds_done s) then ret (StRestoring (ds_message (the ds)))
       else
         bnd (get_group PD (c_name c)) (\<lambda>r.
           case r of Inl _ \<Rightarrow> ret (StProvisioning ''Waiting for PD group to be created'') | Inr pd \<Rightarrow>
         bnd (get_group TiKV (c_name c)) (\<lambda>r.
           case r of Inl _ \<Rightarrow> ret (StProvisioning ''Waiting for TiKV group to be created'') | Inr tikv \<Rightarrow>
         bnd (get_group TiDB (c_name c)) (\<lambda>r.
           case r of Inl _ \<Rightarrow> ret (StProvisioning ''Waiting for TiDB group to be created'') | Inr tidb \<Rightarrow>
         status_of_groups c pd tikv tidb))))"

section \<open>The decision\<close>

definition failure_of :: "groupRollout \<Rightarrow> string" where
  "failure_of g = comp_name (gr_component g) @ '' is failing: '' @ cp_message (gr_problem g)"

lemma failure_nonempty [simp]: "failure_of g \<noteq> ''''"
  by (simp add: failure_of_def)

lemma status_loop_eq:
  "status_loop L gs failure pending =
    ((if failure = '''' then (case find (\<lambda>g. cp_fatal (gr_problem g)) gs of None \<Rightarrow> '''' | Some g \<Rightarrow> failure_of g)
      else failure),
     pending @ map (summary L) (filter (\<lambda>g. \<not> converged g) gs))"
  by (induction gs arbitrary: failure pending) (auto simp: failure_of_def)

lemma evaluateStatus_eq:
  "evaluateStatus L previous gs =
    (case find (\<lambda>g. cp_fatal (gr_problem g)) gs of
       Some g \<Rightarrow> StFailed (failure_of g)
     | None \<Rightarrow>
         (let pending = filter (\<lambda>g. \<not> converged g) gs in
          if pending = [] then StReady None
          else if previous \<in> {PhReady, PhUpdating}
            then StUpdating (''Rolling out changes to '' @ join_str (map (summary L) pending) '', '')
            else StProvisioning (''Waiting for '' @ join_str (map (summary L) pending) '', '')))"
  by (simp add: evaluateStatus_def status_loop_eq Let_def split: option.split)

lemma evaluateStatus_ready:
  "evaluateStatus L previous gs = StReady d \<longleftrightarrow>
     d = None \<and> (\<forall>g \<in> set gs. converged g \<and> \<not> cp_fatal (gr_problem g))"
  by (auto simp: evaluateStatus_eq Let_def find_None_iff filter_empty_conv split: option.splits dest: find_SomeD)

section \<open>Problems, most severe first\<close>

definition worst :: "componentProblem list \<Rightarrow> componentProblem option" where
  "worst ps = (case find cp_fatal ps of Some p \<Rightarrow> Some p | None \<Rightarrow> (case ps of [] \<Rightarrow> None | p # _ \<Rightarrow> Some p))"

definition member_problems :: "lib \<Rightarrow> member list \<Rightarrow> componentProblem list" where
  "member_problems L ms = List.map_filter (\<lambda>m. instanceProblem L (mb_name m) (mb_conditions m)) ms"

lemma member_problems_simps [simp]:
  "member_problems L [] = []"
  "member_problems L (m # ms) =
     (case instanceProblem L (mb_name m) (mb_conditions m) of None \<Rightarrow> member_problems L ms | Some p \<Rightarrow> p # member_problems L ms)"
  by (simp_all add: member_problems_def List.map_filter_simps split: option.split)

lemma worst_simps [simp]:
  "worst [] = None" "worst [p] = Some p"
  "worst (p # q # ps) = worst ((if cp_fatal p \<or> \<not> cp_fatal q then p else q) # ps)"
  by (simp_all add: worst_def split: option.split)

lemma record_members_other: "j \<noteq> k \<Longrightarrow> record_members L pr k ms j = pr j"
  by (induction ms arbitrary: pr) (simp_all add: recordProblem_def split: option.split)

lemma record_members_same:
  "record_members L pr k ms k =
     worst ((case pr k of None \<Rightarrow> [] | Some p \<Rightarrow> [p]) @ member_problems L ms)"
  by (induction ms arbitrary: pr) (simp_all add: recordProblem_def split: option.split)

text \<open>The problem of a component when the members of every kind are \<open>M\<close>.\<close>

definition problem_among :: "ctx \<Rightarrow> (comp \<Rightarrow> (string \<times> string) list \<Rightarrow> api_err + member list) \<Rightarrow> comp \<Rightarrow> componentProblem option" where
  "problem_among c M k = (case M k [(api_const (cx_lib c) ''LabelKeyCluster'', c_name c)] of
     Inl _ \<Rightarrow> None | Inr ms \<Rightarrow> worst (member_problems (cx_lib c) ms))"

lemma read_problems_runs:
  assumes "\<And>h. ev_members E h = M" "distinct ks" "\<And>k. k \<in> set ks \<Longrightarrow> pr k = None"
  shows "runs E (\<lambda>_. True) (\<lambda>pr'. \<forall>k. pr' k = (if k \<in> set ks then problem_among c M k else pr k)) (read_problems c ks pr)"
  using assms(2-)
proof (induction ks arbitrary: pr)
  case Nil
  then show ?case by (auto intro: runs_intro)
next
  case (Cons j ks)
  show ?case
    unfolding read_problems.simps list_members_def
  proof (rule runs_bnd_known, simp add: assms(1), simp, rule runs_bnd_or_wrap)
    fix ms
    assume ms: "M j [(api_const (cx_lib c) ''LabelKeyCluster'', c_name c)] = Inr ms"
    from Cons.prems have none: "record_members (cx_lib c) pr j ms k = None" if "k \<in> set ks" for k
      using that by (subst record_members_other) auto
    show "runs E (\<lambda>_. True) (\<lambda>pr'. \<forall>k. pr' k = (if k \<in> set (j # ks) then problem_among c M k else pr k))
        (read_problems c ks (record_members (cx_lib c) pr j ms))"
      using Cons.prems ms
      by (intro runs_weaken [OF Cons.IH [OF _ none]])
        (auto simp: record_members_other record_members_same problem_among_def)
  qed
qed

lemma instanceProblems_runs:
  assumes "\<And>h. ev_members E h = M"
  shows "runs E (\<lambda>_. True) (\<lambda>pr. pr = problem_among c M) (instanceProblems c)"
proof -
  have all: "k \<in> set [PD, TiKV, TiDB, TiFlash, TiProxy]" for k by (cases k) simp_all
  show ?thesis
    unfolding instanceProblems_def
    by (rule runs_weaken [OF read_problems_runs [where c = c and M = M and E = E, OF assms]])
      (use all in \<open>auto intro!: ext\<close>)
qed

lemma worst_not_fatal:
  assumes "\<And>q. worst ps = Some q \<Longrightarrow> \<not> cp_fatal q" "p \<in> set ps"
  shows "\<not> cp_fatal p"
proof (cases "find cp_fatal ps")
  case None
  with assms(2) show ?thesis by (auto simp: find_None_iff)
next
  case (Some q)
  then have "worst ps = Some q" by (simp add: worst_def)
  with assms(1) Some find_SomeD show ?thesis by metis
qed

text \<open>The problem reported for a component is the first fatal one among its members (in list order),
  or else the first one; a component without a problem member has none.\<close>

theorem instanceProblems_worst:
  assumes "\<And>h. ev_members E h = M" "instanceProblems c E h = (Inr problems, t)"
  shows "problems k = (case M k [(api_const (cx_lib c) ''LabelKeyCluster'', c_name c)] of
     Inl _ \<Rightarrow> None | Inr ms \<Rightarrow> worst (member_problems (cx_lib c) ms))"
  using runs_valueD [OF instanceProblems_runs [of E M, OF assms(1)] assms(2)]
  by (simp add: problem_among_def)

definition sick_member :: member where
  "sick_member = \<lparr>mb_name = ''kv-0'', mb_conditions = [\<lparr>cond_type = ''CondReady'', cond_status = CondFalse,
     cond_message = ''down''\<rparr>], mb_features = []\<rparr>"

theorem instanceProblems_worst_witness:
  "\<exists>problems t. instanceProblems sample_ctx (env_of (empty_store\<lparr>so_members := \<lambda>k. [sick_member]\<rparr>)) [] = (Inr problems, t) \<and>
     problems TiKV = Some \<lparr>cp_message = ''instance kv-0: down'', cp_fatal = False\<rparr>"
proof -
  let ?E = "env_of (empty_store\<lparr>so_members := \<lambda>k. [sick_member]\<rparr>)"
  obtain problems t where run: "instanceProblems sample_ctx ?E [] = (Inr problems, t)"
    by (simp add: instanceProblems_def io_eval)
  have "ev_members ?E h = (\<lambda>k sel. Inr [sick_member])" for h
    by (intro ext) simp
  from instanceProblems_worst [OF this run, of TiKV] run show ?thesis
    by (simp add: instanceProblem_def false_condition_def sick_member_def)
qed

section \<open>A ready Instance\<close>

text \<open>A group whose members all run its current revision and are ready.\<close>

definition serving :: "group \<Rightarrow> bool" where
  "serving g \<longleftrightarrow> (\<exists>n. g_replicas g = Some n \<and> n \<noteq> 0 \<and> gs_replicas (g_status g) = n \<and>
     gs_ready (g_status g) = n \<and> gs_updated (g_status g) = n \<and> gs_current (g_status g) = n \<and>
     gs_update_revision (g_status g) = gs_current_revision (g_status g) \<and>
     gs_version (g_status g) = g_version g)"

lemma converged_iff:
  "converged g \<longleftrightarrow> \<not> gr_removing g \<and> (\<exists>n. gr_replicas g = Some n \<and> n \<noteq> 0 \<and> gs_replicas (gr_status g) = n \<and>
     gs_ready (gr_status g) = n \<and> gs_updated (gr_status g) = n \<and> gs_current (gr_status g) = n \<and>
     gs_update_revision (gr_status g) = gs_current_revision (gr_status g) \<and>
     gs_version (gr_status g) = gr_version g)"
  by (cases "gr_replicas g") (auto simp: converged_def Let_def)

lemma rollout_simps [simp]:
  "gr_component (set_problem pr r) = gr_component r" "gr_replicas (set_problem pr r) = gr_replicas r"
  "gr_version (set_problem pr r) = gr_version r" "gr_status (set_problem pr r) = gr_status r"
  "gr_removing (set_problem pr r) = gr_removing r"
  "gr_replicas (rollout_of g) = g_replicas g" "gr_version (rollout_of g) = g_version g"
  "gr_status (rollout_of g) = g_status g" "gr_removing (rollout_of g) = False"
  by (simp_all add: set_problem_def rollout_of_def)

lemma converged_serving [simp]: "converged (set_problem pr ((rollout_of g)\<lparr>gr_component := k\<rparr>)) \<longleftrightarrow> serving g"
  by (simp add: converged_iff serving_def)

lemma optional_rollout_ready:
  assumes "\<forall>g \<in> set (optional_rollout k enabled dflt found). converged (set_problem pr g)" "dflt \<noteq> 0"
    and "\<And>co. enabled = Some co \<Longrightarrow> co_replicas co \<noteq> Some 0"
  shows "(enabled \<noteq> None \<longleftrightarrow> found \<noteq> None) \<and> (\<forall>g. found = Some g \<longrightarrow> serving g)"
proof (cases found)
  case None
  have "enabled = None"
  proof (cases enabled)
    case (Some co)
    with assms(2,3) have "replicasOrDefault (co_replicas co) dflt \<noteq> 0"
      by (cases "co_replicas co") auto
    with assms(1) Some None show ?thesis
      by (simp add: optional_rollout_def converged_iff zero_group_status_def)
  qed
  with None show ?thesis by simp
next
  case (Some g)
  with assms(1) show ?thesis by (auto simp: optional_rollout_def converged_iff serving_def)
qed

text \<open>What a Ready status says, given the groups \<open>G\<close> and the members \<open>M\<close>.\<close>

definition all_serving :: "ctx \<Rightarrow> (comp \<Rightarrow> string \<rightharpoonup> group) \<Rightarrow> (comp \<Rightarrow> (string \<times> string) list \<Rightarrow> api_err + member list) \<Rightarrow> bool" where
  "all_serving c G M \<longleftrightarrow>
     (\<forall>k \<in> {PD, TiKV, TiDB}. G k (c_name c) \<noteq> None) \<and>
     (G TiFlash (c_name c) \<noteq> None \<longleftrightarrow> enabledTiFlash (c_components c) \<noteq> None) \<and>
     (G TiProxy (c_name c) \<noteq> None \<longleftrightarrow> enabledTiProxy (c_components c) \<noteq> None) \<and>
     (\<forall>k g. G k (c_name c) = Some g \<longrightarrow> serving g \<and>
       (\<forall>ms. M k [(api_const (cx_lib c) ''LabelKeyCluster'', c_name c)] = Inr ms \<longrightarrow>
         (\<forall>p \<in> set (member_problems (cx_lib c) ms). \<not> cp_fatal p)))"

lemma ready_all_serving:
  assumes req: "G PD (c_name c) = Some pd" "G TiKV (c_name c) = Some tikv" "G TiDB (c_name c) = Some tidb"
    and ready: "\<forall>g \<in> set (rollouts c pd tikv tidb (G TiFlash (c_name c)) (G TiProxy (c_name c))).
      converged (set_problem (problem_among c M) g) \<and> \<not> cp_fatal (gr_problem (set_problem (problem_among c M) g))"
  shows "all_serving c G M"
proof -
  let ?n = "c_name c" and ?sel = "[(api_const (cx_lib c) ''LabelKeyCluster'', c_name c)]"
    and ?pr = "problem_among c M"
  have flash: "(enabledTiFlash (c_components c) \<noteq> None \<longleftrightarrow> G TiFlash ?n \<noteq> None) \<and> (\<forall>g. G TiFlash ?n = Some g \<longrightarrow> serving g)"
    using ready by (intro optional_rollout_ready [where pr = ?pr and k = TiFlash and dflt = defaultTiFlashReplicas])
      (auto simp: rollouts_def defaultTiFlashReplicas_def tiflash.enabled_iff)
  have proxy: "(enabledTiProxy (c_components c) \<noteq> None \<longleftrightarrow> G TiProxy ?n \<noteq> None) \<and> (\<forall>g. G TiProxy ?n = Some g \<longrightarrow> serving g)"
    using ready by (intro optional_rollout_ready [where pr = ?pr and k = TiProxy and dflt = defaultTiProxyReplicas])
      (auto simp: rollouts_def defaultTiProxyReplicas_def tiproxy.enabled_iff)
  have serving: "serving g" if "G k ?n = Some g" for k g
    using that req ready flash proxy by (cases k) (auto simp: rollouts_def)
  have "\<exists>g \<in> set (rollouts c pd tikv tidb (G TiFlash ?n) (G TiProxy ?n)). gr_component g = k" if "G k ?n = Some g" for k g
    using that by (cases k) (auto simp: rollouts_def optional_rollout_def)
  then have sound: "\<not> cp_fatal q" if "G k ?n = Some g" "?pr k = Some q" for k g q
    using that ready by (fastforce simp: set_problem_def)
  have healthy: "\<not> cp_fatal p" if "G k ?n = Some g" "M k ?sel = Inr ms" "p \<in> set (member_problems (cx_lib c) ms)" for k g ms p
    using worst_not_fatal [OF _ that(3)] sound [OF that(1)] that(2) by (simp add: problem_among_def)
  show ?thesis unfolding all_serving_def using req flash proxy serving healthy by blast
qed

lemma status_of_groups_runs:
  assumes "\<And>k. serves (ev_group E k) (G k)" "\<And>h. ev_members E h = M"
    and "G PD (c_name c) = Some pd" "G TiKV (c_name c) = Some tikv" "G TiDB (c_name c) = Some tidb"
  shows "runs E (\<lambda>_. True) (\<lambda>s. \<forall>d. s = StReady d \<longrightarrow> all_serving c G M) (status_of_groups c pd tikv tidb)"
proof -
  let ?gs = "rollouts c pd tikv tidb (G TiFlash (c_name c)) (G TiProxy (c_name c))"
  let ?st = "evaluateStatus (cx_lib c) (in_phase (cx_instance c)) (map (set_problem (problem_among c M)) ?gs)"
  have all: "all_serving c G M" if "?st = StReady d" for d
    using that ready_all_serving [where G = G and c = c and M = M, OF assms(3-5)] unfolding evaluateStatus_ready by simp
  have "runs E (\<lambda>_. True) (\<lambda>s. \<forall>d. s = StReady d \<longrightarrow> all_serving c G M)
     (if ?st = StReady None then bnd (connectionDetails c) (\<lambda>d. ret (StReady (Some d))) else ret ?st)"
    using all by (intro runs_intro runs_bnd [OF runs_calls [of "\<lambda>_. True"]]) (auto simp: calls_in_def)
  then show ?thesis
    unfolding status_of_groups_def Let_def
    by (intro runs_bnd_exists_group [OF assms(1)] runs_bnd [OF instanceProblems_runs [of E M, OF assms(2)]])
      (simp_all add: runs_bnd_or_wrap runs_bnd_exists_group [OF assms(1)] runs_bnd [OF instanceProblems_runs [of E M, OF assms(2)]])
qed

lemma runs_required_group:
  assumes "serves (ev_group E k) S" "R st" "\<And>g. S n = Some g \<Longrightarrow> runs E (\<lambda>_. True) R (f g)"
  shows "runs E (\<lambda>_. True) R (bnd (get_group k n) (\<lambda>r. case r of Inl _ \<Rightarrow> ret st | Inr g \<Rightarrow> f g))"
  using assms by (intro runs_bnd_get_group [OF assms(1)]) (auto simp: runs_ret split: option.split)

text \<open>C24: StatusTiDB says Ready only for an Instance that is: no seeding restore is in flight; PD, TiKV and
  TiDB run all their replicas, ready and on the current revision and version; TiFlash and TiProxy
  do so if the Instance has them and are gone if not; and no member is stuck.\<close>

theorem StatusTiDB_ready:
  assumes "\<And>k. serves (ev_group E k) (G k)" "\<And>h. ev_members E h = M" "\<And>h. ev_data_source E h = ds"
    and "StatusTiDB c E h = (Inr (StReady d), t)"
  shows "(\<forall>s. ds = Some s \<longrightarrow> ds_done s) \<and> all_serving c G M"
proof -
  have "runs E (\<lambda>_. True) (\<lambda>s. \<forall>d. s = StReady d \<longrightarrow> (\<forall>s. ds = Some s \<longrightarrow> ds_done s) \<and> all_serving c G M) (StatusTiDB c)"
    unfolding StatusTiDB_def get_data_source_status_def
    by (rule runs_bnd_known, rule assms(3), simp, intro runs_if runs_required_group [OF assms(1)]
        runs_weaken [OF status_of_groups_runs [OF assms(1,2)]])
      (auto simp: runs_ret split: option.splits)
  from runs_valueD [OF this assms(4)] show ?thesis by blast
qed

definition serving_group :: "comp \<Rightarrow> group" where
  "serving_group k = (sample_group k ''v8'' 3)\<lparr>g_status := \<lparr>gs_conditions = [], gs_update_revision = ''r1'',
     gs_current_revision = ''r1'', gs_replicas = 3, gs_ready = 3, gs_updated = 3, gs_current = 3, gs_version = ''v8''\<rparr>\<rparr>"

theorem StatusTiDB_ready_witness:
  "all_serving sample_ctx (\<lambda>k. if k \<in> {PD, TiKV, TiDB} then [''db'' \<mapsto> serving_group k] else Map.empty) (\<lambda>k sel. Inr [])"
proof -
  let ?G = "\<lambda>k. if k \<in> {PD, TiKV, TiDB} then [''db'' \<mapsto> serving_group k] else Map.empty"
  let ?E = "env_of (empty_store\<lparr>so_group := ?G\<rparr>)"
  have conv: "serving (serving_group k)" for k
    by (simp add: serving_def serving_group_def sample_group_def)
  have ready: "evaluateStatus sample_lib p (map (set_problem Map.empty)
     (rollouts sample_ctx (serving_group PD) (serving_group TiKV) (serving_group TiDB) None None)) = StReady None" for p
    unfolding evaluateStatus_ready
    by (simp add: rollouts_def optional_rollout_def conv enabledTiFlash_def enabledTiProxy_def)
      (simp add: set_problem_def no_problem_def)
  obtain d t where run: "StatusTiDB sample_ctx ?E [] = (Inr (StReady d), t)"
    by (simp add: StatusTiDB_def status_of_groups_def instanceProblems_def connectionDetails_def readRootPassword_def
        ready tlsSettings_def zero_TLS_def io_eval)
  have "serves (ev_group ?E k) (?G k)" "ev_members ?E h = (\<lambda>k sel. Inr [])" "ev_data_source ?E h = None" for k h
    by (auto intro!: ext simp: serves_serve)
  from StatusTiDB_ready [of ?E ?G, OF this run] show ?thesis by blast
qed

section \<open>Connecting over TLS\<close>

text \<open>C38: with client TLS the host a ready Instance advertises is a DNS name of the certificate its endpoint
  serves (TiProxy's while TiProxy runs, TiDB's otherwise), one of the certificates the provider
  keeps for the Instance, so a client can verify it.\<close>

theorem advertised_host_verifiable:
  assumes "tls_Client (tlsSettings c)" "connectionDetails c E h = (Inr d, t)"
  shows "\<exists>leaf \<in> set (needed_leaves c owner).
     lf_secretName leaf = (if enabledTiProxy (c_components c) \<noteq> None then tiproxyServerTLSSecretName (c_name c)
       else mysqlServerTLSSecretName (c_name c)) \<and>
     cd_host d \<in> set (lf_dnsNames leaf) \<and> ServerAuth \<in> set (lf_usages leaf)"
proof -
  have "runs E (\<lambda>_. True) (\<lambda>d. cd_host d = connection_host c) (connectionDetails c)"
    unfolding connectionDetails_def Let_def
    by (intro runs_bnd [OF runs_calls [of "\<lambda>_. True"]] runs_intro) (auto simp: calls_in_def split: sum.split option.split intro: runs_intro)
  from runs_valueD [OF this assms(2)] have "cd_host d = connection_host c" .
  let ?k = "if enabledTiProxy (c_components c) \<noteq> None then TiProxy else TiDB"
  let ?leaf = "\<lparr>lf_secretName = (if enabledTiProxy (c_components c) \<noteq> None then tiproxyServerTLSSecretName (c_name c)
       else mysqlServerTLSSecretName (c_name c)),
     lf_commonName = c_name c @ ''-'' @ comp_name ?k, lf_dnsNames = svc_names (c_name c @ ''-'' @ comp_name ?k) (c_namespace c),
     lf_usages = [ServerAuth]\<rparr>"
  have "?leaf \<in> set (needed_leaves c owner)"
    using assms(1) by (cases "enabledTiProxy (c_components c)") (simp_all add: needed_leaves_def tlsLeaves_def)
  moreover have "cd_host d \<in> set (lf_dnsNames ?leaf)"
    using \<open>cd_host d = connection_host c\<close> by (simp add: connection_host_def svc_names_def serviceDNSNames_def)
  ultimately show ?thesis by (intro bexI [of _ ?leaf]) simp_all
qed

theorem advertised_host_verifiable_witness:
  "\<exists>leaf \<in> set (needed_leaves (tls_sample_ctx \<lparr>tls_Cluster = False, tls_Client = True, tls_CertManager = None\<rparr>) sample_cluster).
     ''db-tidb.ns'' \<in> set (lf_dnsNames leaf) \<and> ServerAuth \<in> set (lf_usages leaf)"
proof -
  let ?c = "tls_sample_ctx \<lparr>tls_Cluster = False, tls_Client = True, tls_CertManager = None\<rparr>"
  have host: "connection_host ?c = ''db-tidb.ns''"
    by (simp add: connection_host_def enabledTiProxy_def c_components_def c_namespace_def sample_instance_def bare_meta_def)
  obtain d t where run: "connectionDetails ?c (env_of empty_store) [] = (Inr d, t)" and "cd_host d = ''db-tidb.ns''"
    by (simp add: connectionDetails_def readRootPassword_def readClientCA_def host io_eval)
  with advertised_host_verifiable [OF _ run, of sample_cluster] show ?thesis by auto
qed

end
