(* ===== verification/Effects.thy ===== *)
theory Effects
  imports BackupSchedule Monitor Recovery Status
begin

text \<open>
  The effects of the provider's operations: what kind of call on what kind of object each of them can make,
  whatever the cluster answers. \<open>only S m\<close> types an operation by the set of its effects; the types of the
  steps give those of SyncTiDB and of every other operation the runtime calls (theories Sync and
  Permissions).
\<close>

section \<open>Effects\<close>

text \<open>Reading or listing a kind, a write of a kind, granting permissions through a Role, a request to the runtime,
  and what needs no API server (the clock, random numbers, cryptography, environment variables, the REST
  mapper).\<close>

datatype effect = EGet kind | EList kind | EApply kind | EServerSide kind | EGrant "policy_rule list" | ECreateOrUpdate kind
  | ECreate kind | EUpdate kind | EDelete kind | EAdopt | EProvider | EStorage | ECredentials
  | EDataSource | ESetDataSource | ERestore | ELocal

fun effect_of :: "call \<Rightarrow> effect" where
  "effect_of (Get k n) = EGet k"
| "effect_of (Exists k n) = EGet k"
| "effect_of (ListMembers k sel) = EList (KMember k)"
| "effect_of ListBackups = EList KBackup"
| "effect_of (ListBackupsOf ns n) = EList KBackup"
| "effect_of GetProviderSpec = EProvider"
| "effect_of (GetBackupStorage n) = EStorage"
| "effect_of (GetCredentials n) = ECredentials"
| "effect_of GetDataSourceStatus = EDataSource"
| "effect_of (RESTMapping k) = ELocal"
| "effect_of (ReadEnv v) = ELocal"
| "effect_of Now = ELocal"
| "effect_of (RandomInt n) = ELocal"
| "effect_of (GenerateKey n) = ELocal"
| "effect_of (SignCert tmpl) = ELocal"
| "effect_of (Apply x) = EApply (obj_kind x)"
| "effect_of (ServerSideApply x j) = (case x of ORole m rules \<Rightarrow> EGrant rules | _ \<Rightarrow> EServerSide (obj_kind x))"
| "effect_of (CreateOrUpdate x) = ECreateOrUpdate (obj_kind x)"
| "effect_of (Create x) = ECreate (obj_kind x)"
| "effect_of (Update x) = EUpdate (obj_kind x)"
| "effect_of (Delete k n) = EDelete k"
| "effect_of (AdoptSecret n ref) = EAdopt"
| "effect_of (SetDataSourceStatus b m) = ESetDataSource"
| "effect_of ReconcileDataSource = ERestore"

definition only :: "effect set \<Rightarrow> 'a io \<Rightarrow> bool" where
  "only S m \<longleftrightarrow> calls_in (\<lambda>k. effect_of k \<in> S) m"

lemma onlyD: "only S m \<Longrightarrow> k \<in> set (snd (m E h)) \<Longrightarrow> effect_of k \<in> S"
  unfolding only_def calls_in_def by blast

lemma only_calls: "only S m \<Longrightarrow> (\<And>k. effect_of k \<in> S \<Longrightarrow> P k) \<Longrightarrow> calls_in P m"
  unfolding only_def by (rule calls_in_mono)

text \<open>A step of a known type inside an operation with more effects.\<close>

lemma only_sub: "only S m \<Longrightarrow> S \<subseteq> T \<Longrightarrow> calls_in (\<lambda>k. effect_of k \<in> T) m"
  unfolding only_def by (erule calls_in_mono) (rule subsetD)

section \<open>Secrets and passwords\<close>

abbreviation "secret_effects \<equiv> {EGet KSecret, EDelete KSecret}"

lemma currentSecret_only: "only secret_effects (currentSecret c u n)"
  unfolding only_def currentSecret_def get_secret_def by (intro calls_intro) simp_all

lemma generatePassword_only: "only {ELocal} (generatePassword n)"
  unfolding only_def by (induction n) (auto intro!: calls_intro)

lemma ensureRootPassword_only: "only (insert (EApply KSecret) (insert ELocal secret_effects)) (ensureRootPassword c)"
  unfolding only_def ensureRootPassword_def newRootPassword_def
  by (intro calls_intro only_sub [OF currentSecret_only] only_sub [OF generatePassword_only]) auto

lemma readRootPassword_only: "only {EGet KSecret} (readRootPassword c)"
  unfolding only_def by (intro calls_intro) simp

lemma recordBackupRootPassword_only: "meta_laws (cx_lib c) \<Longrightarrow> only {EGet KSecret, ECreate KSecret} (recordBackupRootPassword c b)"
  unfolding only_def by (intro calls_intro) simp_all

lemma first_password_only: "only {EGet KSecret} (first_password ns)"
  unfolding only_def get_secret_def by (induction ns) (auto intro!: calls_intro simp: get_secret_def)

lemma adoptRestoredRootPassword_only: "only {EGet KSecret, EApply KSecret} (adoptRestoredRootPassword c rst b t)"
  unfolding only_def adoptRestoredRootPassword_def restoredRootPassword_def get_secret_def
  by (intro calls_intro only_sub [OF first_password_only]) simp_all

section \<open>Server-side apply\<close>

lemma build_config_calls [calls_intro]: "calls_in P (build_config L x)"
  unfolding build_config_def by (intro calls_intro)

lemma apply_owned_only:
  assumes "meta_laws (cx_lib c)" "obj_kind x \<noteq> KRole"
  shows "only {EServerSide (obj_kind x)} (applyOwnedByCluster c owner x)"
proof (cases "controller_reference (cx_lib c) (OCluster owner) x")
  case (Inr y)
  with assms(1) have "obj_kind y = obj_kind x" unfolding meta_laws_def by metis
  with assms(2) have "effect_of (ServerSideApply y j) = EServerSide (obj_kind x)" for j by (cases y) simp_all
  with Inr show ?thesis
    unfolding only_def applyOwnedByCluster_def
    by (auto intro!: calls_intro)
qed (simp add: only_def applyOwnedByCluster_def calls_in_fail)

lemma ensureBackupManagerRBAC_only:
  "only {EServerSide KServiceAccount, EGrant backupManagerRules, EServerSide KRoleBinding} (ensureBackupManagerRBAC c ns)"
  unfolding only_def ensureBackupManagerRBAC_def applyServerSide_def backup_manager_objects_def Let_def
  by (auto intro!: calls_intro)

section \<open>The Cluster and its certificates\<close>

lemma clusterHasSessionTokenSigning_only: "only {EGet KCluster} (clusterHasSessionTokenSigning c)"
  unfolding only_def clusterHasSessionTokenSigning_def read_defs by (intro calls_intro) simp_all

lemma buildCluster_only: "only {EGet KCluster, EGet KSecret, EGet (KGroup TiDB), EList (KMember TiDB)} (buildCluster c)"
  unfolding only_def buildCluster_def existingClusterSessionTokenSigning_def readyForSessionTokenSigning_def read_defs
    newClusterSessionTokenSigning_def Let_def case_prod_beta
  by (intro calls_intro) simp_all

lemma adoptSecret_only: "only {EGet KCertificate, EGet KSecret, EAdopt} (adoptSecret c n)"
  unfolding only_def adoptSecret_def read_defs by (intro calls_intro) simp_all

lemma createOwned_only: "meta_laws (cx_lib c) \<Longrightarrow> only {ECreate KSecret} (createOwnedByCluster c owner sec)"
  unfolding only_def createOwnedByCluster_def
  by (cases "controller_reference (cx_lib c) (OCluster owner) (OSecret sec)")
    (auto intro!: calls_intro simp: meta_laws_def)

lemma check_no_leaf_only: "only secret_effects (check_no_leaf c u n ls)"
  unfolding only_def
  by (induction ls) (simp add: calls_in_ret, unfold check_no_leaf.simps, intro calls_intro only_sub [OF currentSecret_only], auto)

abbreviation "issue_effects \<equiv> {EGet KSecret, EDelete KSecret, ECreate KSecret, ELocal}"

lemma ensureCA_only: "meta_laws (cx_lib c) \<Longrightarrow> only issue_effects (ensureCA c owner leaves)"
  unfolding only_def ensureCA_def Let_def
  by (intro calls_intro only_sub [OF currentSecret_only] only_sub [OF check_no_leaf_only] only_sub [OF createOwned_only]) auto

lemma ensure_leaf_only: "meta_laws (cx_lib c) \<Longrightarrow> only issue_effects (ensure_leaf c owner ca leaf)"
  unfolding only_def ensure_leaf_def
  by (intro calls_intro only_sub [OF currentSecret_only] only_sub [OF createOwned_only]) auto

abbreviation "tls_effects \<equiv> issue_effects \<union> {EServerSide KIssuer, EServerSide KCertificate, EGet KCertificate, EAdopt}"

lemma ensureCertManagerIssuer_only: "meta_laws (cx_lib c) \<Longrightarrow> only tls_effects (ensureCertManagerIssuer c owner settings)"
  unfolding only_def ensureCertManagerIssuer_def
  by (intro calls_intro only_sub [OF adoptSecret_only] only_sub [OF apply_owned_only]) auto

lemma ensureTLSSecrets_only: "meta_laws (cx_lib c) \<Longrightarrow> only tls_effects (ensureTLSSecrets c owner)"
  unfolding only_def ensureTLSSecrets_def ensureCertManagerCertificates_def Let_def
  by (intro calls_intro only_sub [OF adoptSecret_only] only_sub [OF apply_owned_only] only_sub [OF ensureCA_only]
      only_sub [OF ensure_leaf_only] only_sub [OF ensureCertManagerIssuer_only]) auto

section \<open>Groups, monitoring, data\<close>

lemma addPDDNSWait_only: "only {EGet (KGroup PD)} (addPDDNSWait c g img)"
  unfolding only_def addPDDNSWait_def get_group_def Let_def by (intro calls_intro) simp_all

lemma addTiDBGracefulWait_only: "only {EGet (KGroup TiDB)} (addTiDBGracefulWait c g cl had)"
  unfolding only_def addTiDBGracefulWait_def exists_group_def Let_def by (intro calls_intro) simp_all

lemma remove_group_only: "only {EGet (KGroup k), EDelete (KGroup k)} (remove_group c k)"
  unfolding only_def remove_group_def exists_group_def by (intro calls_intro) simp_all

lemma clusterReady_only: "only {EGet (KGroup PD), EGet (KGroup TiKV), EGet (KGroup TiDB)} (clusterReady c)"
  unfolding only_def clusterReady_def get_group_def by (intro calls_intro) simp_all

lemma labelsFromEnv_only: "only {ELocal} (labelsFromEnv c v)"
  unfolding only_def labelsFromEnv_def by (intro calls_intro) simp_all

lemma syncMonitoring_only:
  "only {ELocal, EApply KPodMonitor, EDelete KPodMonitor, EApply KVMPodScrape, EDelete KVMPodScrape} (syncMonitoring c)"
  unfolding only_def syncMonitoring_def syncScraper_def Let_def
  by (intro calls_intro only_sub [OF labelsFromEnv_only])
    (simp_all add: prometheusScraper_def victoriaMetricsScraper_def buildPodMonitor_def buildVMPodScrape_def)

lemma reconcileDataSource_only:
  "only {EGet (KGroup PD), EGet (KGroup TiKV), EGet (KGroup TiDB), ESetDataSource, ERestore} (reconcileDataSource c)"
  unfolding only_def reconcileDataSource_def by (intro calls_intro only_sub [OF clusterReady_only]) auto

lemma ensureBRCredentials_only: "only {ECredentials, ECreateOrUpdate KSecret} (ensureBRCredentials c owner n st)"
  unfolding only_def by (intro calls_intro) simp_all

abbreviation "account_effects \<equiv> {ECredentials, ECreateOrUpdate KSecret, EServerSide KServiceAccount, EGrant backupManagerRules,
   EServerSide KRoleBinding}"

abbreviation "log_effects \<equiv> account_effects \<union> {EGet KBRBackup, EStorage, EApply KBRBackup, EDelete KBRBackup, EGet KSecret,
   EDelete KSecret, EDataSource, EGet (KGroup PD), EGet (KGroup TiKV), EGet (KGroup TiDB)}"

lemma syncLogBackup_only: "only log_effects (syncLogBackup c)"
proof -
  let ?P = "\<lambda>k. effect_of k \<in> log_effects"
  have ready: "calls_in ?P (readyForLogBackup c)"
    unfolding readyForLogBackup_def get_data_source_status_def
    by (intro calls_intro only_sub [OF clusterReady_only]) auto
  have run: "calls_in ?P (run_log_backup c ref)" for ref
    unfolding run_log_backup_def get_backup_storage_def
    by (intro calls_intro only_sub [OF ensureBRCredentials_only] only_sub [OF ensureBackupManagerRBAC_only]) auto
  show ?thesis
    unfolding only_def syncLogBackup_def exists_br_backup_def deleteSecretIfExists_def exists_secret_def Let_def
    by (intro calls_intro run ready) simp_all
qed

end
