(* ===== verification/Sync.thy ===== *)
theory Sync
  imports Effects
begin

text \<open>
  SyncTiDB of internal/provider/sync.go: one reconcile pass over an Instance, and the order in which it
  brings up the parts of a cluster.
\<close>

section \<open>SyncTiDB\<close>

text \<open>The component groups, once the Cluster is applied and its certificates are there.\<close>

definition sync_pd :: "ctx \<Rightarrow> string \<Rightarrow> cluster \<Rightarrow> unit io" where
  "sync_pd c spec owner =
     (let co = component_of (c_components c) PD; img = resolveImage (cx_lib c) spec (comp_name PD) co in
      bnd (addPDDNSWait c (buildPDGroup c co img) img) (\<lambda>g. applyOwnedByCluster c owner (OGroup g)))"

definition sync_tikv :: "ctx \<Rightarrow> string \<Rightarrow> cluster \<Rightarrow> unit io" where
  "sync_tikv c spec owner =
     (let co = component_of (c_components c) TiKV in
      applyOwnedByCluster c owner (OGroup (buildTiKVGroup c co (resolveImage (cx_lib c) spec (comp_name TiKV) co))))"

definition sync_tidb :: "ctx \<Rightarrow> string \<Rightarrow> cluster \<Rightarrow> cluster \<Rightarrow> bool \<Rightarrow> unit io" where
  "sync_tidb c spec owner applied hadSigning =
     (let co = component_of (c_components c) TiDB in
      bnd (addTiDBGracefulWait c (buildTiDBGroup c co (resolveImage (cx_lib c) spec (comp_name TiDB) co)) applied hadSigning)
        (\<lambda>g. applyOwnedByCluster c owner (OGroup g)))"

definition SyncTiDB :: "ctx \<Rightarrow> unit io" where
  "SyncTiDB c =
     bnd provider_spec (\<lambda>r.
     bnd (or_fail r) (\<lambda>spec.
     bnd (ensureRootPassword c) (\<lambda>password.
     thn (apply_obj (OConfigMap (buildBootstrapSQLConfigMap c password)))
     (bnd (clusterHasSessionTokenSigning c) (\<lambda>hadSigning.
     bnd (buildCluster c) (\<lambda>cluster.
     thn (apply_obj (OCluster cluster))
     (bnd (get_cluster (c_name c)) (\<lambda>r.
     bnd (or_wrap ''get cluster for ownership'' r) (\<lambda>owner.
     thn (ensureTLSSecrets c owner)
     (thn (sync_pd c spec owner)
     (thn (sync_tikv c spec owner)
     (thn (sync_tidb c spec owner cluster hadSigning)
     (thn (syncTiFlash c spec owner)
     (thn (syncTiProxy c spec owner)
     (thn (syncMonitoring c)
     (thn (reconcileDataSource c)
     (thn (syncLogBackup c)
     (err_or_ok (validateBackupSchedules (cx_lib c) (in_backup (cx_instance c)))))))))))))))))))))"

section \<open>Stages\<close>

text \<open>The stages of a pass and the calls that belong to one: the bootstrap SQL, the Cluster, the groups, the
  scrape objects, and what reads or restores data (the seeding restore and the log backup).\<close>

datatype stage = StBootstrap | StCluster | StGroup comp | StScrape kind | StData

fun stage_of_effect :: "effect \<Rightarrow> stage option" where
  "stage_of_effect (EApply k) =
     (if k = KConfigMap then Some StBootstrap
      else if k = KCluster then Some StCluster
      else if k \<in> {KPodMonitor, KVMPodScrape} then Some (StScrape k)
      else if k = KBRBackup then Some StData else None)"
| "stage_of_effect (EServerSide k) = (case k of KGroup c \<Rightarrow> Some (StGroup c) | _ \<Rightarrow> None)"
| "stage_of_effect (EDelete k) =
     (if k \<in> {KPodMonitor, KVMPodScrape} then Some (StScrape k) else if k = KBRBackup then Some StData else None)"
| "stage_of_effect ERestore = Some StData"
| "stage_of_effect ESetDataSource = Some StData"
| "stage_of_effect _ = None"

definition stage_of :: "call \<Rightarrow> stage option" where
  [simp]: "stage_of k = stage_of_effect (effect_of k)"

definition stages :: "hist \<Rightarrow> stage list" where
  "stages t = List.map_filter stage_of t"

lemma stages_simps [simp]:
  "stages [] = []" "stages (a @ b) = stages a @ stages b"
  "stages (k # t) = (case stage_of k of None \<Rightarrow> stages t | Some s \<Rightarrow> s # stages t)"
  by (induction a) (auto simp: stages_def List.map_filter_simps split: option.split)

text \<open>\<open>emits E L m\<close>: the stages of a run of \<open>m\<close> that succeeds satisfy \<open>L\<close>,
  and those of one that fails are the beginning of such a list.\<close>

definition emits :: "env \<Rightarrow> (stage list \<Rightarrow> bool) \<Rightarrow> 'a io \<Rightarrow> bool" where
  "emits E L m \<longleftrightarrow> (\<forall>h. (case m E h of
     (Inr x, t) \<Rightarrow> L (stages t) | (Inl e, t) \<Rightarrow> (\<exists>xs. L xs \<and> prefix (stages t) xs)))"

lemma emits_Inr: "emits E L m \<Longrightarrow> m E h = (Inr x, t) \<Longrightarrow> L (stages t)"
  unfolding emits_def by (drule spec [of _ h]) simp

lemma emits_Inl: "emits E L m \<Longrightarrow> m E h = (Inl e, t) \<Longrightarrow> \<exists>xs. L xs \<and> prefix (stages t) xs"
  unfolding emits_def by (drule spec [of _ h]) simp

lemma emitsI:
  "(\<And>h x t. m E h = (Inr x, t) \<Longrightarrow> L (stages t)) \<Longrightarrow>
   (\<And>h e t. m E h = (Inl e, t) \<Longrightarrow> \<exists>xs. L xs \<and> prefix (stages t) xs) \<Longrightarrow> emits E L m"
  unfolding emits_def by (simp split: prod.split sum.split)

lemma emits_weaken: "emits E L m \<Longrightarrow> (\<And>xs. L xs \<Longrightarrow> L' xs) \<Longrightarrow> emits E L' m"
  by (rule emitsI) (metis emits_Inr, metis emits_Inl)

lemma emits_some: "emits E L m \<Longrightarrow> \<exists>xs. L xs"
  by (cases "m E []", rename_tac r t, case_tac r) (blast dest: emits_Inl, blast dest: emits_Inr)

lemma emits_bnd_value:
  assumes "emits E (\<lambda>xs. xs = as) m" "runs E P R m"
    and f: "\<And>x. R x \<Longrightarrow> emits E (\<lambda>ys. L (as @ ys)) (f x)" and some: "\<exists>ys. L (as @ ys)"
  shows "emits E L (bnd m f)"
proof (rule emitsI)
  fix h y t
  assume "bnd m f E h = (Inr y, t)"
  then obtain x t1 t2 where m: "m E h = (Inr x, t1)" and r: "f x E (h @ t1) = (Inr y, t2)" and t: "t = t1 @ t2"
    by (rule bnd_InrE)
  from f [OF runs_valueD [OF assms(2) m]] r have "L (as @ stages t2)" by (rule emits_Inr)
  with emits_Inr [OF assms(1) m] t show "L (stages t)" by simp
next
  fix h e t
  assume "bnd m f E h = (Inl e, t)"
  then consider "m E h = (Inl e, t)"
    | x t1 t2 where "m E h = (Inr x, t1)" "f x E (h @ t1) = (Inl e, t2)" "t = t1 @ t2"
    unfolding bnd_Inl_iff by blast
  then show "\<exists>xs. L xs \<and> prefix (stages t) xs"
  proof cases
    case 1
    from emits_Inl [OF assms(1) 1] some show ?thesis by (meson prefix_prefix)
  next
    case 2
    from emits_Inl [OF f [OF runs_valueD [OF assms(2) 2(1)]] 2(2)] emits_Inr [OF assms(1) 2(1)] 2(3)
    show ?thesis by (metis same_prefix_prefix stages_simps(2))
  qed
qed

lemma runs_any: "runs E (\<lambda>_. True) (\<lambda>_. True) m"
  by (simp add: runs_def)

lemma emits_bnd:
  assumes "emits E (\<lambda>xs. xs = as) m" "\<And>x. emits E (\<lambda>ys. L (as @ ys)) (f x)"
  shows "emits E L (bnd m f)"
  using emits_bnd_value [OF assms(1) runs_any assms(2) emits_some [OF assms(2)]] .

lemma emits_thn:
  "emits E (\<lambda>xs. xs = as) m \<Longrightarrow> emits E (\<lambda>ys. L (as @ ys)) m' \<Longrightarrow> emits E L (thn m m')"
  unfolding thn_def by (rule emits_bnd)

lemma emits_calls:
  assumes "calls_in (\<lambda>k. stage_of k = None) m"
  shows "emits E (\<lambda>xs. xs = []) m"
proof -
  have "stages t = []" if "m E h = (r, t)" for h r t
    using calls_inD [OF assms that] by (induction t) auto
  then show ?thesis by (intro emitsI) auto
qed

lemma emits_only: "only S m \<Longrightarrow> (\<And>e. e \<in> S \<Longrightarrow> stage_of_effect e = None) \<Longrightarrow> emits E (\<lambda>xs. xs = []) m"
  by (rule emits_calls, erule only_calls) simp

lemma emits_data:
  assumes "only S m" "\<And>e. e \<in> S \<Longrightarrow> stage_of_effect e = None \<or> stage_of_effect e = Some StData"
  shows "emits E (\<lambda>xs. set xs \<subseteq> {StData}) m"
proof -
  have "calls_in (\<lambda>k. stage_of k = None \<or> stage_of k = Some StData) m"
    using assms(1) by (rule only_calls) (simp add: assms(2))
  then have "set (stages t) \<subseteq> {StData}" if "m E h = (r, t)" for h r t
    using calls_inD [where m = m, OF _ that] by (induction t) (simp_all, fastforce)
  then show ?thesis by (intro emitsI) (blast intro: prefix_order.refl)+
qed

lemma emits_data_thn:
  assumes "emits E (\<lambda>xs. set xs \<subseteq> {StData}) m" "emits E (\<lambda>xs. set xs \<subseteq> {StData}) m'"
  shows "emits E (\<lambda>xs. set xs \<subseteq> {StData}) (thn m m')"
proof (rule emitsI)
  show "set (stages t) \<subseteq> {StData}" if "thn m m' E h = (Inr x, t)" for h x t
    using that emits_Inr [OF assms(1)] emits_Inr [OF assms(2)] unfolding thn_Inr_iff by fastforce
next
  fix h e t
  assume "thn m m' E h = (Inl e, t)"
  then consider "m E h = (Inl e, t)"
    | x t1 t2 where "m E h = (Inr x, t1)" "m' E (h @ t1) = (Inl e, t2)" "t = t1 @ t2"
    unfolding thn_def bnd_Inl_iff by blast
  then have "set (stages t) \<subseteq> {StData}"
  proof cases
    case 1
    from emits_Inl [OF assms(1) 1] show ?thesis by (meson dual_order.trans set_mono_prefix)
  next
    case 2
    from emits_Inl [OF assms(2) 2(2)] emits_Inr [OF assms(1) 2(1)] 2(3)
    show ?thesis by simp (meson dual_order.trans set_mono_prefix)
  qed
  then show "\<exists>xs. set xs \<subseteq> {StData} \<and> prefix (stages t) xs" by blast
qed

lemma emits_write:
  "stage_of k = Some s \<Longrightarrow> (\<And>r. emits E (\<lambda>xs. xs = []) (f r)) \<Longrightarrow> emits E (\<lambda>xs. xs = [s]) (bnd (do_write k) f)"
  by (rule emits_bnd [where as = "[s]"]) (simp_all add: emits_def do_write_run)

section \<open>The stages of each step\<close>

text \<open>Steps that bring up nothing.\<close>

lemma quiet_steps:
  "emits E (\<lambda>xs. xs = []) (ensureRootPassword c)" "emits E (\<lambda>xs. xs = []) (clusterHasSessionTokenSigning c)"
  "emits E (\<lambda>xs. xs = []) (buildCluster c)" "emits E (\<lambda>xs. xs = []) (addPDDNSWait c g img)"
  "emits E (\<lambda>xs. xs = []) (addTiDBGracefulWait c g cl had)" "emits E (\<lambda>xs. xs = []) (remove_group c k)"
  "emits E (\<lambda>xs. xs = []) (labelsFromEnv c v)"
  by (rule emits_only [OF ensureRootPassword_only] emits_only [OF clusterHasSessionTokenSigning_only]
      emits_only [OF buildCluster_only] emits_only [OF addPDDNSWait_only] emits_only [OF addTiDBGracefulWait_only]
      emits_only [OF remove_group_only] emits_only [OF labelsFromEnv_only]; auto)+

lemma ensureTLSSecrets_emits: "meta_laws (cx_lib c) \<Longrightarrow> emits E (\<lambda>xs. xs = []) (ensureTLSSecrets c owner)"
  by (rule emits_only [OF ensureTLSSecrets_only]) auto

text \<open>Steps that bring up one thing.\<close>

lemma apply_group_emits:
  assumes "meta_laws (cx_lib c)"
  shows "emits E (\<lambda>xs. xs = [StGroup (g_comp g)]) (applyOwnedByCluster c owner (OGroup g))"
proof (cases "controller_reference (cx_lib c) (OCluster owner) (OGroup g)")
  case (Inl e)
  then show ?thesis by (auto simp: applyOwnedByCluster_def emits_def fail_run)
next
  case (Inr y)
  with assms have "obj_kind y = KGroup (g_comp g)" unfolding meta_laws_def by force
  then have y: "stage_of (ServerSideApply y j) = Some (StGroup (g_comp g))" for j by (cases y) simp_all
  have fin: "emits E (\<lambda>xs. xs = []) (ok_or_fail r)" for r
    by (rule emits_calls) (intro calls_intro)
  from Inr show ?thesis
    unfolding applyOwnedByCluster_def
    by (auto intro!: emits_bnd [OF emits_calls [OF build_config_calls]] emits_write [OF y] fin)
qed

lemma syncScraper_emits:
  assumes "sc_kind s \<in> {KPodMonitor, KVMPodScrape}" "\<And>st d. obj_kind (build c st d) = sc_kind s"
  shows "emits E (\<lambda>xs. xs = [StScrape (sc_kind s)]) (syncScraper c s settings build)"
proof -
  have fin: "emits E (\<lambda>xs. xs = []) (case r of None \<Rightarrow> ret () | Some e \<Rightarrow> if P e then m e else fail (e' e))"
    if "\<And>e. m e = ret () \<or> (\<exists>e'. m e = fail e')" for r P m e'
    using that by (intro emits_calls calls_intro) (metis calls_in_ret calls_in_fail)
  show ?thesis
    using assms
    by (cases settings)
      (auto simp: syncScraper_def Let_def intro!: emits_write fin emits_bnd [OF quiet_steps(7)])
qed

lemma syncMonitoring_emits:
  "emits E (\<lambda>xs. xs = [StScrape KPodMonitor, StScrape KVMPodScrape]) (syncMonitoring c)"
  unfolding syncMonitoring_def
  by (rule emits_thn [OF syncScraper_emits], simp_all add: prometheusScraper_def buildPodMonitor_def,
      rule emits_weaken [OF syncScraper_emits])
    (simp_all add: victoriaMetricsScraper_def buildVMPodScrape_def)

text \<open>The groups.\<close>

lemma sync_pd_emits:
  assumes "meta_laws (cx_lib c)"
  shows "emits E (\<lambda>xs. xs = [StGroup PD]) (sync_pd c spec owner)"
proof -
  have "runs E (\<lambda>_. True) (\<lambda>g. g_comp g = PD) (addPDDNSWait c (buildPDGroup c co img) img)" for co img
    unfolding addPDDNSWait_def get_group_def Let_def
    by (intro runs_intro) (simp_all add: buildPDGroup_def plain_group_def add_init_def Let_def)
  then show ?thesis
    unfolding sync_pd_def Let_def
    by (rule emits_bnd_value [OF quiet_steps(4)])
      (auto intro!: emits_weaken [OF apply_group_emits [OF assms]])
qed

lemma sync_tikv_emits:
  "meta_laws (cx_lib c) \<Longrightarrow> emits E (\<lambda>xs. xs = [StGroup TiKV]) (sync_tikv c spec owner)"
  unfolding sync_tikv_def Let_def
  by (rule emits_weaken [OF apply_group_emits]) (simp_all add: buildTiKVGroup_def plain_group_def Let_def)

lemma sync_tidb_emits:
  assumes "meta_laws (cx_lib c)"
  shows "emits E (\<lambda>xs. xs = [StGroup TiDB]) (sync_tidb c spec owner cl had)"
proof -
  have "runs E (\<lambda>_. True) (\<lambda>g. g_comp g = TiDB) (addTiDBGracefulWait c (buildTiDBGroup c co img) cl had)" for co img
    unfolding addTiDBGracefulWait_def exists_group_def Let_def
    by (intro runs_intro) (simp_all add: buildTiDBGroup_def plain_group_def)
  then show ?thesis
    unfolding sync_tidb_def Let_def
    by (rule emits_bnd_value [OF quiet_steps(5)])
      (auto intro!: emits_weaken [OF apply_group_emits [OF assms]])
qed

definition tiflash_stages :: "ctx \<Rightarrow> stage list" where
  "tiflash_stages c = (if enabledTiFlash (c_components c) \<noteq> None then [StGroup TiFlash] else [])"

definition tiproxy_stages :: "ctx \<Rightarrow> stage list" where
  "tiproxy_stages c = (if enabledTiProxy (c_components c) \<noteq> None then [StGroup TiProxy] else [])"

lemma syncTiFlash_emits:
  assumes "meta_laws (cx_lib c)"
  shows "emits E (\<lambda>xs. xs = tiflash_stages c) (syncTiFlash c spec owner)"
proof (cases "enabledTiFlash (c_components c)")
  case None
  then show ?thesis by (simp add: syncTiFlash_def tiflash_stages_def quiet_steps(6))
next
  case (Some co)
  then show ?thesis
    by (auto simp: syncTiFlash_def tiflash_stages_def buildTiFlashGroup_def plain_group_def
        intro!: emits_weaken [OF apply_group_emits [OF assms]])
qed

lemma syncTiProxy_emits:
  assumes "meta_laws (cx_lib c)"
  shows "emits E (\<lambda>xs. xs = tiproxy_stages c) (syncTiProxy c spec owner)"
proof (cases "enabledTiProxy (c_components c)")
  case None
  then show ?thesis by (simp add: syncTiProxy_def tiproxy_stages_def quiet_steps(6))
next
  case (Some co)
  have "g_comp (buildTiProxyGroup c co img) = TiProxy" for img
    by (simp add: buildTiProxyGroup_def plain_group_def Let_def)
  with Some show ?thesis
    by (auto simp: syncTiProxy_def tiproxy_stages_def intro!: emits_weaken [OF apply_group_emits [OF assms]])
qed

text \<open>The data steps.\<close>

lemma reconcileDataSource_emits: "emits E (\<lambda>xs. set xs \<subseteq> {StData}) (reconcileDataSource c)"
  by (rule emits_data [OF reconcileDataSource_only]) auto

lemma syncLogBackup_emits: "emits E (\<lambda>xs. set xs \<subseteq> {StData}) (syncLogBackup c)"
  by (rule emits_data [OF syncLogBackup_only]) auto

section \<open>Properties\<close>

definition brought_up :: "ctx \<Rightarrow> stage list" where
  "brought_up c =
     [StBootstrap, StCluster, StGroup PD, StGroup TiKV, StGroup TiDB] @ tiflash_stages c @ tiproxy_stages c @
     [StScrape KPodMonitor, StScrape KVMPodScrape]"

lemma SyncTiDB_emits:
  assumes "meta_laws (cx_lib c)"
  shows "emits E (\<lambda>xs. \<exists>ys. xs = brought_up c @ ys \<and> set ys \<subseteq> {StData}) (SyncTiDB c)"
proof -
  have bs: "emits E (\<lambda>xs. xs = [StBootstrap]) (apply_obj (OConfigMap m))" for m
    unfolding apply_obj_def by (intro emits_write emits_calls calls_intro) simp
  have cl: "emits E (\<lambda>xs. xs = [StCluster]) (apply_obj (OCluster m))" for m
    unfolding apply_obj_def by (intro emits_write emits_calls calls_intro) simp
  have q: "emits E (\<lambda>xs. xs = []) provider_spec" "emits E (\<lambda>xs. xs = []) (get_cluster n)"
    "emits E (\<lambda>xs. xs = []) (or_fail r)" "emits E (\<lambda>xs. xs = []) (or_wrap s r')" for n s and r :: "api_err + 'x" and r' :: "api_err + 'y"
    unfolding read_defs by (rule emits_calls, intro calls_intro; simp)+
  have last: "emits E (\<lambda>xs. set xs \<subseteq> {StData}) (err_or_ok e)" for e
    by (rule emits_data [of "{}"]) (auto simp: only_def intro: calls_intro)
  have data: "emits E (\<lambda>xs. set xs \<subseteq> {StData}) (thn (reconcileDataSource c) (thn (syncLogBackup c) (err_or_ok e)))" for e
    by (intro emits_data_thn reconcileDataSource_emits syncLogBackup_emits last)
  note quiet = quiet_steps(1-3) ensureTLSSecrets_emits [OF assms]
  show ?thesis
    unfolding SyncTiDB_def
    by (rule emits_bnd [OF q(1)] emits_bnd [OF q(2)] emits_bnd [OF q(3)] emits_bnd [OF q(4)] emits_bnd [OF quiet(1)] emits_bnd [OF quiet(2)] emits_bnd [OF quiet(3)]
        emits_thn [OF bs] emits_thn [OF cl] emits_thn [OF quiet(4)] emits_thn [OF sync_pd_emits [OF assms]]
        emits_thn [OF sync_tikv_emits [OF assms]] emits_thn [OF sync_tidb_emits [OF assms]]
        emits_thn [OF syncTiFlash_emits [OF assms]] emits_thn [OF syncTiProxy_emits [OF assms]]
        emits_thn [OF syncMonitoring_emits] emits_weaken [OF data])+
      (auto simp: brought_up_def)
qed

text \<open>C3: one pass of SyncTiDB brings a cluster up in a fixed order, whatever the API server answers:
  the bootstrap SQL, the Cluster, the PD, TiKV and TiDB groups, TiFlash and TiProxy where enabled, and the
  scrape objects; only after all of them is the data of the cluster touched (the seeding restore and
  the log backup). A pass that fails has done a beginning of that sequence, and one that succeeds the
  whole of it.\<close>

theorem SyncTiDB_order:
  assumes "meta_laws (cx_lib c)" "SyncTiDB c E h = (r, t)"
  shows "\<exists>ys. set ys \<subseteq> {StData} \<and> prefix (stages t) (brought_up c @ ys) \<and> (r = Inr () \<longrightarrow> stages t = brought_up c @ ys)"
proof (cases r)
  case (Inl e)
  with emits_Inl [OF SyncTiDB_emits [OF assms(1)], of E h e t] assms(2) show ?thesis by blast
next
  case (Inr u)
  with emits_Inr [OF SyncTiDB_emits [OF assms(1)], of E h u t] assms(2) show ?thesis by auto
qed

text \<open>A cluster that exists already, with a stored root password.\<close>

definition running_store :: store where
  "running_store = empty_store\<lparr>so_cluster := [''db'' \<mapsto> sample_cluster],
     so_secret := [''db-tidb-root'' \<mapsto> \<lparr>sec_meta = bare_meta ''ns'' ''db-tidb-root'', sec_type = ''Opaque'',
       sec_data = [''password'' \<mapsto> ''abc'']\<rparr>]\<rparr>"

lemma running_store_simps [simp]:
  "so_cluster running_store = [''db'' \<mapsto> sample_cluster]"
  "so_secret running_store = [''db-tidb-root'' \<mapsto> \<lparr>sec_meta = bare_meta ''ns'' ''db-tidb-root'', sec_type = ''Opaque'',
     sec_data = [''password'' \<mapsto> ''abc'']\<rparr>]"
  "so_group running_store = (\<lambda>_. Map.empty)" "so_br_backup running_store = Map.empty"
  by (simp_all add: running_store_def)

abbreviation running_with :: "(comp \<Rightarrow> string \<rightharpoonup> group) \<Rightarrow> env" where
  "running_with G \<equiv> env_of (running_store\<lparr>so_group := G\<rparr>)"

abbreviation running_env :: env where "running_env \<equiv> running_with (\<lambda>_. Map.empty)"

lemma running_settings:
  "tlsSettings sample_ctx = zero_TLS" "enabledTiFlash (c_components sample_ctx) = None"
  "enabledTiProxy (c_components sample_ctx) = None" "hasFeatureGate sample_cluster g = False"
  "cl_security sample_cluster = None" "monitoringParams sample_ctx = None"
  by (simp_all add: tlsSettings_def enabledTiFlash_def enabledTiProxy_def hasFeatureGate_def sample_cluster_def
      monitoringParams_def)

lemma running_password: "fst (ensureRootPassword sample_ctx (running_with G) h) = Inr ''abc''"
  by (simp add: ensureRootPassword_def currentSecret_def rootSecretName_def stored_password_def rootPasswordKey_def
      lookup_str_def bare_meta_def io_eval)

lemma running_signing: "fst (clusterHasSessionTokenSigning sample_ctx (running_with G) h) = Inr False"
  by (simp add: clusterHasSessionTokenSigning_def running_settings io_eval)

lemma running_cluster: "\<exists>cl t. buildCluster sample_ctx (running_with G) h = (Inr cl, t) \<and> hasFeatureGate cl SessionTokenSigning = False"
  by (simp add: buildCluster_def existingClusterSessionTokenSigning_def running_settings io_eval)
    (simp add: hasFeatureGate_def)

lemma running_owned: "fst (applyOwnedByCluster sample_ctx sample_cluster x (running_with G) h) = Inr ()"
  by (simp add: applyOwnedByCluster_def build_config_def io_eval)

lemma ok_bnd: "fst (m E h) = Inr x \<Longrightarrow> (\<And>h. fst (f x E h) = Inr y) \<Longrightarrow> fst (bnd m f E h) = Inr y"
  by (cases "m E h") (simp add: bnd_run_Inr)

lemma ok_thn: "fst (m E h) = Inr () \<Longrightarrow> (\<And>h. fst (m' E h) = Inr y) \<Longrightarrow> fst (thn m m' E h) = Inr y"
  unfolding thn_def by (rule ok_bnd)

lemma running_dns_wait: "\<exists>g'. \<forall>h. fst (addPDDNSWait sample_ctx g img (running_with G) h) = Inr g'"
  by (cases "G PD (om_name (g_meta g))") (auto simp: addPDDNSWait_def io_eval)

lemma running_pd: "fst (sync_pd sample_ctx spec sample_cluster (running_with G) h) = Inr ()"
proof -
  let ?co = "component_of (c_components sample_ctx) PD"
  let ?img = "resolveImage (cx_lib sample_ctx) spec (comp_name PD) ?co"
  obtain g where g: "\<And>h. fst (addPDDNSWait sample_ctx (buildPDGroup sample_ctx ?co ?img) ?img (running_with G) h) = Inr g"
    using running_dns_wait by blast
  show ?thesis
    unfolding sync_pd_def Let_def by (rule ok_bnd [where m = "addPDDNSWait sample_ctx g' i" for g' i], rule g, rule running_owned)
qed

lemma running_remove: "fst (remove_group sample_ctx k (running_with G) h) = Inr ()"
  by (cases "G k ''db''") (simp_all add: remove_group_def io_eval)

lemma running_rest:
  "fst (ensureTLSSecrets sample_ctx sample_cluster (running_with G) h) = Inr ()"
  "fst (sync_tikv sample_ctx spec sample_cluster (running_with G) h) = Inr ()"
  "fst (syncTiFlash sample_ctx spec sample_cluster (running_with G) h) = Inr ()"
  "fst (syncTiProxy sample_ctx spec sample_cluster (running_with G) h) = Inr ()"
  "fst (syncMonitoring sample_ctx (running_with G) h) = Inr ()"
  "fst (reconcileDataSource sample_ctx (running_with G) h) = Inr ()"
  "fst (syncLogBackup sample_ctx (running_with G) h) = Inr ()"
  "validateBackupSchedules sample_lib (in_backup sample_instance) = None"
  by (simp_all add: ensureTLSSecrets_def needed_leaves_def tlsLeaves_def usesSessionTokenSigning_def running_settings zero_TLS_def
      sync_tikv_def running_owned syncTiFlash_def syncTiProxy_def running_remove syncMonitoring_def syncScraper_def
      prometheusSettings_def victoriaMetricsSettings_def reconcileDataSource_def sample_instance_def syncLogBackup_def
      pitrStorage_def deleteSecretIfExists_def brSecretName_def logBackupName_def logBackupSuffix_def
      validateBackupSchedules_def io_eval del: sample_ctx_simps(5))

lemma running_tidb:
  "\<not> hasFeatureGate cl SessionTokenSigning \<Longrightarrow>
   fst (sync_tidb sample_ctx spec sample_cluster cl had (running_with G) h) = Inr ()"
  by (simp add: sync_tidb_def addTiDBGracefulWait_def Let_def running_owned)

lemma running_built:
  obtains cl where "\<And>h. fst (buildCluster sample_ctx (running_with G) h) = Inr cl" "\<not> hasFeatureGate cl SessionTokenSigning"
proof -
  obtain cl t where "buildCluster sample_ctx (running_with G) [] = (Inr cl, t)" "\<not> hasFeatureGate cl SessionTokenSigning"
    using running_cluster by blast
  moreover have "fst (buildCluster sample_ctx (running_with G) h) = fst (buildCluster sample_ctx (running_with G) [])" for h
    by (simp add: buildCluster_def existingClusterSessionTokenSigning_def running_settings io_eval)
  ultimately show thesis using that by (metis fst_conv)
qed

lemma running_asks:
  "fst (provider_spec (running_with G) h) = Inr (Inr [])"
  "fst (get_cluster ''db'' (running_with G) h) = Inr (Inr sample_cluster)"
  "fst (apply_obj x (running_with G) h) = Inr ()"
  by (simp_all add: io_eval)

lemma running_sync: "fst (SyncTiDB sample_ctx (running_with G) h) = Inr ()"
proof -
  obtain cl where "\<And>h. fst (buildCluster sample_ctx (running_with G) h) = Inr cl" "\<not> hasFeatureGate cl SessionTokenSigning"
    using running_built by blast
  then show ?thesis
    unfolding SyncTiDB_def sample_ctx_simps
    by (intro ok_bnd [where m = provider_spec, OF running_asks(1)] ok_bnd [where m = "ensureRootPassword sample_ctx", OF running_password]
        ok_bnd [where m = "clusterHasSessionTokenSigning sample_ctx", OF running_signing]
        ok_bnd [where m = "get_cluster ''db''", OF running_asks(2)] ok_bnd [where m = "buildCluster sample_ctx"]
        ok_bnd [where m = "or_fail r" for r] ok_bnd [where m = "or_wrap s r" for s r]
        ok_thn running_asks(3) running_rest running_pd running_tidb, simp_all add: ret_run running_rest)
      (simp_all add: running_rest running_pd running_tidb)
qed

theorem SyncTiDB_order_witness:
  "\<exists>t ys. SyncTiDB sample_ctx running_env [] = (Inr (), t) \<and> stages t =
     [StBootstrap, StCluster, StGroup PD, StGroup TiKV, StGroup TiDB, StScrape KPodMonitor, StScrape KVMPodScrape] @ ys"
proof -
  obtain t where run: "SyncTiDB sample_ctx running_env [] = (Inr (), t)"
    using running_sync by (metis prod.collapse)
  from SyncTiDB_order [OF _ run] run sample_meta_laws show ?thesis
    by (auto simp: brought_up_def tiflash_stages_def tiproxy_stages_def enabledTiFlash_def enabledTiProxy_def)
qed

end
