(* ===== verification/Desired.thy ===== *)
theory Desired
  imports Sync Replay
begin

text \<open>
  What a reconcile pass is for: the component groups an Instance asks for, stated without the order, the
  reads and the objects of SyncTiDB, and the proof that a pass takes the groups there from wherever they are.
\<close>

section \<open>The abstract cluster\<close>

text \<open>What an Instance asks of one component: how many members, of which version and image, with which
  resources and data volumes (size and storage class), and whether clients speak TLS to it.\<close>

record demand =
  dm_replicas :: int
  dm_version :: string
  dm_image :: "string option"
  dm_cpu :: "quantity option"
  dm_memory :: "quantity option"
  dm_storage :: "(quantity \<times> string option) list"
  dm_client_tls :: bool

type_synonym abstract_cluster = "comp \<Rightarrow> demand option"

fun default_replicas :: "comp \<Rightarrow> int" where
  "default_replicas PD = 3"
| "default_replicas TiKV = 3"
| "default_replicas TiDB = 2"
| "default_replicas TiFlash = 1"
| "default_replicas TiProxy = 2"

text \<open>PD, TiKV and TiDB always run; TiFlash and TiProxy while the Instance has them with other than zero replicas.\<close>

definition runs_component :: "ctx \<Rightarrow> comp \<Rightarrow> bool" where
  "runs_component c k \<longleftrightarrow> k \<in> {PD, TiKV, TiDB} \<or>
     (\<exists>co. c_components c (comp_name k) = Some co \<and> co_replicas co \<noteq> Some 0)"

definition demand_of_component :: "ctx \<Rightarrow> string \<Rightarrow> comp \<Rightarrow> demand" where
  "demand_of_component c spec k =
     (let L = cx_lib c; co = component_of (c_components c) k; img = resolveImage L spec (comp_name k) co in
      \<lparr>dm_replicas = (case co_replicas co of Some n \<Rightarrow> n | None \<Rightarrow> default_replicas k),
       dm_version = co_version co,
       dm_image = (if img = '''' then None else Some img),
       dm_cpu = fst (toResources L (co_resources co)),
       dm_memory = snd (toResources L (co_resources co)),
       dm_storage = (if k \<in> {PD, TiKV, TiFlash}
         then [(dataVolumeSize L (co_storage co), case co_storage co of None \<Rightarrow> None | Some st \<Rightarrow> st_class st)] else []),
       dm_client_tls = (k \<in> {TiDB, TiProxy} \<and> tls_Client (tlsSettings c))\<rparr>)"

definition wanted :: "ctx \<Rightarrow> string \<Rightarrow> abstract_cluster" where
  "wanted c spec k = (if runs_component c k then Some (demand_of_component c spec k) else None)"

section \<open>The concrete cluster\<close>

text \<open>
  The component groups as the API server keeps them. A server-side apply sets what the provider claims and
  keeps the status and a deletion that is under way; a deletion (\<open>del\<close>) removes a group or, while it
  has finalizers, marks it as being deleted.
\<close>

type_synonym groups = "comp \<Rightarrow> string \<Rightarrow> group option"

definition merged :: "group option \<Rightarrow> group \<Rightarrow> group" where
  "merged old g =
     (case old of
        None \<Rightarrow> g
      | Some x \<Rightarrow> g\<lparr>g_meta := (g_meta g)\<lparr>om_deletion := om_deletion (g_meta x)\<rparr>, g_status := g_status x\<rparr>)"

fun groups_after :: "(group \<Rightarrow> group option) \<Rightarrow> call \<Rightarrow> groups \<Rightarrow> groups" where
  "groups_after del (ServerSideApply (OGroup g) j) G =
     G(g_comp g := (G (g_comp g))(om_name (g_meta g) := Some (merged (G (g_comp g) (om_name (g_meta g))) g)))"
| "groups_after del (Delete (KGroup k) n) G = G(k := (G k)(n := Option.bind (G k n) del))"
| "groups_after del _ G = G"

definition deletion_law :: "(group \<Rightarrow> group option) \<Rightarrow> bool" where
  "deletion_law del \<longleftrightarrow> (\<forall>g g'. del g = Some g' \<longrightarrow> \<not> not_deleting (g_meta g'))"

text \<open>The abstraction: a group that is there to stay, seen as a demand.\<close>

definition demand_of_group :: "group \<Rightarrow> demand" where
  "demand_of_group g =
     \<lparr>dm_replicas = (case g_replicas g of Some n \<Rightarrow> n | None \<Rightarrow> 0), dm_version = g_version g, dm_image = g_image g,
      dm_cpu = g_cpu g, dm_memory = g_memory g,
      dm_storage = map (\<lambda>v. (vol_storage v, vol_class v)) (g_volumes g),
      dm_client_tls = (g_mysql_tls g = Some True)\<rparr>"

definition abs_cluster :: "string \<Rightarrow> groups \<Rightarrow> abstract_cluster" where
  "abs_cluster i G k =
     (case G k i of
        None \<Rightarrow> None
      | Some g \<Rightarrow> if not_deleting (g_meta g) then Some (demand_of_group g) else None)"

section \<open>Each builder meets its demand\<close>

lemma built_demands:
  "demand_of_group (buildPDGroup c (component_of (c_components c) PD)
      (resolveImage (cx_lib c) spec (comp_name PD) (component_of (c_components c) PD))) = demand_of_component c spec PD"
    "demand_of_group (buildTiKVGroup c (component_of (c_components c) TiKV)
      (resolveImage (cx_lib c) spec (comp_name TiKV) (component_of (c_components c) TiKV))) = demand_of_component c spec TiKV"
    "demand_of_group (buildTiDBGroup c (component_of (c_components c) TiDB)
      (resolveImage (cx_lib c) spec (comp_name TiDB) (component_of (c_components c) TiDB))) = demand_of_component c spec TiDB"
    "demand_of_group (buildTiFlashGroup c (component_of (c_components c) TiFlash)
      (resolveImage (cx_lib c) spec (comp_name TiFlash) (component_of (c_components c) TiFlash))) = demand_of_component c spec TiFlash"
    "demand_of_group (buildTiProxyGroup c (component_of (c_components c) TiProxy)
      (resolveImage (cx_lib c) spec (comp_name TiProxy) (component_of (c_components c) TiProxy))) = demand_of_component c spec TiProxy"
  by (simp_all add: demand_of_group_def demand_of_component_def buildPDGroup_def buildTiKVGroup_def buildTiDBGroup_def
      buildTiFlashGroup_def buildTiProxyGroup_def plain_group_def data_volume_def dataVolume_def Let_def replicasOrDefault_def
      defaultPDReplicas_def defaultTiKVReplicas_def defaultTiDBReplicas_def defaultTiFlashReplicas_def defaultTiProxyReplicas_def
      split: option.split)

lemma built_identity:
  assumes "owner_laws (cx_lib c)"
  shows "om_name (g_meta (buildPDGroup c co img)) = c_name c" "g_comp (buildPDGroup c co img) = PD"
    "om_name (g_meta (buildTiKVGroup c co img)) = c_name c" "g_comp (buildTiKVGroup c co img) = TiKV"
    "om_name (g_meta (buildTiDBGroup c co img)) = c_name c" "g_comp (buildTiDBGroup c co img) = TiDB"
    "om_name (g_meta (buildTiFlashGroup c co img)) = c_name c" "g_comp (buildTiFlashGroup c co img) = TiFlash"
    "om_name (g_meta (buildTiProxyGroup c co img)) = c_name c" "g_comp (buildTiProxyGroup c co img) = TiProxy"
  using assms by (simp_all add: buildPDGroup_def buildTiKVGroup_def buildTiDBGroup_def buildTiFlashGroup_def buildTiProxyGroup_def
      plain_group_def Let_def c_object_meta_def owner_laws_def)

section \<open>A pass, step by step\<close>

text \<open>A group that is being deleted: nothing calls that off any more, so an apply only changes what it runs until
  it is gone.\<close>

definition going :: "string \<Rightarrow> groups \<Rightarrow> comp \<Rightarrow> bool" where
  "going i G k \<longleftrightarrow> (\<exists>g. G k i = Some g \<and> \<not> not_deleting (g_meta g))"

definition meets :: "ctx \<Rightarrow> string \<Rightarrow> comp \<Rightarrow> group option \<Rightarrow> bool" where
  "meets c spec k found \<longleftrightarrow>
     (runs_component c k \<longrightarrow> (\<exists>g. found = Some g \<and> demand_of_group g = demand_of_component c spec k))"

text \<open>In the course of a pass over the groups \<open>G\<close>: the components in \<open>D\<close> are as wanted, the other groups of
  the Instance and all groups of other Instances are as they were.\<close>

definition reached :: "ctx \<Rightarrow> string \<Rightarrow> groups \<Rightarrow> comp set \<Rightarrow> groups \<Rightarrow> bool" where
  "reached c spec G D s \<longleftrightarrow>
     (\<forall>k \<in> D. abs_cluster (c_name c) s k = (if going (c_name c) G k then None else wanted c spec k) \<and> meets c spec k (s k (c_name c))) \<and>
     (\<forall>k. k \<notin> D \<longrightarrow> s k (c_name c) = G k (c_name c)) \<and> (\<forall>k n. n \<noteq> c_name c \<longrightarrow> s k n = G k n)"

text \<open>The API server finds a group under the name it has.\<close>

definition named_groups :: "groups \<Rightarrow> bool" where
  "named_groups G \<longleftrightarrow> (\<forall>k n g. G k n = Some g \<longrightarrow> om_name (g_meta g) = n)"

text \<open>Calls that do not concern the groups.\<close>

fun touches_groups :: "effect \<Rightarrow> bool" where
  "touches_groups (EServerSide (KGroup k)) = True"
| "touches_groups (EDelete (KGroup k)) = True"
| "touches_groups _ = False"

lemma groups_idle:
  assumes "\<not> touches_groups (effect_of k)"
  shows "groups_after del k = id"
proof
  fix G
  show "groups_after del k G = id G"
    using assms by (cases "(del, k, G)" rule: groups_after.cases) simp_all
qed

lemma always_untouched:
  "only S m \<Longrightarrow> (\<And>e. e \<in> S \<Longrightarrow> \<not> touches_groups e) \<Longrightarrow>
   always E (groups_after del) (\<lambda>_. True) Pre m (\<lambda>_. Pre)"
  by (rule always_idle_calls, erule only_calls) (rule groups_idle, simp)

lemma apply_group_always:
  assumes "owner_laws (cx_lib c)" "om_name (g_meta g) = c_name c" "k \<notin> D" "g_comp g = k"
    and "wanted c spec k = Some (demand_of_group g)" "not_deleting (g_meta g)"
  shows "always E (groups_after del) (\<lambda>_. True) (reached c spec G D) (applyOwnedByCluster c owner (OGroup g))
    (\<lambda>_. reached c spec G (insert k D))"
proof -
  have step: "reached c spec G (insert k D) (groups_after del (ServerSideApply x j) s)"
    if "controller_reference (cx_lib c) (OCluster owner) (OGroup g) = Inr x" "reached c spec G D s" for x j s
  proof -
    from assms(1) that(1) obtain os where x: "x = OGroup (g\<lparr>g_meta := (g_meta g)\<lparr>om_owners := os\<rparr>\<rparr>)"
      by (rule owner_lawsE) simp
    have same: "s k (c_name c) = G k (c_name c)" using that(2) assms(3) by (simp add: reached_def)
    then have "abs_cluster (c_name c) (groups_after del (ServerSideApply x j) s) k = (if going (c_name c) G k then None else wanted c spec k)"
      using assms(2,4-6)
      by (auto simp: x abs_cluster_def merged_def demand_of_group_def not_deleting_def going_def split: option.split)
    moreover have "meets c spec k (groups_after del (ServerSideApply x j) s k (c_name c))"
      using assms(2,4,5)
      by (auto simp: x meets_def wanted_def merged_def demand_of_group_def split: option.split)
    ultimately show ?thesis
      using that(2) assms(2-4) by (auto simp: reached_def x abs_cluster_def)
  qed
  show ?thesis
    unfolding applyOwnedByCluster_def
    by (intro always_bnd_or_wrap always_bnd [OF always_idle_calls [OF build_config_calls]]
        always_bnd [where Mid = "\<lambda>_. reached c spec G (insert k D)"] always_do_write always_ok_or_fail)
      (simp_all add: step)
qed

lemma remove_group_always:
  assumes "serves (ev_group E k) (G k)" "named_groups G" "deletion_law del" "k \<notin> D" "\<not> runs_component c k"
  shows "always E (groups_after del) (\<lambda>_. True) (reached c spec G D) (remove_group c k) (\<lambda>_. reached c spec G (insert k D))"
proof -
  have none: "wanted c spec k = None" "meets c spec k found" for found using assms(5) by (simp_all add: wanted_def meets_def)
  have gone: "reached c spec G (insert k D) s"
    if "reached c spec G D s" "\<And>g. G k (c_name c) = Some g \<Longrightarrow> \<not> not_deleting (g_meta g)" for s
    using that assms(4) none by (auto simp: reached_def abs_cluster_def split: option.split)
  have delete: "reached c spec G (insert k D) (groups_after del (Delete (KGroup k) (c_name c)) s)"
    if "reached c spec G D s" for s
    using that assms(3) none
    by (auto simp: reached_def abs_cluster_def deletion_law_def Option.bind_eq_Some_conv split: option.split)
  show ?thesis
    unfolding remove_group_def exists_group_def delete_obj_def
  proof (rule always_bnd_ask)
    fix h
    show "always E (groups_after del) (\<lambda>_. True) (reached c spec G D)
      (bnd (or_wrap (''get '' @ comp_name k @ '' group'') (rd_exists (ev_group E k) h (c_name c))) (\<lambda>found.
        case found of None \<Rightarrow> ret ()
        | Some g \<Rightarrow> if \<not> not_deleting (g_meta g) then ret ()
            else bnd (do_write (Delete (KGroup k) (om_name (g_meta g)))) ok_or_fail)) (\<lambda>_. reached c spec G (insert k D))"
    proof (cases "G k (c_name c)")
      case None
      then show ?thesis
        by (simp add: servesD [OF assms(1)]) (rule always_ret, rule gone, simp_all)
    next
      case (Some g)
      then have "om_name (g_meta g) = c_name c" using assms(2) unfolding named_groups_def by blast
      with Some show ?thesis
        by (simp add: servesD [OF assms(1)])
          (auto intro!: always_ret gone always_bnd [where Mid = "\<lambda>_. reached c spec G (insert k D)"] always_do_write
            always_ok_or_fail delete)
    qed
  qed simp
qed

section \<open>The pass\<close>

text \<open>What the two edits of a group that look at the cluster leave alone.\<close>

definition same_demand :: "group \<Rightarrow> group \<Rightarrow> bool" where
  "same_demand g g' \<longleftrightarrow> g_meta g' = g_meta g \<and> g_comp g' = g_comp g \<and> demand_of_group g' = demand_of_group g"

lemma wait_edits:
  "runs E (\<lambda>k. groups_after del k = id) (same_demand g) (addPDDNSWait c g img)"
  "runs E (\<lambda>k. groups_after del k = id) (same_demand g) (addTiDBGracefulWait c g cl had)"
  unfolding addPDDNSWait_def get_group_def addTiDBGracefulWait_def exists_group_def Let_def
  by (intro runs_intro; simp add: groups_idle same_demand_def add_init_def Let_def demand_of_group_def)+

context optional_component
begin

lemma runs_optional: "k \<notin> {PD, TiKV, TiDB} \<Longrightarrow> runs_component c k \<longleftrightarrow> enabled (c_components c) \<noteq> None"
  by (auto simp: runs_component_def enabled_iff)

end

text \<open>c.ObjectMeta gives the metadata of a new object.\<close>

definition fresh_meta :: "ctx \<Rightarrow> bool" where
  "fresh_meta c \<longleftrightarrow> not_deleting (c_object_meta c (c_name c))"

lemma built_fresh:
  assumes "fresh_meta c"
  shows "not_deleting (g_meta (buildPDGroup c co img))" "not_deleting (g_meta (buildTiKVGroup c co img))"
    "not_deleting (g_meta (buildTiDBGroup c co img))" "not_deleting (g_meta (buildTiFlashGroup c co img))"
    "not_deleting (g_meta (buildTiProxyGroup c co img))"
  using assms by (simp_all add: fresh_meta_def buildPDGroup_def buildTiKVGroup_def buildTiDBGroup_def buildTiFlashGroup_def
      buildTiProxyGroup_def plain_group_def Let_def)

lemma sync_groups_always:
  assumes "owner_laws (cx_lib c)" "fresh_meta c"
  shows "always E (groups_after del) (\<lambda>_. True) (reached c spec G {}) (sync_pd c spec owner) (\<lambda>_. reached c spec G {PD})"
    "always E (groups_after del) (\<lambda>_. True) (reached c spec G {PD}) (sync_tikv c spec owner) (\<lambda>_. reached c spec G {TiKV, PD})"
    "always E (groups_after del) (\<lambda>_. True) (reached c spec G {TiKV, PD}) (sync_tidb c spec owner cl had)
       (\<lambda>_. reached c spec G {TiDB, TiKV, PD})"
  unfolding sync_pd_def sync_tikv_def sync_tidb_def Let_def
  by (rule always_bnd_value [OF always_idle [OF wait_edits(1)]], rule apply_group_always [OF assms(1), where k = PD])
    (simp_all add: same_demand_def built_identity [OF assms(1)] built_demands built_fresh [OF assms(2)] wanted_def runs_component_def
      del: comp_name.simps,
     rule apply_group_always [OF assms(1), where k = TiKV],
     simp_all add: same_demand_def built_identity [OF assms(1)] built_demands built_fresh [OF assms(2)] wanted_def runs_component_def
      del: comp_name.simps,
     rule always_bnd_value [OF always_idle [OF wait_edits(2)]], rule apply_group_always [OF assms(1), where k = TiDB],
     simp_all add: same_demand_def built_identity [OF assms(1)] built_demands built_fresh [OF assms(2)] wanted_def runs_component_def
      del: comp_name.simps)

lemma sync_optional_always:
  assumes "owner_laws (cx_lib c)" "named_groups G" "fresh_meta c" "deletion_law del" "\<And>k. serves (ev_group E k) (G k)"
  shows "always E (groups_after del) (\<lambda>_. True) (reached c spec G {TiDB, TiKV, PD}) (syncTiFlash c spec owner)
       (\<lambda>_. reached c spec G {TiFlash, TiDB, TiKV, PD})"
    "always E (groups_after del) (\<lambda>_. True) (reached c spec G {TiFlash, TiDB, TiKV, PD}) (syncTiProxy c spec owner)
       (\<lambda>_. reached c spec G {TiProxy, TiFlash, TiDB, TiKV, PD})"
proof -
  show "always E (groups_after del) (\<lambda>_. True) (reached c spec G {TiDB, TiKV, PD}) (syncTiFlash c spec owner)
       (\<lambda>_. reached c spec G {TiFlash, TiDB, TiKV, PD})"
  proof (cases "enabledTiFlash (c_components c)")
    case None
    then show ?thesis
      unfolding syncTiFlash_def None option.case
      by (intro remove_group_always assms) (simp_all add: tiflash.runs_optional None)
  next
    case (Some co)
    then show ?thesis
      unfolding syncTiFlash_def Some option.case tiflash.enabled_component_of [OF Some, symmetric]
      by (intro apply_group_always [OF assms(1), where k = TiFlash])
        (simp_all add: built_identity [OF assms(1)] built_demands built_fresh [OF assms(3)] wanted_def tiflash.runs_optional Some
          del: comp_name.simps)
  qed
  show "always E (groups_after del) (\<lambda>_. True) (reached c spec G {TiFlash, TiDB, TiKV, PD}) (syncTiProxy c spec owner)
       (\<lambda>_. reached c spec G {TiProxy, TiFlash, TiDB, TiKV, PD})"
  proof (cases "enabledTiProxy (c_components c)")
    case None
    then show ?thesis
      unfolding syncTiProxy_def None option.case
      by (intro remove_group_always assms) (simp_all add: tiproxy.runs_optional None)
  next
    case (Some co)
    then show ?thesis
      unfolding syncTiProxy_def Some option.case tiproxy.enabled_component_of [OF Some, symmetric]
      by (intro apply_group_always [OF assms(1), where k = TiProxy])
        (simp_all add: built_identity [OF assms(1)] built_demands built_fresh [OF assms(3)] wanted_def tiproxy.runs_optional Some
          del: comp_name.simps)
  qed
qed

lemma SyncTiDB_always:
  assumes "owner_laws (cx_lib c)" "named_groups G" "fresh_meta c" "deletion_law del" "\<And>k. serves (ev_group E k) (G k)"
    and spec: "\<And>h. ev_provider_spec E h = Inr spec"
  shows "always E (groups_after del) (\<lambda>_. True) (\<lambda>s. s = G) (SyncTiDB c)
    (\<lambda>_. reached c spec G {TiProxy, TiFlash, TiDB, TiKV, PD})"
proof -
  note laws = owner_laws_meta [OF assms(1)]
  have start: "reached c spec G {} G" by (simp add: reached_def)
  have q: "always E (groups_after del) (\<lambda>_. True) J (ensureRootPassword c) (\<lambda>_. J)"
    "always E (groups_after del) (\<lambda>_. True) J (clusterHasSessionTokenSigning c) (\<lambda>_. J)"
    "always E (groups_after del) (\<lambda>_. True) J (buildCluster c) (\<lambda>_. J)"
    "always E (groups_after del) (\<lambda>_. True) J (ensureTLSSecrets c owner) (\<lambda>_. J)"
    "always E (groups_after del) (\<lambda>_. True) J (syncMonitoring c) (\<lambda>_. J)"
    "always E (groups_after del) (\<lambda>_. True) J (reconcileDataSource c) (\<lambda>_. J)"
    "always E (groups_after del) (\<lambda>_. True) J (syncLogBackup c) (\<lambda>_. J)" for J owner
    by (rule always_untouched [OF ensureRootPassword_only] always_untouched [OF clusterHasSessionTokenSigning_only]
        always_untouched [OF buildCluster_only] always_untouched [OF ensureTLSSecrets_only [OF laws]]
        always_untouched [OF syncMonitoring_only] always_untouched [OF reconcileDataSource_only]
        always_untouched [OF syncLogBackup_only]; auto)+
  have ap: "always E (groups_after del) (\<lambda>_. True) J (apply_obj x) (\<lambda>_. J)" for J x
    by (rule always_idle_calls) (auto intro!: calls_intro simp: groups_idle)
  have "always E (groups_after del) (\<lambda>_. True) (reached c spec G {}) (SyncTiDB c)
    (\<lambda>_. reached c spec G {TiProxy, TiFlash, TiDB, TiKV, PD})"
    unfolding SyncTiDB_def provider_spec_def get_cluster_def
    by (rule always_bnd_ask, simp, simp only: spec or_fail_Inr bnd_ret,
        intro always_bnd_ask always_bnd_or_fail always_bnd_or_wrap always_bnd [OF q(1)] always_bnd [OF q(2)] always_bnd [OF q(3)]
        always_thn [OF ap] always_thn [OF q(4)] always_thn [OF q(5)] always_thn [OF q(6)] always_thn [OF q(7)]
        always_thn [OF sync_groups_always(1) [OF assms(1,3)]] always_thn [OF sync_groups_always(2) [OF assms(1,3)]]
        always_thn [OF sync_groups_always(3) [OF assms(1,3)]] always_thn [OF sync_optional_always(1) [OF assms(1-5)]]
        always_thn [OF sync_optional_always(2) [OF assms(1-5)]] always_err_or_ok)
      simp_all
  then show ?thesis
    by (rule always_weaken) (simp_all add: start)
qed

section \<open>Properties\<close>

text \<open>C1: a reconcile pass refines its one-line specification. From whatever the component groups are, a pass that
  succeeds leaves the cluster of its Instance, seen through the abstraction, exactly as the Instance asks for:
  every component that is to run is there with the replicas, the version, the image, the resources, the data
  volume and the client TLS of its spec, every other one is gone or going, and the groups of other Instances
  are untouched. The one exception is a group that was being deleted when the pass began (TiFlash or TiProxy, turned
  on again before its teardown ended): it gets the spec but still goes, and only a pass after that brings the component
  back.\<close>

theorem pass_reaches_wanted:
  assumes "SyncTiDB c E h = (Inr (), t)"
    and "owner_laws (cx_lib c)" "named_groups G" "fresh_meta c" "deletion_law del" "\<And>k. serves (ev_group E k) (G k)"
    and "\<And>h. ev_provider_spec E h = Inr spec"
  shows "abs_cluster (c_name c) (fold (groups_after del) t G) = (\<lambda>k. if going (c_name c) G k then None else wanted c spec k) \<and>
    (\<forall>k. runs_component c k \<longrightarrow> (\<exists>g. fold (groups_after del) t G k (c_name c) = Some g \<and>
       demand_of_group g = demand_of_component c spec k)) \<and>
    (\<forall>k n. n \<noteq> c_name c \<longrightarrow> fold (groups_after del) t G k n = G k n)"
proof -
  have r: "reached c spec G {TiProxy, TiFlash, TiDB, TiKV, PD} (fold (groups_after del) t G)"
    using always_doneD [OF SyncTiDB_always [OF assms(2-7)] refl _ assms(1)] by simp
  have "k \<in> {TiProxy, TiFlash, TiDB, TiKV, PD}" for k by (cases k) simp_all
  with r show ?thesis unfolding reached_def meets_def fun_eq_iff by blast
qed

theorem pass_reaches_wanted_witness:
  "\<exists>t. abs_cluster ''db'' (fold (groups_after Map.empty) t (\<lambda>_. Map.empty)) = wanted sample_ctx '''' \<and>
     (\<exists>d. wanted sample_ctx '''' TiKV = Some d \<and> dm_replicas d = 3 \<and> dm_storage d = [(''10Gi'', None)]) \<and>
     wanted sample_ctx '''' TiFlash = None"
proof -
  obtain t where t: "SyncTiDB sample_ctx running_env [] = (Inr (), t)"
    using running_sync by (metis prod.collapse)
  have "abs_cluster (c_name sample_ctx) (fold (groups_after Map.empty) t (\<lambda>_. Map.empty)) = wanted sample_ctx ''''"
    using pass_reaches_wanted [OF t, of "\<lambda>_. Map.empty" Map.empty "''''"] sample_owner_laws
    by (simp add: named_groups_def going_def fresh_meta_def deletion_law_def serves_serve c_object_meta_def bare_meta_def not_deleting_def)
  moreover have "\<exists>d. wanted sample_ctx '''' TiKV = Some d \<and> dm_replicas d = 3 \<and> dm_storage d = [(''10Gi'', None)]"
    "wanted sample_ctx '''' TiFlash = None"
    by (simp_all add: wanted_def runs_component_def demand_of_component_def c_components_def sample_instance_def component_of_def
        dataVolumeSize_def defaultVolumeSize_def Let_def)
  ultimately show ?thesis by auto
qed

end
