(* ===== verification/TrustChain.thy ===== *)
theory TrustChain
  imports Certificates
begin

text \<open>
  The certificates of an Instance over all the passes of its life: which Secrets there are, what they hold,
  and that every certificate of a cluster verifies against the one CA of that cluster, whenever the
  provider is stopped and whatever the Instance asks for in between.
\<close>

section \<open>The Secrets\<close>

text \<open>What a call does to the Secrets. A Create of a name that is taken changes nothing.\<close>

type_synonym secrets = "string \<rightharpoonup> secret"

fun secrets_after :: "call \<Rightarrow> secrets \<Rightarrow> secrets" where
  "secrets_after (Create (OSecret sec)) S =
     (if S (om_name (sec_meta sec)) = None then S(om_name (sec_meta sec) \<mapsto> sec) else S)"
| "secrets_after (Delete KSecret n) S = S(n := None)"
| "secrets_after _ S = S"

text \<open>The Secret of a name as the API server stores it.\<close>

definition well_named :: "secrets \<Rightarrow> bool" where
  "well_named S \<longleftrightarrow> (\<forall>n sec. S n = Some sec \<longrightarrow> om_name (sec_meta sec) = n)"

lemma secrets_idle:
  "\<not> is_write k \<Longrightarrow> secrets_after k = id"
  by (cases k) (simp_all add: fun_eq_iff)

section \<open>The chain\<close>

text \<open>The names of the certificate Secrets an Instance may ever need.\<close>

definition tls_names :: "string \<Rightarrow> string set" where
  "tls_names i = (\<lambda>k. clusterTLSSecretName i (comp_name k)) ` UNIV \<union>
     {clusterClientTLSSecretName i, mysqlServerTLSSecretName i, tiproxyServerTLSSecretName i,
      tiproxyBackendTLSSecretName i, sessionTokenSigningSecretName i}"

text \<open>
  What is documented of crypto/x509, with \<open>V der pub\<close> for "the signature on this certificate is one of this
  public key": CreateCertificate signs with the key it is given, and parsing the result gives back the basic
  constraints (IsCA counts only with BasicConstraintsValid), the key usage and the public key of the template.
\<close>

definition x509_laws :: "env \<Rightarrow> lib \<Rightarrow> (string \<Rightarrow> string \<Rightarrow> bool) \<Rightarrow> bool" where
  "x509_laws E L V \<longleftrightarrow> pem_laws L \<and>
     (\<forall>h tmpl parent pub key der. ev_sign E h tmpl parent pub key = Inr der \<longrightarrow>
        V der (rsa_public L key) \<and>
        (\<forall>cert. x509_parse L der = Inr cert \<longrightarrow> xc_constraints cert = xt_constraints tmpl \<and>
           xc_is_ca cert = (xt_constraints tmpl \<and> xt_is_ca tmpl) \<and> xc_usage cert = xt_usage tmpl \<and> xc_public cert = pub))"

text \<open>Certificate.CheckSignatureFrom: the parent has to be a CA that may sign certificates, and the signature has to
  be one of its key.\<close>

definition may_sign :: "x509_cert \<Rightarrow> bool" where
  "may_sign parent \<longleftrightarrow> xc_constraints parent \<and> xc_is_ca parent \<and> (xc_usage parent = [] \<or> CertSign \<in> set (xc_usage parent))"

definition check_signature_from :: "(string \<Rightarrow> string \<Rightarrow> bool) \<Rightarrow> string \<Rightarrow> x509_cert \<Rightarrow> bool" where
  "check_signature_from V der parent \<longleftrightarrow> may_sign parent \<and> V der (xc_public parent)"

text \<open>A certificate Secret and the CA Secret go together: the same ca.crt, and the certificate verifies
  against it.\<close>

definition verifies :: "lib \<Rightarrow> (string \<Rightarrow> string \<Rightarrow> bool) \<Rightarrow> secret \<Rightarrow> secret \<Rightarrow> bool" where
  "verifies L V sec ca \<longleftrightarrow> lookup_str (sec_data sec) tlsKeyCA = lookup_str (sec_data ca) tlsKeyCA \<and>
     (\<exists>der rootder root. pem_decode L (lookup_str (sec_data sec) (tlsKeyCert L)) = Some der \<and>
        pem_decode L (lookup_str (sec_data ca) tlsKeyCA) = Some rootder \<and> x509_parse L rootder = Inr root \<and>
        check_signature_from V der root)"

text \<open>A CA that can be signed with: its certificate may sign, and the key is the certificate's.\<close>

definition sound_ca :: "lib \<Rightarrow> certAuthority \<Rightarrow> bool" where
  "sound_ca L ca \<longleftrightarrow> may_sign (ca_cert ca) \<and> xc_public (ca_cert ca) = rsa_public L (ca_key ca)"

definition holds_ca :: "lib \<Rightarrow> secret \<Rightarrow> bool" where
  "holds_ca L sec \<longleftrightarrow>
     (\<forall>ca. parseCertAuthority L (lookup_str (sec_data sec) tlsKeyCA) (lookup_str (sec_data sec) tlsKeyCAKey) = Inr ca \<longrightarrow> sound_ca L ca)"

definition chained :: "lib \<Rightarrow> (string \<Rightarrow> string \<Rightarrow> bool) \<Rightarrow> uid \<Rightarrow> string \<Rightarrow> secrets \<Rightarrow> bool" where
  "chained L V u i S \<longleftrightarrow> (\<forall>n \<in> tls_names i. \<forall>sec. S n = Some sec \<and> owned_or_free L u sec \<longrightarrow>
     (\<exists>ca. S (tlsCASecretName i) = Some ca \<and> owned_or_free L u ca \<and> verifies L V sec ca)) \<and>
     (\<forall>ca. S (tlsCASecretName i) = Some ca \<and> owned_or_free L u ca \<longrightarrow> holds_ca L ca)"

section \<open>Names\<close>

lemma leaf_in_names: "leaf \<in> set (needed_leaves c owner) \<Longrightarrow> lf_secretName leaf \<in> tls_names (c_name c)"
  by (auto simp: needed_leaves_def tlsLeaves_def tls_names_def sessionTokenSigningLeaf_def component_leaf_def
      Let_def simp del: comp_name.simps split: if_splits)

lemma ca_not_leaf: "tlsCASecretName i \<notin> tls_names i"
proof -
  have "comp_name k @ ''-cluster-secret'' \<noteq> ''tls-ca''" for k by (cases k) simp_all
  then show ?thesis
    by (auto simp: tls_names_def tlsCASecretName_def tlsCASecretSuffix_def clusterTLSSecretName_def
        clusterClientTLSSecretName_def mysqlServerTLSSecretName_def tiproxyServerTLSSecretName_def
        tiproxyBackendTLSSecretName_def sessionTokenSigningSecretName_def sessionTokenSigningSecretSuffix_def)
qed

text \<open>corev1.TLSCertKey and corev1.TLSPrivateKeyKey differ from each other and from ca.crt.\<close>

definition secret_keys :: "lib \<Rightarrow> bool" where
  "secret_keys L \<longleftrightarrow> distinct [tlsKeyCA, tlsKeyCert L, tlsKeyKey L]"

section \<open>The chain is kept\<close>

lemma chained_delete:
  assumes "chained L V u i S" "S n = Some sec" "\<not> owned_or_free L u sec"
  shows "chained L V u i (S(n := None))"
  using assms unfolding chained_def by (auto; metis option.inject)

text \<open>What holds in the course of a pass over the Secrets \<open>S\<close>: nothing that was there is gone.\<close>

definition grown :: "secrets \<Rightarrow> secrets \<Rightarrow> bool" where
  "grown S s \<longleftrightarrow> (\<forall>n sec. S n = Some sec \<longrightarrow> s n = Some sec)"

lemma currentSecret_always:
  assumes "serves (ev_secret E) S" "well_named S"
  shows "always E secrets_after (chained (cx_lib c) V u i) (\<lambda>s. P s \<and> grown S s) (currentSecret c u n)
     (\<lambda>r s. (P s \<and> grown S s) \<and> r = S n \<and> (\<forall>sec. r = Some sec \<longrightarrow> owned_or_free (cx_lib c) u sec))"
proof (cases "S n")
  case None
  then show ?thesis
    unfolding currentSecret_def get_secret_def
    by (intro always_intro) (simp_all add: servesD [OF assms(1)] always_ret)
next
  case (Some sec)
  have wn: "om_name (sec_meta sec) = n" using assms(2) Some unfolding well_named_def by blast
  have foreign: "chained (cx_lib c) V u i (secrets_after (Delete KSecret n) s)"
    if "chained (cx_lib c) V u i s" "grown S s" "\<not> owned_or_free (cx_lib c) u sec" for s
    using that Some chained_delete [OF that(1) _ that(3), of n] by (simp add: grown_def)
  show ?thesis
  proof (cases "secret_controller (cx_lib c) sec")
    case None
    with Some show ?thesis
      unfolding currentSecret_def get_secret_def
      by (intro always_intro) (simp_all add: servesD [OF assms(1)] always_ret owned_or_free_def)
  next
    case (Some ref)
    then have free: "owned_or_free (cx_lib c) u sec \<longleftrightarrow> or_uid ref = u" by (simp add: owned_or_free_def)
    have del: "always E secrets_after (chained (cx_lib c) V u i) (\<lambda>s. P s \<and> grown S s)
        (thn (if not_deleting (sec_meta sec)
              then bnd (do_write (Delete KSecret (om_name (sec_meta sec)))) (\<lambda>r. ok_or_wrap w (ignore_not_found r)) else ret ()) (fail e)) Q"
      if "or_uid ref \<noteq> u" for w e and Q :: "secret option \<Rightarrow> secrets \<Rightarrow> bool"
      using foreign that free
      by (intro always_thn [where Mid = "\<lambda>_. True"] always_fail always_if always_ret
          always_bnd [where Mid = "\<lambda>_ _. True"] always_do_write always_ok_or_wrap) (auto simp: wn)
    with Some \<open>S n = Some sec\<close> free show ?thesis
      unfolding currentSecret_def get_secret_def
      by (intro always_intro) (auto simp: servesD [OF assms(1)] wn split del: if_split intro!: always_ret)
  qed
qed


text \<open>The CA a pass goes on with is the one in its Secret.\<close>

definition ca_kept :: "lib \<Rightarrow> uid \<Rightarrow> string \<Rightarrow> certAuthority \<Rightarrow> secrets \<Rightarrow> bool" where
  "ca_kept L u i ca s \<longleftrightarrow> storable L ca \<and> sound_ca L ca \<and> (\<exists>sec. s (tlsCASecretName i) = Some sec \<and> owned_or_free L u sec \<and>
     lookup_str (sec_data sec) tlsKeyCA = ca_certPEM ca)"

lemma createOwned_always:
  assumes "owner_laws (cx_lib c)" "om_name (sec_meta sec) = n"
    and I: "\<And>s sec'. Pre s \<Longrightarrow> I s \<Longrightarrow> om_name (sec_meta sec') = n \<Longrightarrow> sec_data sec' = sec_data sec \<Longrightarrow>
      owned_or_free (cx_lib c) (om_uid (cl_meta owner)) sec' \<Longrightarrow> s n = None \<Longrightarrow> I (s(n \<mapsto> sec')) \<and> Post (s(n \<mapsto> sec'))"
    and J: "\<And>s. Pre s \<Longrightarrow> I s \<Longrightarrow> s n \<noteq> None \<Longrightarrow> Post s"
  shows "always E secrets_after I Pre (createOwnedByCluster c owner sec) (\<lambda>_. Post)"
proof -
  have step: "I (secrets_after (Create x) s) \<and> Post (secrets_after (Create x) s)"
    if "controller_reference (cx_lib c) (OCluster owner) (OSecret sec) = Inr x" "Pre s" "I s" for x s
  proof -
    from assms(1) that(1) obtain os ref where x: "x = OSecret (sec\<lparr>sec_meta := (sec_meta sec)\<lparr>om_owners := os\<rparr>\<rparr>)"
      "controller_of (cx_lib c) os = Some ref" "or_uid ref = om_uid (cl_meta owner)"
      by (rule owner_lawsE) simp
    then have free: "owned_or_free (cx_lib c) (om_uid (cl_meta owner)) (sec\<lparr>sec_meta := (sec_meta sec)\<lparr>om_owners := os\<rparr>\<rparr>)"
      by (simp add: owned_or_free_def)
    show ?thesis
      using I [OF that(2,3) _ _ free] J [OF that(2,3)] that(3) assms(2) x(1) by (cases "s n") simp_all
  qed
  show ?thesis
    unfolding createOwnedByCluster_def
    by (rule always_bnd_or_wrap, rule always_bnd [where Mid = "\<lambda>_ s. Post s"])
      (auto intro!: always_do_write always_intro step [THEN conjunct1] step [THEN conjunct2])
qed


lemma runs_from_values:
  "(\<And>h x t. m E h = (Inr x, t) \<Longrightarrow> Q x) \<Longrightarrow> calls_in P m \<Longrightarrow> runs E P Q m"
  unfolding runs_def calls_in_def by (metis snd_conv)

lemma newCertAuthority_sound:
  assumes "x509_laws E L V" "newCertAuthority L i E h = (Inr ca, t)"
  shows "sound_ca L ca"
  using assms(2)
  by (rule newCertAuthority_Inr) (use assms(1) in \<open>force simp: x509_laws_def sound_ca_def may_sign_def ca_template_def\<close>)

lemma newCertAuthority_runs:
  assumes "x509_laws E L V"
  shows "runs E (\<lambda>k. secrets_after k = id) (\<lambda>ca. storable L ca \<and> sound_ca L ca) (newCertAuthority L i)"
proof (rule runs_from_values)
  show "storable L ca \<and> sound_ca L ca" if "newCertAuthority L i E h = (Inr ca, t)" for h ca t
    using that assms newCertAuthority_storable newCertAuthority_sound unfolding x509_laws_def by blast
qed (auto intro!: authority_calls simp: fun_eq_iff)

lemma issue_runs:
  assumes "x509_laws E L V"
  shows "runs E (\<lambda>k. secrets_after k = id) (\<lambda>(cert, k). \<exists>der. pem_decode L cert = Some der \<and> V der (rsa_public L (ca_key ca)))
     (issue L ca leaf)"
proof (rule runs_from_values)
  fix h x t
  assume run: "issue L ca leaf E h = (Inr x, t)"
  obtain cert k where x: "x = (cert, k)" by fastforce
  from run [unfolded x] show "case x of (cert, k) \<Rightarrow> \<exists>der. pem_decode L cert = Some der \<and> V der (rsa_public L (ca_key ca))"
    by (rule issue_Inr) (use assms in \<open>auto simp: x x509_laws_def pem_laws_def pemEncode_def\<close>)
qed (auto intro!: authority_calls simp: fun_eq_iff)

text \<open>The steps of a pass, each over the Secrets the step before left.\<close>

abbreviation pass_inv :: "ctx \<Rightarrow> cluster \<Rightarrow> (string \<Rightarrow> string \<Rightarrow> bool) \<Rightarrow> secrets \<Rightarrow> bool" where
  "pass_inv c owner V \<equiv> chained (cx_lib c) V (om_uid (cl_meta owner)) (c_name c)"

abbreviation ca_ready :: "ctx \<Rightarrow> cluster \<Rightarrow> secrets \<Rightarrow> certAuthority \<Rightarrow> secrets \<Rightarrow> bool" where
  "ca_ready c owner S ca s \<equiv> ca_kept (cx_lib c) (om_uid (cl_meta owner)) (c_name c) ca s \<and> grown S s"

lemma check_no_leaf_always:
  assumes "serves (ev_secret E) S" "well_named S"
  shows "always E secrets_after (pass_inv c owner V) (\<lambda>s. s = S) (check_no_leaf c (om_uid (cl_meta owner)) n ls) (\<lambda>_ s. s = S)"
proof (induction ls)
  case Nil
  then show ?case by (simp add: always_ret)
next
  case (Cons leaf ls)
  have "always E secrets_after (pass_inv c owner V) (\<lambda>s. s = S) (currentSecret c (om_uid (cl_meta owner)) (lf_secretName leaf))
      (\<lambda>r s. s = S)"
    by (rule always_weaken [OF currentSecret_always [OF assms, where P = "\<lambda>s. s = S"]]) (simp_all add: grown_def)
  then show ?case
    unfolding check_no_leaf.simps by (rule always_bnd) (intro always_if always_fail Cons.IH)
qed

lemma ensureCA_always:
  assumes "serves (ev_secret E) S" "well_named S"
    and "owner_laws (cx_lib c)" "x509_laws E (cx_lib c) V" "secret_keys (cx_lib c)"
  shows "always E secrets_after (pass_inv c owner V) (\<lambda>s. s = S) (ensureCA c owner leaves) (ca_ready c owner S)"
proof -
  let ?n = "tlsCASecretName (c_name c)" and ?u = "om_uid (cl_meta owner)" and ?L = "cx_lib c"
  have name: "om_name (sec_meta (ca_secret c ca)) = ?n" for ca
    using assms(3) by (simp add: ca_secret_def c_object_meta_def owner_laws_def)
  have crt: "lookup_str (sec_data (ca_secret c ca)) tlsKeyCA = ca_certPEM ca" for ca
    by (simp add: ca_secret_def lookup_str_def tlsKeyCA_def tlsKeyCAKey_def)
  have holds: "holds_ca ?L sec" if "sec_data sec = sec_data (ca_secret c ca)" "storable ?L ca" "sound_ca ?L ca" for sec ca
    using that assms(4) parse_keyPEM [of ?L ca]
    by (simp add: holds_ca_def ca_secret_def lookup_str_def tlsKeyCA_def tlsKeyCAKey_def x509_laws_def)
  have new: "always E secrets_after (pass_inv c owner V) (\<lambda>s. s = S \<and> storable ?L ca \<and> sound_ca ?L ca)
      (createOwnedByCluster c owner (ca_secret c ca)) (\<lambda>_. ca_ready c owner S ca)" if "S ?n = None" for ca
  proof (rule createOwned_always [OF assms(3) name])
    show "pass_inv c owner V (s(?n \<mapsto> sec')) \<and> ca_ready c owner S ca (s(?n \<mapsto> sec'))"
      if "s = S \<and> storable ?L ca \<and> sound_ca ?L ca" "pass_inv c owner V s" "sec_data sec' = sec_data (ca_secret c ca)"
        "owned_or_free ?L ?u sec'" for s sec'
      using that \<open>S ?n = None\<close> ca_not_leaf [of "c_name c"] crt [of ca]
      holds [of sec' ca] by (auto simp: chained_def ca_kept_def grown_def)
  qed (use that in auto)
  have gen: "always E secrets_after (pass_inv c owner V) (\<lambda>s. s = S)
      (wrapping ''generate the CA'' (newCertAuthority ?L (c_name c))) (\<lambda>ca s. s = S \<and> storable ?L ca \<and> sound_ca ?L ca)"
    by (intro always_wrapping always_weaken [OF always_idle [OF newCertAuthority_runs [OF assms(4)]]]) auto
  show ?thesis
    unfolding ensureCA_def Let_def
  proof (rule always_bnd_value)
    show "always E secrets_after (pass_inv c owner V) (\<lambda>s. s = S) (currentSecret c ?u ?n)
        (\<lambda>r s. s = S \<and> r = S ?n \<and> (\<forall>sec. r = Some sec \<longrightarrow> owned_or_free ?L ?u sec))"
      by (rule always_weaken [OF currentSecret_always [OF assms(1,2), where P = "\<lambda>s. s = S"]]) (simp_all add: grown_def)
  next
    fix r
    assume r: "r = S ?n \<and> (\<forall>sec. r = Some sec \<longrightarrow> owned_or_free ?L ?u sec)"
    show "always E secrets_after (pass_inv c owner V) (\<lambda>s. s = S)
       (case r of
          None \<Rightarrow> thn (check_no_leaf c ?u ?n leaves)
            (bnd (wrapping ''generate the CA'' (newCertAuthority ?L (c_name c))) (\<lambda>ca.
             thn (createOwnedByCluster c owner (ca_secret c ca)) (ret ca)))
        | Some sec \<Rightarrow>
            (case parseCertAuthority ?L (lookup_str (sec_data sec) tlsKeyCA) (lookup_str (sec_data sec) tlsKeyCAKey) of
               Inl e \<Rightarrow> fail (Wrapped (''read the CA from secret '' @ go_quote ?n) e)
             | Inr ca \<Rightarrow> ret ca)) (ca_ready c owner S)"
    proof (rule always_option)
      assume "r = None"
      with r have "S ?n = None" by simp
      then show "always E secrets_after (pass_inv c owner V) (\<lambda>s. s = S)
        (thn (check_no_leaf c ?u ?n leaves)
            (bnd (wrapping ''generate the CA'' (newCertAuthority ?L (c_name c))) (\<lambda>ca.
             thn (createOwnedByCluster c owner (ca_secret c ca)) (ret ca)))) (ca_ready c owner S)"
        by (intro always_thn [OF check_no_leaf_always [OF assms(1,2)]] always_bnd [OF gen] always_thn [OF new] always_ret)
    qed (use r in \<open>auto simp: ca_kept_def grown_def chained_def holds_ca_def intro!: always_intro dest: parse_storable\<close>)
  qed
qed

lemma ensure_leaf_always:
  assumes "serves (ev_secret E) S" "well_named S"
    and "owner_laws (cx_lib c)" "x509_laws E (cx_lib c) V" "secret_keys (cx_lib c)"
    and "lf_secretName leaf \<in> tls_names (c_name c)"
  shows "always E secrets_after (pass_inv c owner V) (ca_ready c owner S ca) (ensure_leaf c owner ca leaf)
     (\<lambda>_. ca_ready c owner S ca)"
proof -
  let ?n = "lf_secretName leaf" and ?u = "om_uid (cl_meta owner)" and ?L = "cx_lib c"
  let ?R = "\<lambda>(cert, k). \<exists>der. pem_decode ?L cert = Some der \<and> V der (rsa_public ?L (ca_key ca))"
  have name: "om_name (sec_meta (leaf_secret c ca ?n pems)) = ?n" for pems
    using assms(3) by (simp add: leaf_secret_def c_object_meta_def owner_laws_def)
  have data: "lookup_str (sec_data (leaf_secret c ca ?n pems)) tlsKeyCA = ca_certPEM ca"
    "lookup_str (sec_data (leaf_secret c ca ?n pems)) (tlsKeyCert ?L) = fst pems" for pems
    using assms(5) by (simp_all add: leaf_secret_def lookup_str_def secret_keys_def)
  have ca: "?n \<noteq> tlsCASecretName (c_name c)" using assms(6) ca_not_leaf by metis
  have new: "always E secrets_after (pass_inv c owner V) (ca_ready c owner S ca)
      (createOwnedByCluster c owner (leaf_secret c ca ?n pems)) (\<lambda>_. ca_ready c owner S ca)" if pems: "?R pems" for pems
  proof (rule createOwned_always [OF assms(3) name])
    show "pass_inv c owner V (s(?n \<mapsto> sec)) \<and> ca_ready c owner S ca (s(?n \<mapsto> sec))"
      if s: "ca_ready c owner S ca s" "pass_inv c owner V s" "s ?n = None"
        and sec: "sec_data sec = sec_data (leaf_secret c ca ?n pems)" for s sec
    proof
      from s(1) obtain root where root: "s (tlsCASecretName (c_name c)) = Some root" "owned_or_free ?L ?u root"
        "lookup_str (sec_data root) tlsKeyCA = ca_certPEM ca" "storable ?L ca" "sound_ca ?L ca"
        unfolding ca_kept_def by blast
      have "verifies ?L V sec root"
        using root(3-5) pems data [of pems] sec
        unfolding verifies_def storable_def check_signature_from_def sound_ca_def by auto
      with s(2) root ca show "pass_inv c owner V (s(?n \<mapsto> sec))" by (auto simp: chained_def)
      show "ca_ready c owner S ca (s(?n \<mapsto> sec))"
        using s ca by (auto simp: ca_kept_def grown_def)
    qed
  qed
  have cur: "always E secrets_after (pass_inv c owner V) (ca_ready c owner S ca) (currentSecret c ?u ?n)
      (\<lambda>_. ca_ready c owner S ca)"
    by (rule always_weaken [OF currentSecret_always [OF assms(1,2), where P = "ca_kept ?L ?u (c_name c) ca"]]) simp_all
  show ?thesis
    unfolding ensure_leaf_def
    by (rule always_bnd [OF cur], intro always_if always_ret always_bnd_value [where R = ?R and Mid = "ca_ready c owner S ca"]
        always_wrapping always_idle new issue_runs [OF assms(4)]) simp_all
qed

lemma ensureTLSSecrets_always:
  assumes "serves (ev_secret E) S" "well_named S"
    and "owner_laws (cx_lib c)" "x509_laws E (cx_lib c) V" "secret_keys (cx_lib c)" "\<not> usesCertManager (tlsSettings c)"
  shows "always E secrets_after (pass_inv c owner V) (\<lambda>s. s = S) (ensureTLSSecrets c owner) (\<lambda>_ _. True)"
proof -
  have each: "always E secrets_after (pass_inv c owner V) (ca_ready c owner S ca)
      (each (ensure_leaf c owner ca) (needed_leaves c owner)) (\<lambda>_. ca_ready c owner S ca)" for ca
    by (intro always_each ensure_leaf_always [OF assms(1-5)] leaf_in_names)
  show ?thesis
    unfolding ensureTLSSecrets_def Let_def using assms(6)
    by (auto intro!: always_intro always_bnd [OF ensureCA_always [OF assms(1-5)]] always_weaken [OF each])
qed

section \<open>Passes\<close>

text \<open>
  One pass over the Secrets of an Instance, with whatever the Instance asks for by then and whatever else
  the cluster answers; the provider may be stopped after any of its calls.
\<close>

inductive tls_pass :: "lib \<Rightarrow> (string \<Rightarrow> string \<Rightarrow> bool) \<Rightarrow> uid \<Rightarrow> string \<Rightarrow> secrets \<Rightarrow> secrets \<Rightarrow> bool"
  for L V u i where
  "cx_lib c = L \<Longrightarrow> c_name c = i \<Longrightarrow> om_uid (cl_meta owner) = u \<Longrightarrow> \<not> usesCertManager (tlsSettings c) \<Longrightarrow>
   serves (ev_secret E) S \<Longrightarrow> x509_laws E L V \<Longrightarrow> ensureTLSSecrets c owner E h = (r, t) \<Longrightarrow> prefix p t \<Longrightarrow>
   tls_pass L V u i S (fold secrets_after p S)"

inductive_cases tls_passE: "tls_pass L V u i S S'"

lemma well_named_after: "well_named S \<Longrightarrow> well_named (secrets_after k S)"
  by (cases "(k, S)" rule: secrets_after.cases) (auto simp: well_named_def)

lemma well_named_fold: "well_named S \<Longrightarrow> well_named (fold secrets_after t S)"
  by (induction t arbitrary: S) (simp_all add: well_named_after)

lemma tls_pass_keeps:
  assumes "tls_pass L V u i S S'" "owner_laws L" "secret_keys L" "well_named S" "chained L V u i S"
  shows "well_named S' \<and> chained L V u i S'"
  using assms(1)
proof (rule tls_passE)
  fix c owner E h r t p
  assume run: "cx_lib c = L" "c_name c = i" "om_uid (cl_meta owner) = u" "\<not> usesCertManager (tlsSettings c)"
    "serves (ev_secret E) S" "x509_laws E L V" "ensureTLSSecrets c owner E h = (r, t)" "prefix p t"
    and S': "S' = fold secrets_after p S"
  have "chained L V u i (fold secrets_after p S)"
    using always_stopD [OF ensureTLSSecrets_always [OF run(5) assms(4)] refl _ run(7,8), of V] assms(2,3,5) run by simp
  with S' well_named_fold [OF assms(4)] show ?thesis by simp
qed

interpretation chain: one_way "tls_pass L V u i"
  "\<lambda>S S'. owner_laws L \<and> secret_keys L \<and> well_named S \<and> chained L V u i S \<longrightarrow> well_named S' \<and> chained L V u i S'"
  for L V u i
  by unfold_locales (use tls_pass_keeps in blast)+

section \<open>Properties\<close>

text \<open>C6: the certificates the provider issues always verify against the one CA of their cluster. Whatever passes
  there are, with any edits of the Instance that leave the certificates to the provider (not to cert-manager)
  between them, and wherever the provider is stopped, every certificate Secret the Cluster owns (or nobody does) has its
  CA Secret beside it, carries that CA's certificate as ca.crt, and holds a certificate that passes
  CheckSignatureFrom against it: the CA certificate is one of a CA that may sign certificates, and the
  signature is one of its key. The Secrets are written by the provider only; other writers are not covered.\<close>

theorem certificates_chain:
  assumes "(tls_pass L V u i)\<^sup>*\<^sup>* S S'" "owner_laws L" "secret_keys L" "well_named S" "chained L V u i S"
    and "n \<in> tls_names i" "S' n = Some sec" "owned_or_free L u sec"
  shows "\<exists>ca. S' (tlsCASecretName i) = Some ca \<and> owned_or_free L u ca \<and> verifies L V sec ca"
  using chain.steps_le [OF assms(1)] assms(2-8) unfolding chained_def by blast

text \<open>An Instance with client TLS, and a crypto/x509 whose certificates name their signer.\<close>

definition chain_ctx :: ctx where
  "chain_ctx = sample_ctx\<lparr>cx_lib := sample_lib\<lparr>try_decode_topology := \<lambda>i. Some \<lparr>tp_Monitoring = None,
     tp_TLS = Some \<lparr>tls_Cluster = False, tls_Client = True, tls_CertManager = None\<rparr>\<rparr>\<rparr>\<rparr>"

text \<open>It signs the two kinds of template there are, with the one key.\<close>

definition chain_env :: env where
  "chain_env = (env_of empty_store)\<lparr>ev_sign := \<lambda>h tpl parent pub key.
     let ca = xt_is_ca tpl in
     if pub = ''key'' \<and> key = ''key'' \<and> xt_constraints tpl = ca \<and>
        xt_usage tpl = (if ca then [CertSign, CRLSign, DigitalSignature] else [DigitalSignature, KeyEncipherment])
     then Inr ((if ca then ''C'' else ''L'') @ xt_common_name tpl @ '' by '' @
       (case parent of None \<Rightarrow> xt_common_name tpl | Some p \<Rightarrow> xc_raw p))
     else Inl NotFound\<rparr>"

lemma chain_ctx_simps [simp]:
  "c_name chain_ctx = ''db''" "c_namespace chain_ctx = ''ns''" "cx_instance chain_ctx = sample_instance"
  "cx_lib chain_ctx = sample_lib\<lparr>try_decode_topology := \<lambda>i. Some \<lparr>tp_Monitoring = None,
     tp_TLS = Some \<lparr>tls_Cluster = False, tls_Client = True, tls_CertManager = None\<rparr>\<rparr>\<rparr>"
  by (simp_all add: chain_ctx_def c_name_def c_namespace_def sample_ctx_def sample_instance_def bare_meta_def)

abbreviation by_key :: "string \<Rightarrow> string \<Rightarrow> bool" where
  "by_key der pub \<equiv> pub = ''key''"

theorem certificates_chain_witness:
  "\<exists>S' sec ca. (tls_pass (cx_lib chain_ctx) by_key ''c1'' ''db'')\<^sup>*\<^sup>* Map.empty S' \<and>
     S' ''db-tidb-server-secret'' = Some sec \<and> S' ''db-tls-ca'' = Some ca \<and> verifies (cx_lib chain_ctx) by_key sec ca"
proof -
  let ?c = chain_ctx and ?E = chain_env and ?o = sample_cluster and ?L = "cx_lib chain_ctx"
  let ?ca = "\<lparr>ca_cert = sample_cert ''Cdb TiDB CA by db TiDB CA'',
    ca_certPEM = ''-Cdb TiDB CA by db TiDB CA'', ca_key = ''key''\<rparr>"
  let ?pems = "(''-Ldb-tidb by Cdb TiDB CA by db TiDB CA'', ''-key'')"
  define leaf where "leaf = component_leaf ''db'' ''ns'' TiDB\<lparr>lf_secretName := ''db-tidb-server-secret'',
        lf_commonName := ''db-tidb'', lf_usages := [ServerAuth]\<rparr>"
  have laws: "owner_laws ?L" "secret_keys ?L" "x509_laws ?E ?L by_key"
    using sample_owner_laws
    by (simp_all add: owner_laws_def secret_keys_def sample_owner_def tlsKeyCert_def tlsKeyKey_def tlsKeyCA_def
        x509_laws_def pem_laws_def chain_env_def sample_cert_def has_prefix_def Let_def split: if_splits)
  have settings: "tlsSettings ?c = \<lparr>tls_Cluster = False, tls_Client = True, tls_CertManager = None\<rparr>"
    by (simp add: tlsSettings_def)
  have leaves: "needed_leaves ?c ?o = [leaf]"
    by (simp add: needed_leaves_def tlsLeaves_def usesSessionTokenSigning_def enabledTiProxy_def c_components_def
        sample_cluster_def component_leaf_def mysqlServerTLSSecretName_def settings leaf_def sample_instance_def)
  define own :: "secret \<Rightarrow> secret" where "own sec = sec\<lparr>sec_meta := (sec_meta sec)\<lparr>om_owners :=
     [\<lparr>or_kind = ''Owner'', or_name = ''db'', or_uid = ''c1'', or_controller = True\<rparr>]\<rparr>\<rparr>" for sec
  let ?S = "Map.empty(''db-tls-ca'' \<mapsto> own (ca_secret ?c ?ca))"
  let ?S' = "?S(''db-tidb-server-secret'' \<mapsto> own (leaf_secret ?c ?ca ''db-tidb-server-secret'' ?pems))"
  have none: "ends_in ?E secrets_after s (currentSecret ?c u n) None s" for u n s
    by (rule ends_in_idle) (simp add: currentSecret_def io_eval chain_env_def fun_eq_iff)
  have gen: "ends_in ?E secrets_after s (wrapping w (newCertAuthority ?L ''db'')) ?ca s" for w s
    by (rule ends_in_idle) (simp add: newCertAuthority_def generate_key_def randomSerial_def read_clock_def sign_def
        pemEncode_def ca_template_def io_eval sample_owner_def chain_env_def fun_eq_iff)
  have iss: "ends_in ?E secrets_after s (wrapping w (issue ?L ?ca leaf)) ?pems s" for w s
    by (rule ends_in_idle) (simp add: issue_def generate_key_def randomSerial_def read_clock_def sign_def
        pemEncode_def leaf_template_def io_eval sample_owner_def chain_env_def fun_eq_iff leaf_def component_leaf_def sample_cert_def Let_def)
  have new: "ends_in ?E secrets_after s (createOwnedByCluster ?c ?o sec) () (s(om_name (sec_meta sec) \<mapsto> own sec))"
    if "s (om_name (sec_meta sec)) = None" for s sec
    using that by (simp add: ends_in_def createOwnedByCluster_def sample_owner_def bnd_Inr_iff do_write_run ret_run chain_env_def
        own_def sample_cluster_def bare_meta_def)
  have "ends_in ?E secrets_after Map.empty (ensureTLSSecrets ?c ?o) () ?S'"
  proof -
    have names: "om_name (sec_meta (ca_secret ?c ?ca)) = ''db-tls-ca''"
        "om_name (sec_meta (leaf_secret ?c ?ca ''db-tidb-server-secret'' ?pems)) = ''db-tidb-server-secret''"
      by (simp_all add: ca_secret_def leaf_secret_def c_object_meta_def sample_owner_def tlsCASecretName_def
          tlsCASecretSuffix_def bare_meta_def)
    have ca: "ends_in ?E secrets_after Map.empty (createOwnedByCluster ?c ?o (ca_secret ?c ?ca)) () ?S"
      using new [of Map.empty "ca_secret ?c ?ca"] names(1) by simp
    have lf: "ends_in ?E secrets_after ?S (createOwnedByCluster ?c ?o (leaf_secret ?c ?ca ''db-tidb-server-secret'' ?pems)) () ?S'"
      using new [of ?S "leaf_secret ?c ?ca ''db-tidb-server-secret'' ?pems"] names(2) by simp
    have "ends_in ?E secrets_after Map.empty (ensureCA ?c ?o [leaf]) ?ca ?S"
      unfolding ensureCA_def Let_def
      by (rule ends_in_bnd [OF none], unfold option.case check_no_leaf.simps chain_ctx_simps(1), rule ends_in_thn,
          rule ends_in_bnd [OF none], simp, rule ends_in_ret, simp, simp, rule ends_in_bnd [OF gen],
          rule ends_in_thn [OF ca], rule ends_in_ret) simp_all
    moreover have "ends_in ?E secrets_after ?S (ensure_leaf ?c ?o ?ca leaf) () ?S'"
      unfolding ensure_leaf_def
      by (rule ends_in_bnd [OF none], simp only: simp_thms if_False, rule ends_in_bnd [OF iss], use lf in \<open>simp add: leaf_def\<close>)
    ultimately show ?thesis
      by (simp add: ensureTLSSecrets_def leaves settings usesCertManager_def)
        (intro ends_in_bnd ends_in_thn ends_in_ret; simp)
  qed
  then obtain t where run: "ensureTLSSecrets ?c ?o ?E [] = (Inr (), t)" "fold secrets_after t Map.empty = ?S'"
    unfolding ends_in_def by blast
  have "tls_pass ?L by_key ''c1'' ''db'' Map.empty (fold secrets_after t Map.empty)"
    by (rule tls_pass.intros [OF refl _ _ _ _ laws(3) run(1)])
      (simp_all add: sample_cluster_def settings usesCertManager_def chain_env_def serves_serve)
  then have pass: "(tls_pass ?L by_key ''c1'' ''db'')\<^sup>*\<^sup>* Map.empty ?S'" using run(2) by simp
  have "owned_or_free ?L ''c1'' (own sec)" for sec
    by (simp add: owned_or_free_def own_def sample_owner_def)
  then show ?thesis
    using certificates_chain [OF pass laws(1,2), of "''db-tidb-server-secret''" "own (leaf_secret ?c ?ca ''db-tidb-server-secret'' ?pems)"] pass
    by (auto simp: well_named_def chained_def tls_names_def mysqlServerTLSSecretName_def tlsCASecretName_def tlsCASecretSuffix_def)
qed

end
