(* ===== verification/Versions.thy ===== *)
theory Versions
  imports Components Samples
begin

text \<open>
  internal/provider/validate_versions.go: TiDB's upgrade rules on the requested component
  versions. Versions are compared by golang.org/x/mod/semver, a parameter.
\<close>

section \<open>The operations\<close>

definition upgradeOrder :: "comp list" where
  "upgradeOrder = [PD, TiFlash, TiKV, TiDB]"

text \<open>canonicalVersion adds the "v" prefix the semver package requires.\<close>

definition canonicalVersion :: "string \<Rightarrow> string" where
  "canonicalVersion v = (if has_prefix v ''v'' then v else ''v'' @ v)"

definition version_valid :: "lib \<Rightarrow> string \<Rightarrow> bool" where
  "version_valid L v = semver_valid L (canonicalVersion v)"

definition version_cmp :: "lib \<Rightarrow> string \<Rightarrow> string \<Rightarrow> int" where
  "version_cmp L v w = semver_compare L (canonicalVersion v) (canonicalVersion w)"

text \<open>The maps of component versions are keyed by component.\<close>

type_synonym versions = "comp \<rightharpoonup> string"

definition upgrade_order_text :: string where
  "upgrade_order_text =
     join_str (map comp_name upgradeOrder) ('' '' @ [CHR 0xE2, CHR 0x86, CHR 0x92] @ '' '')"

text \<open>The inner loop: the components that are upgraded before \<open>name\<close>.\<close>

fun check_before :: "lib \<Rightarrow> versions \<Rightarrow> comp \<Rightarrow> string \<Rightarrow> comp list \<Rightarrow> err option" where
  "check_before L target name version [] = None"
| "check_before L target name version (b # bs) =
     (case target b of
        Some bv \<Rightarrow>
          if version_cmp L version bv > 0
          then Some (Message (comp_name name @ '' version '' @ version @ '' is newer than '' @
                 comp_name b @ '' version '' @ bv @ '': TiDB upgrades '' @ upgrade_order_text @
                 '' in that order, so a component cannot target a newer version than the ones upgraded before it''))
          else check_before L target name version bs
      | None \<Rightarrow> check_before L target name version bs)"

text \<open>The outer loop; \<open>before\<close> is upgradeOrder[:i].\<close>

fun check_order :: "lib \<Rightarrow> versions \<Rightarrow> comp list \<Rightarrow> comp list \<Rightarrow> err option" where
  "check_order L target before [] = None"
| "check_order L target before (name # rest) =
     (case target name of
        None \<Rightarrow> check_order L target (before @ [name]) rest
      | Some version \<Rightarrow>
          if \<not> version_valid L version
          then Some (Message (comp_name name @ '' version '' @ go_quote version @
                 '' is not a valid semantic version''))
          else (case check_before L target name version before of
                  Some e \<Rightarrow> Some e
                | None \<Rightarrow> check_order L target (before @ [name]) rest))"

definition checkUpgradeOrder :: "lib \<Rightarrow> versions \<Rightarrow> err option" where
  "checkUpgradeOrder L target = check_order L target [] upgradeOrder"

fun check_downgrades :: "lib \<Rightarrow> versions \<Rightarrow> versions \<Rightarrow> comp list \<Rightarrow> err option" where
  "check_downgrades L current target [] = None"
| "check_downgrades L current target (name # rest) =
     (case (current name, target name) of
        (Some from, Some to) \<Rightarrow>
          if \<not> version_valid L from then check_downgrades L current target rest
          else if version_cmp L to from < 0
            then Some (Message (''downgrading '' @ comp_name name @ '' from '' @ from @ '' to '' @ to @
                   '' is not supported: TiDB cannot be rolled back to an earlier version''))
          else check_downgrades L current target rest
      | _ \<Rightarrow> check_downgrades L current target rest)"

definition checkNoDowngrade :: "lib \<Rightarrow> versions \<Rightarrow> versions \<Rightarrow> err option" where
  "checkNoDowngrade L current target = check_downgrades L current target upgradeOrder"

text \<open>versionBundleComponents: the component versions of the Instance's version bundle. Its map may
  be nil (\<^const>\<open>None\<close>), which a lookup treats as empty.\<close>

definition bundle_version :: "(string \<rightharpoonup> string) option \<Rightarrow> comp \<Rightarrow> string" where
  "bundle_version b k = (case b of None \<Rightarrow> '''' | Some m \<Rightarrow> lookup_str m (comp_name k))"

definition versionBundleComponents :: "ctx \<Rightarrow> (string \<rightharpoonup> string) option io" where
  "versionBundleComponents c =
     bnd provider_spec (\<lambda>r.
     bnd (or_fail r) (\<lambda>spec.
       let name = effective_bundle (cx_lib c) spec (cx_instance c) in
       if name = '''' then ret (Some Map.empty)
       else or_fail (resolve_bundle (cx_lib c) spec name)))"

text \<open>
  The loop of targetVersions over upgradeOrder; the bundle is resolved when the first
  component without an explicit version needs it, and again only while its map is nil.
\<close>

fun target_loop :: "ctx \<Rightarrow> (string \<rightharpoonup> string) option \<Rightarrow> versions \<Rightarrow> comp list \<Rightarrow> versions io" where
  "target_loop c bundle target [] = ret target"
| "target_loop c bundle target (name # rest) =
     (if name = TiFlash \<and> enabledTiFlash (c_components c) = None
      then target_loop c bundle target rest
      else
        let version = co_version (component_of (c_components c) name) in
        if version \<noteq> '''' then target_loop c bundle (target(name \<mapsto> version)) rest
        else
          bnd (case bundle of Some b \<Rightarrow> ret (Some b) | None \<Rightarrow> versionBundleComponents c) (\<lambda>b.
            let v = bundle_version b name in
            target_loop c b (if v \<noteq> '''' then target(name \<mapsto> v) else target) rest))"

definition targetVersions :: "ctx \<Rightarrow> versions io" where
  "targetVersions c = target_loop c None Map.empty upgradeOrder"

definition read_version :: "ctx \<Rightarrow> comp \<Rightarrow> versions \<Rightarrow> versions io" where
  "read_version c k current =
     bnd (exists_group k (c_name c)) (\<lambda>r.
     bnd (or_wrap (''reading current '' @ comp_name k @ '' version'') r) (\<lambda>g.
       case g of None \<Rightarrow> ret current | Some grp \<Rightarrow> ret (current(k \<mapsto> g_version grp))))"

definition currentVersions :: "ctx \<Rightarrow> versions io" where
  "currentVersions c =
     bnd (read_version c PD Map.empty) (\<lambda>m1.
     bnd (read_version c TiKV m1) (\<lambda>m2.
     bnd (read_version c TiDB m2) (\<lambda>m3.
     read_version c TiFlash m3)))"

definition validateTiProxyVersion :: "ctx \<Rightarrow> unit io" where
  "validateTiProxyVersion c =
     (case enabledTiProxy (c_components c) of
        None \<Rightarrow> ret ()
      | Some co \<Rightarrow>
          bnd (if co_version co \<noteq> '''' then ret (co_version co)
               else bnd (versionBundleComponents c) (\<lambda>b. ret (bundle_version b TiProxy))) (\<lambda>to.
          if to = '''' then ret ()
          else if \<not> version_valid (cx_lib c) to
            then fail (Message (comp_name TiProxy @ '' version '' @ go_quote to @
                         '' is not a valid semantic version''))
          else
            bnd (exists_group TiProxy (c_name c)) (\<lambda>r.
            bnd (or_wrap ''reading current tiproxy version'' r) (\<lambda>g.
              case g of
                None \<Rightarrow> ret ()
              | Some grp \<Rightarrow>
                  let from = g_version grp in
                  if \<not> version_valid (cx_lib c) from then ret ()
                  else if version_cmp (cx_lib c) to from < 0
                    then fail (Message (''downgrading '' @ comp_name TiProxy @ '' from '' @ from @
                                 '' to '' @ to @ '' is not supported''))
                  else ret ()))))"

definition validateVersions :: "ctx \<Rightarrow> unit io" where
  "validateVersions c =
     bnd (targetVersions c) (\<lambda>target.
     thn (err_or_ok (checkUpgradeOrder (cx_lib c) target))
     (bnd (currentVersions c) (\<lambda>current.
     thn (err_or_ok (checkNoDowngrade (cx_lib c) current target))
     (validateTiProxyVersion c))))"

section \<open>What the semver package documents\<close>

text \<open>
  Compare returns a negative number, zero or a positive number; it is a total preorder on all
  strings, with every invalid version below every valid one.
\<close>

definition semver_laws :: "lib \<Rightarrow> bool" where
  "semver_laws L \<longleftrightarrow>
     (\<forall>v. semver_compare L v v = 0) \<and>
     (\<forall>v w. semver_compare L v w < 0 \<longleftrightarrow> semver_compare L w v > 0) \<and>
     (\<forall>u v w. semver_compare L u v \<le> 0 \<longrightarrow> semver_compare L v w \<le> 0 \<longrightarrow> semver_compare L u w \<le> 0) \<and>
     (\<forall>v w. \<not> semver_valid L v \<longrightarrow> semver_valid L w \<longrightarrow> semver_compare L v w < 0)"

lemma version_cmp_refl: "semver_laws L \<Longrightarrow> version_cmp L v v = 0"
  by (simp add: semver_laws_def version_cmp_def)

lemma version_cmp_ge_trans:
  "semver_laws L \<Longrightarrow> 0 \<le> version_cmp L u v \<Longrightarrow> 0 \<le> version_cmp L v w \<Longrightarrow> 0 \<le> version_cmp L u w"
  unfolding semver_laws_def version_cmp_def by (metis linorder_not_less)

lemma version_cmp_valid_mono:
  "semver_laws L \<Longrightarrow> version_valid L v \<Longrightarrow> 0 \<le> version_cmp L w v \<Longrightarrow> version_valid L w"
  unfolding semver_laws_def version_cmp_def version_valid_def by (meson linorder_not_less)

section \<open>Facts about the checks\<close>

lemma check_before_None:
  "check_before L target name v bs = None \<longleftrightarrow>
     (\<forall>b \<in> set bs. \<forall>w. target b = Some w \<longrightarrow> version_cmp L v w \<le> 0)"
  by (induction bs) (auto split: option.splits)

lemma check_before_SomeD:
  "check_before L target name v bs = Some e \<Longrightarrow>
     \<not> (\<forall>b \<in> set bs. \<forall>w. target b = Some w \<longrightarrow> version_cmp L v w \<le> 0)"
  by (metis check_before_None option.distinct(1))

lemma check_order_None:
  "check_order L target before rest = None \<longleftrightarrow>
     (\<forall>xs k ys. rest = xs @ k # ys \<longrightarrow> (\<forall>v. target k = Some v \<longrightarrow>
        version_valid L v \<and>
        (\<forall>b \<in> set (before @ xs). \<forall>w. target b = Some w \<longrightarrow> version_cmp L v w \<le> 0)))"
proof (induction rest arbitrary: before)
  case Nil
  then show ?case by simp
next
  case (Cons k rest)
  have "check_order L target before (k # rest) = None \<longleftrightarrow>
      (\<forall>v. target k = Some v \<longrightarrow> version_valid L v \<and>
        (\<forall>b \<in> set before. \<forall>w. target b = Some w \<longrightarrow> version_cmp L v w \<le> 0)) \<and>
      check_order L target (before @ [k]) rest = None"
    by (auto simp: check_before_None dest: check_before_SomeD split: option.splits)
  then show ?case unfolding Cons.IH split_Cons_all by simp
qed

lemma check_downgrades_None:
  "check_downgrades L current target ks = None \<longleftrightarrow>
     (\<forall>k \<in> set ks. \<forall>from to. current k = Some from \<longrightarrow> target k = Some to \<longrightarrow>
        version_valid L from \<longrightarrow> 0 \<le> version_cmp L to from)"
  by (induction ks) (auto split: option.splits)

section \<open>What validation reads\<close>

lemma target_loop_other:
  "target_loop c b m ks E h = (Inr m', t) \<Longrightarrow> k \<notin> set ks \<Longrightarrow> m' k = m k"
proof (induction ks arbitrary: b m h t)
  case Nil
  then show ?case by (simp add: ret_run)
next
  case (Cons a ks)
  from Cons.prems show ?case
    by (auto simp: Let_def bnd_Inr_iff Cons.IH split: if_splits option.splits)
qed

lemma target_loop_explicit:
  assumes "target_loop c b m ks E h = (Inr m', t)" and "distinct ks" and "k \<in> set ks"
    and "k = TiFlash \<longrightarrow> enabledTiFlash (c_components c) \<noteq> None"
    and "co_version (component_of (c_components c) k) \<noteq> ''''"
  shows "m' k = Some (co_version (component_of (c_components c) k))"
  using assms
proof (induction ks arbitrary: b m h t)
  case Nil
  then show ?case by simp
next
  case (Cons a ks)
  show ?case
  proof (cases "a = k")
    case True
    with Cons.prems have
      "target_loop c b (m(k \<mapsto> co_version (component_of (c_components c) k))) ks E h = (Inr m', t)"
      and "k \<notin> set ks"
      by (auto simp: Let_def)
    then show ?thesis by (simp add: target_loop_other)
  next
    case False
    with Cons.prems Cons.IH show ?thesis
      by (auto simp: Let_def bnd_Inr_iff split: if_splits)
  qed
qed

lemma read_version_run:
  assumes "rd_exists (ev_group E k) h (c_name c) = Inr g"
  shows "read_version c k m E h =
    (Inr (case g of None \<Rightarrow> m | Some grp \<Rightarrow> m(k \<mapsto> g_version grp)), [Exists (KGroup k) (c_name c)])"
  using assms by (cases g) (simp_all add: read_version_def exists_group_def io_run)

lemma currentVersions_run:
  assumes "\<And>k h. rd_exists (ev_group E k) h (c_name c) = Inr (G k)"
    and "currentVersions c E h = (Inr m, t)" and "k \<in> set upgradeOrder"
  shows "m k = map_option g_version (G k)"
  using assms(2,3)
  by (auto simp: currentVersions_def bnd_Inr_iff read_version_run [OF assms(1)] upgradeOrder_def
      split: option.splits)

lemma validateVersions_InrD:
  assumes "validateVersions c E h = (Inr u, t)"
  obtains target current h1 t1 h2 t2 h3 t3
  where "targetVersions c E h1 = (Inr target, t1)" "currentVersions c E h2 = (Inr current, t2)"
    "checkUpgradeOrder (cx_lib c) target = None"
    "checkNoDowngrade (cx_lib c) current target = None"
    "validateTiProxyVersion c E h3 = (Inr (), t3)"
  using assms unfolding validateVersions_def bnd_Inr_iff thn_Inr_iff err_or_ok_Inr by auto

section \<open>What a request comes to\<close>

text \<open>A component is upgraded before another: TiDB Operator rolls PD, TiFlash, TiKV, TiDB out in
  that order.\<close>

definition upgraded_before :: "comp \<Rightarrow> comp \<Rightarrow> bool" where
  "upgraded_before b k \<longleftrightarrow> (b, k) \<in> {(PD, TiFlash), (PD, TiKV), (PD, TiDB), (TiFlash, TiKV), (TiFlash, TiDB), (TiKV, TiDB)}"

lemma upgrade_order_set: "k \<in> set upgradeOrder \<longleftrightarrow> k \<noteq> TiProxy"
  by (cases k) (simp_all add: upgradeOrder_def)

lemma checkUpgradeOrder_None:
  "checkUpgradeOrder L target = None \<longleftrightarrow>
     (\<forall>k v. k \<noteq> TiProxy \<longrightarrow> target k = Some v \<longrightarrow> version_valid L v) \<and>
     (\<forall>b k v w. upgraded_before b k \<longrightarrow> target b = Some w \<longrightarrow> target k = Some v \<longrightarrow>
        version_cmp L v w \<le> 0)"
proof -
  have "k \<noteq> TiProxy \<longleftrightarrow> k = PD \<or> k = TiFlash \<or> k = TiKV \<or> k = TiDB" for k
    by (cases k) simp_all
  then show ?thesis
    unfolding checkUpgradeOrder_def check_order_None upgradeOrder_def split_Cons_all
    by (auto simp: upgraded_before_def)
qed

text \<open>The version bundle of the Instance, given the Provider's spec.\<close>

definition bundle_versions :: "ctx \<Rightarrow> string \<Rightarrow> api_err + (string \<rightharpoonup> string) option" where
  "bundle_versions c spec =
     (let name = effective_bundle (cx_lib c) spec (cx_instance c) in
      if name = '''' then Inr (Some Map.empty) else resolve_bundle (cx_lib c) spec name)"

definition takes_part :: "ctx \<Rightarrow> comp \<Rightarrow> bool" where
  "takes_part c k \<longleftrightarrow> (k = TiFlash \<longrightarrow> enabledTiFlash (c_components c) \<noteq> None) \<and>
     (k = TiProxy \<longrightarrow> enabledTiProxy (c_components c) \<noteq> None)"

definition own_version :: "ctx \<Rightarrow> comp \<Rightarrow> string" where
  "own_version c k = co_version (component_of (c_components c) k)"

text \<open>The version an Instance asks for a component to run: its own or else that of the bundle.\<close>

definition requested :: "ctx \<Rightarrow> string \<Rightarrow> versions" where
  "requested c spec k =
     (if \<not> takes_part c k then None
      else if own_version c k \<noteq> '''' then Some (own_version c k)
      else (case bundle_versions c spec of
              Inl e \<Rightarrow> None
            | Inr b \<Rightarrow> if bundle_version b k = '''' then None else Some (bundle_version b k)))"

lemma versionBundleComponents_ok:
  assumes "\<And>h. ev_provider_spec E h = Inr spec"
  shows "versionBundleComponents c E h =
    (case bundle_versions c spec of Inl e \<Rightarrow> Inl (Passed e) | Inr b \<Rightarrow> Inr b, [GetProviderSpec])"
  using assms
  by (simp add: versionBundleComponents_def provider_spec_def bnd_ask bundle_versions_def or_fail_def Let_def io_eval split: sum.split)

lemma target_loop_ok:
  assumes "\<And>h. ev_provider_spec E h = Inr spec" "TiProxy \<notin> set ks" "b = None \<or> bundle_versions c spec = Inr b"
  shows "fst (target_loop c b m ks E h) = Inr m' \<longleftrightarrow>
    ((\<exists>k \<in> set ks. takes_part c k \<and> own_version c k = '''') \<longrightarrow> (\<exists>b. bundle_versions c spec = Inr b)) \<and>
    m' = (\<lambda>k. if k \<in> set ks \<and> requested c spec k \<noteq> None then requested c spec k else m k)"
  using assms(2,3)
proof (induction ks arbitrary: b m h)
  case Nil
  then show ?case by (auto simp: ret_run)
next
  case (Cons k ks)
  have part: "takes_part c k \<longleftrightarrow> \<not> (k = TiFlash \<and> enabledTiFlash (c_components c) = None)"
    using Cons.prems(1) by (auto simp: takes_part_def)
  consider "\<not> takes_part c k" | "takes_part c k" "own_version c k \<noteq> ''''" | "takes_part c k" "own_version c k = ''''" by blast
  then show ?case
  proof cases
    case 1
    then have "requested c spec k = None" by (simp add: requested_def)
    moreover have "fst (target_loop c b m (k # ks) E h) = fst (target_loop c b m ks E h)" using 1 part by simp
    ultimately show ?thesis using Cons 1 by (auto simp: fun_eq_iff)
  next
    case 2
    then have "requested c spec k = Some (own_version c k)" by (simp add: requested_def)
    moreover have "fst (target_loop c b m (k # ks) E h) = fst (target_loop c b (m(k \<mapsto> own_version c k)) ks E h)"
      using 2 part by (auto simp: own_version_def Let_def)
    ultimately show ?thesis using Cons 2 by (auto simp: fun_eq_iff)
  next
    case 3
    show ?thesis
    proof (cases "bundle_versions c spec")
      case (Inl e)
      then have "b = None" using Cons.prems(2) by auto
      then show ?thesis
        using 3 part Inl by (auto simp: own_version_def Let_def bnd_def versionBundleComponents_ok [OF assms(1)])
    next
      case (Inr b')
      let ?m = "if bundle_version b' k \<noteq> '''' then m(k \<mapsto> bundle_version b' k) else m"
      obtain h' where "fst (target_loop c b m (k # ks) E h) = fst (target_loop c b' ?m ks E h')"
        using 3 part Cons.prems(2) Inr
        by (cases b) (auto simp: own_version_def Let_def bnd_def case_prod_beta ret_def versionBundleComponents_ok [OF assms(1)])
      moreover have "fst (target_loop c b' ?m ks E h') = Inr m' \<longleftrightarrow>
          m' = (\<lambda>j. if j \<in> set ks \<and> requested c spec j \<noteq> None then requested c spec j else ?m j)"
        using Cons.IH [of b' ?m h'] Cons.prems(1) Inr by simp
      moreover have "requested c spec k = (if bundle_version b' k = '''' then None else Some (bundle_version b' k))"
        using 3 Inr by (simp add: requested_def)
      then have "(\<lambda>j. if j \<in> set ks \<and> requested c spec j \<noteq> None then requested c spec j else ?m j) =
          (\<lambda>j. if j \<in> set (k # ks) \<and> requested c spec j \<noteq> None then requested c spec j else m j)"
        by (intro ext) simp
      ultimately show ?thesis using Inr by simp
    qed
  qed
qed

lemma targetVersions_ok:
  assumes "\<And>h. ev_provider_spec E h = Inr spec"
  shows "fst (targetVersions c E h) = Inr m \<longleftrightarrow>
    ((\<exists>k. k \<noteq> TiProxy \<and> takes_part c k \<and> own_version c k = '''') \<longrightarrow> (\<exists>b. bundle_versions c spec = Inr b)) \<and>
    m = (\<lambda>k. if k = TiProxy then None else requested c spec k)"
proof -
  have all: "(\<lambda>k. if k \<in> set upgradeOrder \<and> requested c spec k \<noteq> None then requested c spec k else Map.empty k) =
      (\<lambda>k. if k = TiProxy then None else requested c spec k)"
    by (simp add: fun_eq_iff upgrade_order_set)
  show ?thesis
    unfolding targetVersions_def target_loop_ok [where b = None and m = Map.empty, OF assms _ disjI1 [OF refl], of upgradeOrder, unfolded all upgrade_order_set, simplified]
    by (auto simp: upgrade_order_set)
qed

lemma currentVersions_ok:
  assumes "\<And>k h. rd_exists (ev_group E k) h (c_name c) = Inr (G k)"
  obtains m t where "currentVersions c E h = (Inr m, t)" "\<forall>k. k \<noteq> TiProxy \<longrightarrow> m k = map_option g_version (G k)"
proof -
  have "\<exists>m t. currentVersions c E h = (Inr m, t)"
    by (simp add: currentVersions_def bnd_def read_version_run [OF assms])
  then show thesis using that currentVersions_run [OF assms] by (metis upgrade_order_set)
qed

text \<open>One component's request against the version its group runs.\<close>

definition no_step_back :: "lib \<Rightarrow> string \<Rightarrow> group option \<Rightarrow> bool" where
  "no_step_back L v found \<longleftrightarrow>
     (\<forall>g. found = Some g \<longrightarrow> version_valid L (g_version g) \<longrightarrow> 0 \<le> version_cmp L v (g_version g))"

lemma validateTiProxyVersion_ok:
  assumes "\<And>h. ev_provider_spec E h = Inr spec" "\<And>k h. rd_exists (ev_group E k) h (c_name c) = Inr (G k)"
  shows "fst (validateTiProxyVersion c E h) = Inr () \<longleftrightarrow>
    (takes_part c TiProxy \<and> own_version c TiProxy = '''' \<longrightarrow> (\<exists>b. bundle_versions c spec = Inr b)) \<and>
    (\<forall>v. requested c spec TiProxy = Some v \<longrightarrow> version_valid (cx_lib c) v \<and> no_step_back (cx_lib c) v (G TiProxy))"
proof (cases "enabledTiProxy (c_components c)")
  case None
  then show ?thesis by (simp add: validateTiProxyVersion_def ret_run takes_part_def requested_def)
next
  case (Some co)
  then have co: "own_version c TiProxy = co_version co" "takes_part c TiProxy"
    by (simp_all add: own_version_def tiproxy.enabled_component_of takes_part_def)
  show ?thesis
    using Some co assms(2) [of TiProxy]
    by (cases "bundle_versions c spec"; cases "G TiProxy")
      (auto simp: validateTiProxyVersion_def requested_def no_step_back_def bnd_def ret_def fail_def ask_def exists_group_def
        or_wrap_def wrapping_def Let_def versionBundleComponents_ok [OF assms(1)])
qed

text \<open>When the bundle has to be there.\<close>

definition bundle_needed :: "ctx \<Rightarrow> bool" where
  "bundle_needed c \<longleftrightarrow> (\<exists>k. takes_part c k \<and> own_version c k = '''')"

lemma TiProxy_apart:
  "(\<exists>k. P k) \<longleftrightarrow> P TiProxy \<or> (\<exists>k. k \<noteq> TiProxy \<and> P k)" "(\<forall>k. P k) \<longleftrightarrow> P TiProxy \<and> (\<forall>k. k \<noteq> TiProxy \<longrightarrow> P k)"
  by metis+

lemma bnd_fst_iff:
  "fst (bnd m f E h) = Inr y \<longleftrightarrow> (\<exists>x. fst (m E h) = Inr x \<and> fst (f x E (h @ snd (m E h))) = Inr y)"
  by (cases "m E h") (auto simp: bnd_ok_iff)

lemma validateVersions_ok:
  assumes "\<And>h. ev_provider_spec E h = Inr spec" "\<And>k h. rd_exists (ev_group E k) h (c_name c) = Inr (G k)"
  shows "fst (validateVersions c E h) = Inr () \<longleftrightarrow>
    (bundle_needed c \<longrightarrow> (\<exists>b. bundle_versions c spec = Inr b)) \<and>
    (\<forall>k v. requested c spec k = Some v \<longrightarrow> version_valid (cx_lib c) v \<and> no_step_back (cx_lib c) v (G k)) \<and>
    (\<forall>b k v w. upgraded_before b k \<longrightarrow> requested c spec b = Some w \<longrightarrow> requested c spec k = Some v \<longrightarrow>
       version_cmp (cx_lib c) v w \<le> 0)"
proof -
  let ?L = "cx_lib c" and ?T = "\<lambda>k. if k = TiProxy then None else requested c spec k"
  let ?needs = "(\<exists>k. k \<noteq> TiProxy \<and> takes_part c k \<and> own_version c k = '''') \<longrightarrow> (\<exists>b. bundle_versions c spec = Inr b)"
  have order: "checkUpgradeOrder ?L ?T = None \<longleftrightarrow>
      (\<forall>k v. k \<noteq> TiProxy \<longrightarrow> requested c spec k = Some v \<longrightarrow> version_valid ?L v) \<and>
      (\<forall>b k v w. upgraded_before b k \<longrightarrow> requested c spec b = Some w \<longrightarrow> requested c spec k = Some v \<longrightarrow> version_cmp ?L v w \<le> 0)"
    unfolding checkUpgradeOrder_None by (auto simp: upgraded_before_def)
  have down: "checkNoDowngrade ?L m ?T = None \<longleftrightarrow>
      (\<forall>k v. k \<noteq> TiProxy \<longrightarrow> requested c spec k = Some v \<longrightarrow> no_step_back ?L v (G k))"
    if "\<forall>k. k \<noteq> TiProxy \<longrightarrow> m k = map_option g_version (G k)" for m
    unfolding checkNoDowngrade_def check_downgrades_None
    using that by (fastforce simp: upgrade_order_set no_step_back_def)
  have "fst (validateVersions c E h) = Inr () \<longleftrightarrow>
    ?needs \<and> checkUpgradeOrder ?L ?T = None \<and>
    (\<forall>k v. k \<noteq> TiProxy \<longrightarrow> requested c spec k = Some v \<longrightarrow> no_step_back ?L v (G k)) \<and>
    (takes_part c TiProxy \<and> own_version c TiProxy = '''' \<longrightarrow> (\<exists>b. bundle_versions c spec = Inr b)) \<and>
    (\<forall>v. requested c spec TiProxy = Some v \<longrightarrow> version_valid ?L v \<and> no_step_back ?L v (G TiProxy))"
  proof -
    have rest: "fst (thn (err_or_ok (checkUpgradeOrder ?L ?T))
        (bnd (currentVersions c) (\<lambda>current. thn (err_or_ok (checkNoDowngrade ?L current ?T)) (validateTiProxyVersion c))) E h) = Inr () \<longleftrightarrow>
      checkUpgradeOrder ?L ?T = None \<and>
      (\<forall>k v. k \<noteq> TiProxy \<longrightarrow> requested c spec k = Some v \<longrightarrow> no_step_back ?L v (G k)) \<and>
      (takes_part c TiProxy \<and> own_version c TiProxy = '''' \<longrightarrow> (\<exists>b. bundle_versions c spec = Inr b)) \<and>
      (\<forall>v. requested c spec TiProxy = Some v \<longrightarrow> version_valid ?L v \<and> no_step_back ?L v (G TiProxy))" for h
    proof -
      let ?h = "h @ snd (err_or_ok (checkUpgradeOrder ?L ?T) E h)"
      obtain m t where m: "currentVersions c E ?h = (Inr m, t)" "\<forall>k. k \<noteq> TiProxy \<longrightarrow> m k = map_option g_version (G k)"
        using currentVersions_ok [OF assms(2)] by blast
      have "fst (bnd (currentVersions c) f E ?h) = fst (f m E (?h @ t))" for f :: "versions \<Rightarrow> unit io"
        by (simp add: bnd_def m(1) case_prod_beta)
      then show ?thesis
        unfolding thn_ok_iff err_or_ok_ok validateTiProxyVersion_ok [OF assms] by (simp only: thn_ok_iff err_or_ok_ok down [OF m(2)]
          validateTiProxyVersion_ok [OF assms])
    qed
    have one: "(\<exists>x. A \<and> x = T \<and> P x) \<longleftrightarrow> A \<and> P T" for A and T :: versions and P by blast
    show ?thesis
      unfolding validateVersions_def
      by (subst bnd_fst_iff) (simp only: targetVersions_ok [OF assms(1)] conj_assoc one rest)
  qed
  moreover have "(bundle_needed c \<longrightarrow> (\<exists>b. bundle_versions c spec = Inr b)) \<longleftrightarrow>
      ?needs \<and> (takes_part c TiProxy \<and> own_version c TiProxy = '''' \<longrightarrow> (\<exists>b. bundle_versions c spec = Inr b))"
    unfolding bundle_needed_def TiProxy_apart(1) [of "\<lambda>k. takes_part c k \<and> own_version c k = ''''"] by argo
  moreover have "(\<forall>k v. requested c spec k = Some v \<longrightarrow> version_valid ?L v \<and> no_step_back ?L v (G k)) \<longleftrightarrow>
      (\<forall>k v. k \<noteq> TiProxy \<longrightarrow> requested c spec k = Some v \<longrightarrow> version_valid ?L v) \<and>
      (\<forall>k v. k \<noteq> TiProxy \<longrightarrow> requested c spec k = Some v \<longrightarrow> no_step_back ?L v (G k)) \<and>
      (\<forall>v. requested c spec TiProxy = Some v \<longrightarrow> version_valid ?L v \<and> no_step_back ?L v (G TiProxy))"
    unfolding TiProxy_apart(2) [of "\<lambda>k. \<forall>v. requested c spec k = Some v \<longrightarrow> version_valid ?L v \<and> no_step_back ?L v (G k)"]
    by (auto simp del: not_None_eq)
  ultimately show ?thesis
    unfolding order by argo
qed

section \<open>Properties\<close>

text \<open>C28: exactly which versions validateVersions accepts. What an Instance asks of a component is its own version
  or else the one its version bundle gives. An Instance is accepted if and only if the bundle can be resolved where
  it is needed, every version asked for is valid and none is earlier than the valid version the group of its component
  runs (TiProxy included, on its own version line), and no TiDB component is asked to run a newer version than
  one that is upgraded before it.\<close>

theorem validateVersions_accepts:
  assumes "\<And>h. ev_provider_spec E h = Inr spec" "\<And>k h. rd_exists (ev_group E k) h (c_name c) = Inr (G k)"
  shows "fst (validateVersions c E h) = Inr () \<longleftrightarrow>
    (bundle_needed c \<longrightarrow> (\<exists>b. bundle_versions c spec = Inr b)) \<and>
    (\<forall>k v. requested c spec k = Some v \<longrightarrow> version_valid (cx_lib c) v \<and>
       (\<forall>g. G k = Some g \<longrightarrow> version_valid (cx_lib c) (g_version g) \<longrightarrow> 0 \<le> version_cmp (cx_lib c) v (g_version g)) \<and>
       (\<forall>b w. upgraded_before b k \<longrightarrow> requested c spec b = Some w \<longrightarrow> version_cmp (cx_lib c) v w \<le> 0))"
  unfolding validateVersions_ok [OF assms] no_step_back_def by blast

text \<open>An Instance with one version for all components but TiKV, over a cluster that runs v7.\<close>

definition versioned_ctx :: "string \<Rightarrow> string \<Rightarrow> ctx" where
  "versioned_ctx v w = sample_ctx_with [''pd'' \<mapsto> zero_component\<lparr>co_version := v\<rparr>,
     ''tikv'' \<mapsto> zero_component\<lparr>co_version := w\<rparr>, ''tidb'' \<mapsto> zero_component\<lparr>co_version := v\<rparr>]"

definition seven_env :: env where
  "seven_env = env_of (empty_store\<lparr>so_group := \<lambda>k n. if n = ''db'' then Some (sample_group k ''v7'' 3) else None\<rparr>)"

theorem validateVersions_accepts_witness:
  "fst (validateVersions (versioned_ctx ''v8'' ''v8'') seven_env []) = Inr () \<and>
   fst (validateVersions (versioned_ctx ''v7'' ''v8'') seven_env []) \<noteq> Inr () \<and>
   fst (validateVersions (versioned_ctx ''v6'' ''v6'') seven_env []) \<noteq> Inr ()"
proof -
  have reads: "\<And>h. ev_provider_spec seven_env h = Inr ''''"
    "\<And>k h. rd_exists (ev_group seven_env k) h (c_name (versioned_ctx v w)) = Inr (Some (sample_group k ''v7'' 3))" for v w
    by (simp_all add: seven_env_def versioned_ctx_def)
  have asked: "requested (versioned_ctx v w) '''' k = (if k \<in> {PD, TiDB} then Some v else if k = TiKV then Some w else None)"
    if "v \<noteq> ''''" "w \<noteq> ''''" for v w k
    using that by (cases k) (simp_all add: requested_def takes_part_def own_version_def versioned_ctx_def component_of_def
        enabledTiFlash_def enabledTiProxy_def)
  have needed: "\<not> bundle_needed (versioned_ctx v w)" if "v \<noteq> ''''" "w \<noteq> ''''" for v w
    unfolding bundle_needed_def
  proof
    assume "\<exists>k. takes_part (versioned_ctx v w) k \<and> own_version (versioned_ctx v w) k = ''''"
    then obtain k where "takes_part (versioned_ctx v w) k" "own_version (versioned_ctx v w) k = ''''" by blast
    with that show False
      by (cases k) (simp_all add: takes_part_def own_version_def versioned_ctx_def component_of_def enabledTiFlash_def enabledTiProxy_def)
  qed
  have L: "cx_lib (versioned_ctx v w) = sample_lib" for v w by (simp add: versioned_ctx_def)
  note ok = validateVersions_accepts [where spec = "''''" and E = seven_env and G = "\<lambda>k. Some (sample_group k ''v7'' 3)", OF reads]
  show ?thesis
    unfolding ok
    by (auto simp: asked needed L upgraded_before_def version_valid_def version_cmp_def canonicalVersion_def has_prefix_def sample_rank_def
        sample_group_def split: if_splits)
qed

end
