(* ===== verification/Capacity.thy ===== *)
theory Capacity
  imports TikvSizing
begin

text \<open>
  internal/provider/validate_storage.go and internal/provider/validate_replicas.go: a data volume
  is never shrunk, and TiKV is never scaled in below the copies PD keeps of every region.
\<close>

section \<open>Storage\<close>

fun checkNoShrink :: "lib \<Rightarrow> comp \<Rightarrow> volume list \<Rightarrow> storage option \<Rightarrow> err option" where
  "checkNoShrink L k [] requested = None"
| "checkNoShrink L k (v # vs) requested =
     (let desired = dataVolumeSize L requested in
      if vol_name v = dataVolumeName \<and> q_cmp L desired (vol_storage v) < 0
      then Some (Message (''shrinking '' @ comp_name k @ '' storage from '' @ q_string L (vol_storage v) @
             '' to '' @ q_string L desired @ '' is not supported: volumes can only be expanded''))
      else checkNoShrink L k vs requested)"

definition check_storage_of :: "ctx \<Rightarrow> comp \<Rightarrow> storage option \<Rightarrow> unit io" where
  "check_storage_of c k requested =
     bnd (exists_group k (c_name c)) (\<lambda>r.
     bnd (or_wrap (''reading current '' @ comp_name k @ '' storage'') r) (\<lambda>g.
       case g of
         None \<Rightarrow> ret ()
       | Some grp \<Rightarrow> err_or_ok (checkNoShrink (cx_lib c) k (g_volumes grp) requested)))"

definition validateStorage :: "ctx \<Rightarrow> unit io" where
  "validateStorage c =
     thn (check_storage_of c PD (co_storage (component_of (c_components c) PD)))
     (thn (check_storage_of c TiKV (co_storage (component_of (c_components c) TiKV)))
     (case enabledTiFlash (c_components c) of
        None \<Rightarrow> ret ()
      | Some tiflash \<Rightarrow> check_storage_of c TiFlash (co_storage tiflash)))"

section \<open>TiKV replicas\<close>

definition defaultMaxReplicas :: int where "defaultMaxReplicas = 3"

definition pdMaxReplicas :: "lib \<Rightarrow> string \<Rightarrow> err + int" where
  "pdMaxReplicas L config =
     (case toml_max_replicas L config of
        Inl e \<Rightarrow> Inl (Wrapped ''pd config is not valid TOML'' (Message e))
      | Inr n \<Rightarrow> Inr (if n \<le> 0 then defaultMaxReplicas else n))"

text \<open>The comparison at the end of validateTiKVScaleIn; the config is only read for a scale-in.\<close>

definition scaleInError :: "lib \<Rightarrow> string \<Rightarrow> int \<Rightarrow> int \<Rightarrow> err option" where
  "scaleInError L pdConfig current requested =
     (if requested \<ge> current then None
      else (case pdMaxReplicas L pdConfig of
              Inl e \<Rightarrow> Some e
            | Inr maxReplicas \<Rightarrow>
                if requested < maxReplicas
                then Some (Message (''scaling tikv in from '' @ itoa current @ '' to '' @ itoa requested @
                       '' replicas is not supported: PD keeps '' @ itoa maxReplicas @
                       '' copies of every region (replication.max-replicas), so it cannot remove a TiKV node once fewer than '' @
                       itoa maxReplicas @ '' would remain''))
                else None))"

definition validateTiKVScaleIn :: "ctx \<Rightarrow> unit io" where
  "validateTiKVScaleIn c =
     bnd (exists_group TiKV (c_name c)) (\<lambda>r.
     bnd (or_wrap ''reading current tikv replicas'' r) (\<lambda>g.
       case g of
         None \<Rightarrow> ret ()
       | Some tikv \<Rightarrow>
           (case g_replicas tikv of
              None \<Rightarrow> ret ()
            | Some current \<Rightarrow>
                let comps = c_components c;
                    requested = replicasOrDefault (co_replicas (component_of comps TiKV)) defaultTiKVReplicas in
                err_or_ok (scaleInError (cx_lib c) (componentConfig (cx_lib c) (component_of comps PD))
                  current requested))))"

section \<open>Lemmas\<close>

lemma checkNoShrink_None:
  "checkNoShrink L k vs s = None \<longleftrightarrow>
     (\<forall>v \<in> set vs. vol_name v = dataVolumeName \<longrightarrow> 0 \<le> q_cmp L (dataVolumeSize L s) (vol_storage v))"
  by (induction vs) (auto simp: Let_def)

text \<open>A component's stored size is large enough for its group.\<close>

definition no_shrink :: "lib \<Rightarrow> group option \<Rightarrow> storage option \<Rightarrow> bool" where
  "no_shrink L g s \<longleftrightarrow> (\<forall>grp. g = Some grp \<longrightarrow>
     (\<forall>v \<in> set (g_volumes grp). vol_name v = dataVolumeName \<longrightarrow>
        0 \<le> q_cmp L (dataVolumeSize L s) (vol_storage v)))"

lemma check_storage_of_ok:
  assumes "rd_exists (ev_group E k) h (c_name c) = Inr g"
  shows "fst (check_storage_of c k s E h) = Inr () \<longleftrightarrow> no_shrink (cx_lib c) g s"
  using assms
  by (auto simp: check_storage_of_def exists_group_def bnd_ask ret_run no_shrink_def checkNoShrink_None
      split: option.splits)

lemma validateStorage_ok:
  assumes "\<And>k h. rd_exists (ev_group E k) h (c_name c) = Inr (G k)"
  shows "fst (validateStorage c E h) = Inr () \<longleftrightarrow>
    (\<forall>k \<in> {PD, TiKV, TiFlash}. (k = TiFlash \<longrightarrow> enabledTiFlash (c_components c) \<noteq> None) \<longrightarrow>
       no_shrink (cx_lib c) (G k) (co_storage (component_of (c_components c) k)))"
proof (cases "enabledTiFlash (c_components c)")
  case None
  then show ?thesis
    by (simp add: validateStorage_def thn_ok_iff check_storage_of_ok [OF assms] ret_run)
next
  case (Some tf)
  then have "component_of (c_components c) TiFlash = tf" by (rule tiflash.enabled_component_of)
  with Some show ?thesis
    by (simp add: validateStorage_def thn_ok_iff check_storage_of_ok [OF assms])
qed

lemma pdMaxReplicas_pos: "pdMaxReplicas L cfg = Inr m \<Longrightarrow> 0 < m"
  by (auto simp: pdMaxReplicas_def defaultMaxReplicas_def split: sum.splits if_splits)

lemma validateTiKVScaleIn_ok:
  assumes "rd_exists (ev_group E TiKV) h (c_name c) = Inr g"
  shows "fst (validateTiKVScaleIn c E h) = Inr () \<longleftrightarrow>
    (\<forall>grp current. g = Some grp \<longrightarrow> g_replicas grp = Some current \<longrightarrow>
       replicasOrDefault (co_replicas (component_of (c_components c) TiKV)) defaultTiKVReplicas < current \<longrightarrow>
       (\<exists>m. pdMaxReplicas (cx_lib c) (componentConfig (cx_lib c) (component_of (c_components c) PD)) = Inr m \<and>
            m \<le> replicasOrDefault (co_replicas (component_of (c_components c) TiKV)) defaultTiKVReplicas))"
  using assms
  by (auto simp: validateTiKVScaleIn_def scaleInError_def exists_group_def bnd_ask ret_run fail_run Let_def
      split: option.splits sum.splits)

section \<open>Repeated requests\<close>

text \<open>The data volume's size under a list of requested storage specs.\<close>

definition size_request_ok :: "lib \<Rightarrow> quantity \<Rightarrow> storage option \<Rightarrow> bool" where
  "size_request_ok L sz s \<longleftrightarrow>
     checkNoShrink L TiKV [(dataVolume L None ''data'')\<lparr>vol_storage := sz\<rparr>] s = None"

definition resize :: "lib \<Rightarrow> quantity \<Rightarrow> storage option list \<Rightarrow> quantity" where
  "resize L = guarded_run (size_request_ok L) (\<lambda>_. dataVolumeSize L)"

interpretation size_guard:
  guarded_update "size_request_ok L" "\<lambda>_. dataVolumeSize L" "\<lambda>a b. quantity_laws L \<longrightarrow> 0 \<le> q_cmp L b a" for L
proof unfold_locales
  show "quantity_laws L \<longrightarrow> 0 \<le> q_cmp L s s" for s by (simp add: quantity_laws_def)
  show "quantity_laws L \<longrightarrow> 0 \<le> q_cmp L s'' s"
    if "quantity_laws L \<longrightarrow> 0 \<le> q_cmp L s' s" "quantity_laws L \<longrightarrow> 0 \<le> q_cmp L s'' s'" for s s' s''
    using that unfolding quantity_laws_def by (metis linorder_not_less)
  show "quantity_laws L \<longrightarrow> 0 \<le> q_cmp L (dataVolumeSize L r) s" if "size_request_ok L s r" for s r
    using that unfolding size_request_ok_def checkNoShrink_None by (simp add: dataVolume_def)
qed

text \<open>TiKV's replica count under a list of requested counts, with a fixed PD config.\<close>

definition scale_request_ok :: "lib \<Rightarrow> string \<Rightarrow> int \<Rightarrow> int option \<Rightarrow> bool" where
  "scale_request_ok L pdConfig current r \<longleftrightarrow>
     scaleInError L pdConfig current (replicasOrDefault r defaultTiKVReplicas) = None"

definition scale :: "lib \<Rightarrow> string \<Rightarrow> int \<Rightarrow> int option list \<Rightarrow> int" where
  "scale L pdConfig = guarded_run (scale_request_ok L pdConfig) (\<lambda>_ r. replicasOrDefault r defaultTiKVReplicas)"

interpretation scale_guard:
  guarded_update "scale_request_ok L cfg" "\<lambda>_ r. replicasOrDefault r defaultTiKVReplicas"
    "\<lambda>a b. case pdMaxReplicas L cfg of Inl e \<Rightarrow> a \<le> b | Inr m \<Rightarrow> min a m \<le> min b m" for L cfg
  by unfold_locales (auto simp: scale_request_ok_def scaleInError_def split: sum.splits if_splits)

section \<open>Properties\<close>

text \<open>With stable reads, validateStorage accepts exactly the Instances that shrink no data volume
  of PD, TiKV or an enabled TiFlash: the size each asks for (10Gi when none is given) is at least
  the size of the data volume its group has. A disabled TiFlash is not checked.\<close>

theorem validateStorage_accepts:
  assumes "\<And>k h. rd_exists (ev_group E k) h (c_name c) = Inr (G k)"
  shows "fst (validateStorage c E h) = Inr () \<longleftrightarrow>
    (\<forall>k \<in> {PD, TiKV, TiFlash}. (k = TiFlash \<longrightarrow> enabledTiFlash (c_components c) \<noteq> None) \<longrightarrow>
       no_shrink (cx_lib c) (G k) (co_storage (component_of (c_components c) k)))"
  by (rule validateStorage_ok [OF assms])

definition group_with_volume :: "comp \<Rightarrow> quantity \<Rightarrow> group" where
  "group_with_volume k q = (sample_group k ''v8'' 3)
     \<lparr>g_volumes := [(dataVolume sample_lib None ''data'')\<lparr>vol_storage := q\<rparr>]\<rparr>"

theorem validateStorage_accepts_witness:
  "fst (validateStorage sample_ctx (env_of (empty_store
     \<lparr>so_group := \<lambda>k n. if n = ''db'' \<and> k = TiKV then Some (group_with_volume TiKV ''100Gi'') else None\<rparr>)) []) \<noteq> Inr ()"
proof -
  let ?G = "\<lambda>k. if k = TiKV then Some (group_with_volume TiKV ''100Gi'') else None"
  let ?E = "env_of (empty_store
     \<lparr>so_group := \<lambda>k n. if n = ''db'' \<and> k = TiKV then Some (group_with_volume TiKV ''100Gi'') else None\<rparr>)"
  have "rd_exists (ev_group ?E k) h (c_name sample_ctx) = Inr (?G k)" for k h by simp
  from validateStorage_accepts [OF this, of "[]"] show ?thesis
    by (auto simp: no_shrink_def group_with_volume_def dataVolume_def dataVolumeSize_def
        defaultVolumeSize_def component_of_def sample_quantity_def)
qed

text \<open>C31: no sequence of storage requests, accepted or rejected, leaves a data volume smaller than it
  was.\<close>

theorem resize_never_shrinks:
  assumes "quantity_laws L"
  shows "q_value L sz \<le> q_value L (resize L sz requests)"
  using size_guard.run_le [of L sz requests] assms quantity_le_value [OF assms]
  unfolding resize_def by blast

theorem resize_never_shrinks_witness:
  "q_value sample_lib ''10Gi'' \<le> q_value sample_lib (resize sample_lib ''10Gi''
     [Some \<lparr>st_size = ''4Gi'', st_class = None\<rparr>, Some \<lparr>st_size = ''100Gi'', st_class = None\<rparr>])"
  by (rule resize_never_shrinks [OF sample_quantity_laws])

text \<open>ValidateTiKVScaleIn accepts a request exactly when the TiKV group does not exist or has no
  replica count yet, the request does not scale in, or the PD config parses and at least PD's
  max-replicas nodes (3 unless the config sets a positive number) remain.\<close>

theorem validateTiKVScaleIn_accepts:
  assumes "rd_exists (ev_group E TiKV) h (c_name c) = Inr g"
  shows "fst (validateTiKVScaleIn c E h) = Inr () \<longleftrightarrow>
    (\<forall>grp current. g = Some grp \<longrightarrow> g_replicas grp = Some current \<longrightarrow>
       replicasOrDefault (co_replicas (component_of (c_components c) TiKV)) 3 < current \<longrightarrow>
       (\<exists>m. toml_max_replicas (cx_lib c) (componentConfig (cx_lib c) (component_of (c_components c) PD)) = Inr m \<and>
            (if m \<le> 0 then 3 else m)
              \<le> replicasOrDefault (co_replicas (component_of (c_components c) TiKV)) 3))"
  unfolding validateTiKVScaleIn_ok [OF assms] pdMaxReplicas_def defaultMaxReplicas_def defaultTiKVReplicas_def
  by (auto split: sum.splits)

theorem validateTiKVScaleIn_accepts_witness:
  "fst (validateTiKVScaleIn (sample_ctx_with [''tikv'' \<mapsto> zero_component\<lparr>co_replicas := Some 2\<rparr>])
     (env_of (empty_store\<lparr>so_group := \<lambda>k. [''db'' \<mapsto> sample_group k ''v8'' 4]\<rparr>)) []) \<noteq> Inr ()"
  by (subst validateTiKVScaleIn_accepts [where g = "Some (sample_group TiKV ''v8'' 4)"])
    (simp_all add: component_of_def)

text \<open>C32: once TiKV runs at least the copies PD keeps, no sequence of replica requests takes it below
  that number, a smaller cluster is never made smaller still, and with a PD config that does not
  parse TiKV is never scaled in at all.\<close>

theorem scaling_keeps_copies:
  "case pdMaxReplicas L cfg of
     Inl e \<Rightarrow> current \<le> scale L cfg current requests
   | Inr m \<Rightarrow> min current m \<le> scale L cfg current requests"
  using scale_guard.run_le [where L = L and cfg = cfg and s = current and rs = requests] unfolding scale_def
  by (auto split: sum.splits)

end
