(* ===== verification/Validate.thy ===== *)
theory Validate
  imports Versions Capacity Sync
begin

text \<open>
  internal/provider/validate.go: the validation of an Instance as a whole, and what it means for the
  groups SyncTiDB then builds.
\<close>

section \<open>ValidateTiDB\<close>

definition maxClusterNameLength :: nat where "maxClusterNameLength = 37"

definition missing_component :: "(string \<rightharpoonup> component_spec) \<Rightarrow> comp option" where
  "missing_component comps = find (\<lambda>k. comps (comp_name k) = None) [PD, TiKV, TiDB]"

definition ValidateTiDB :: "ctx \<Rightarrow> unit io" where
  "ValidateTiDB c =
     (if length (c_name c) > maxClusterNameLength then
        fail (Message (''instance name '' @ go_quote (c_name c) @ '' is too long: TiDB cluster name must not exceed '' @
          itoa (int maxClusterNameLength) @ '' characters''))
      else
        (case missing_component (c_components c) of
           Some k \<Rightarrow> fail (Message (''required component '' @ go_quote (comp_name k) @ '' is missing''))
         | None \<Rightarrow>
             thn (case co_replicas (component_of (c_components c) PD) of
                    None \<Rightarrow> ret ()
                  | Some n \<Rightarrow>
                      if n mod 2 = 0 then fail (Message (''pd replicas must be an odd number, got '' @ itoa n)) else ret ())
             (thn (validateVersions c)
             (thn (validateTiKVScaleIn c)
             (thn (validateTiKVMemory c)
             (thn (validateMonitoring c)
             (thn (validateTLS c)
             (validateStorage c))))))))"

section \<open>Facts\<close>

lemma missing_component_None:
  "missing_component comps = None \<longleftrightarrow> (\<forall>k \<in> {PD, TiKV, TiDB}. comps (comp_name k) \<noteq> None)"
  by (auto simp: missing_component_def)

lemma ValidateTiDB_InrD:
  assumes "ValidateTiDB c E h = (Inr (), t)"
  shows "length (c_name c) \<le> 37" "\<forall>k \<in> {PD, TiKV, TiDB}. c_components c (comp_name k) \<noteq> None"
    "odd (replicasOrDefault (co_replicas (component_of (c_components c) PD)) defaultPDReplicas)"
    "\<exists>h. fst (validateTiKVScaleIn c E h) = Inr ()" "\<exists>h. fst (validateTLS c E h) = Inr ()"
    "\<exists>h. fst (validateStorage c E h) = Inr ()" "\<exists>h. fst (validateVersions c E h) = Inr ()"
proof -
  from assms have ok: "fst (ValidateTiDB c E h) = Inr ()" by simp
  have len: "\<not> length (c_name c) > maxClusterNameLength"
    using ok by (auto simp: ValidateTiDB_def fail_run)
  have comps: "missing_component (c_components c) = None"
    using ok len by (cases "missing_component (c_components c)") (simp_all add: ValidateTiDB_def fail_run)
  from len show "length (c_name c) \<le> 37" by (simp add: maxClusterNameLength_def)
  from comps show "\<forall>k \<in> {PD, TiKV, TiDB}. c_components c (comp_name k) \<noteq> None" by (simp only: missing_component_None)
  note rest = ok [unfolded ValidateTiDB_def if_not_P [OF len] comps option.case thn_ok_iff]
  note odd = rest [THEN conjunct1]
  show "odd (replicasOrDefault (co_replicas (component_of (c_components c) PD)) defaultPDReplicas)"
  proof (cases "co_replicas (component_of (c_components c) PD)")
    case None
    then show ?thesis by (simp add: defaultPDReplicas_def)
  next
    case (Some n)
    from odd [unfolded Some option.case] have "n mod 2 \<noteq> 0" by (cases "n mod 2 = 0") (simp_all add: fail_run)
    then show ?thesis by (simp add: Some even_iff_mod_2_eq_zero)
  qed
  note rest = rest [THEN conjunct2]
  show "\<exists>h. fst (validateVersions c E h) = Inr ()" by (rule exI, rule rest [THEN conjunct1])
  note rest = rest [THEN conjunct2]
  show "\<exists>h. fst (validateTiKVScaleIn c E h) = Inr ()" by (rule exI, rule rest [THEN conjunct1])
  note rest = rest [THEN conjunct2, THEN conjunct2, THEN conjunct2]
  show "\<exists>h. fst (validateTLS c E h) = Inr ()" by (rule exI, rule rest [THEN conjunct1])
  show "\<exists>h. fst (validateStorage c E h) = Inr ()" by (rule exI, rule rest [THEN conjunct2])
qed

text \<open>The groups with data volumes as SyncTiDB builds them.\<close>

fun built_group :: "ctx \<Rightarrow> comp \<Rightarrow> string \<Rightarrow> group" where
  "built_group c PD = buildPDGroup c (component_of (c_components c) PD)"
| "built_group c TiKV = buildTiKVGroup c (component_of (c_components c) TiKV)"
| "built_group c TiDB = buildTiDBGroup c (component_of (c_components c) TiDB)"
| "built_group c TiFlash = buildTiFlashGroup c (component_of (c_components c) TiFlash)"
| "built_group c TiProxy = buildTiProxyGroup c (component_of (c_components c) TiProxy)"

lemma built_volumes:
  "g_volumes (built_group c k img) =
     (if k \<in> {PD, TiKV, TiFlash} then [data_volume c (component_of (c_components c) k)
        (case k of PD \<Rightarrow> ''VolumeMountTypePDData'' | TiKV \<Rightarrow> ''VolumeMountTypeTiKVData'' | _ \<Rightarrow> ''VolumeMountTypeTiFlashData'')]
      else [])"
  by (cases k) (simp_all add: buildPDGroup_def buildTiKVGroup_def buildTiDBGroup_def buildTiFlashGroup_def
      buildTiProxyGroup_def plain_group_def Let_def)

lemma built_replicas:
  "g_replicas (built_group c PD img) = Some (replicasOrDefault (co_replicas (component_of (c_components c) PD)) defaultPDReplicas)"
  "g_replicas (built_group c TiKV img) = Some (replicasOrDefault (co_replicas (component_of (c_components c) TiKV)) defaultTiKVReplicas)"
  by (simp_all add: buildPDGroup_def buildTiKVGroup_def plain_group_def Let_def)

lemma built_mysql_tls: "mysql_tls_on (built_group c TiDB img) = tls_Client (tlsSettings c)"
  by (simp add: buildTiDBGroup_def mysql_tls_on_def)

section \<open>Properties\<close>

text \<open>C9: an Instance that ValidateTiDB accepts can be synced into the cluster it already has. Its name fits
  a Cluster and PD, TiKV and TiDB are there; the PD group it is built into has an odd number of
  members; no group it is built into has a smaller data volume than the group of its component has now;
  TiKV keeps its nodes or at least as many as PD keeps copies of every region; and the TiDB
  group's client TLS stays what it is.\<close>

theorem validated_instance_is_safe:
  assumes "\<And>k h. rd_exists (ev_group E k) h (c_name c) = Inr (G k)"
    and "\<And>h. rd_exists (ev_cluster E) h (c_name c) = Inr cl"
    and "\<And>h. ev_rest_mapping E h KCertificate = crd"
    and "ValidateTiDB c E h = (Inr (), t)"
  shows "length (c_name c) \<le> 37 \<and> (\<forall>k \<in> {PD, TiKV, TiDB}. c_components c (comp_name k) \<noteq> None) \<and>
    (\<exists>n. g_replicas (built_group c PD img) = Some n \<and> odd n) \<and>
    (\<forall>k old v w. G k = Some old \<longrightarrow> (k = TiFlash \<longrightarrow> enabledTiFlash (c_components c) \<noteq> None) \<longrightarrow>
       v \<in> set (g_volumes old) \<longrightarrow> vol_name v = dataVolumeName \<longrightarrow> w \<in> set (g_volumes (built_group c k img)) \<longrightarrow>
       0 \<le> q_cmp (cx_lib c) (vol_storage w) (vol_storage v)) \<and>
    (\<forall>old current. G TiKV = Some old \<longrightarrow> g_replicas old = Some current \<longrightarrow>
       (\<exists>n. g_replicas (built_group c TiKV img) = Some n \<and> (current \<le> n \<or>
          (\<exists>m. pdMaxReplicas (cx_lib c) (componentConfig (cx_lib c) (component_of (c_components c) PD)) = Inr m \<and> m \<le> n)))) \<and>
    (\<forall>old. G TiDB = Some old \<longrightarrow> mysql_tls_on (built_group c TiDB img) = mysql_tls_on old)"
proof -
  note ok = ValidateTiDB_InrD [OF assms(4)]
  from ok(4) obtain h1 where "fst (validateTiKVScaleIn c E h1) = Inr ()" ..
  note tikv = this [unfolded validateTiKVScaleIn_ok [OF assms(1)]]
  from ok(5) obtain h2 where "fst (validateTLS c E h2) = Inr ()" ..
  note tls = this [unfolded validateTLS_ok [OF assms(2) assms(1) assms(3)] Let_def]
  from ok(6) obtain h3 where "fst (validateStorage c E h3) = Inr ()" ..
  note storage = this [unfolded validateStorage_ok [OF assms(1)]]
  show ?thesis
  proof (intro conjI allI impI)
    show "\<exists>n. g_replicas (built_group c PD img) = Some n \<and> odd n" unfolding built_replicas using ok(3) by blast
  next
    fix k old v w
    assume "G k = Some old" "k = TiFlash \<longrightarrow> enabledTiFlash (c_components c) \<noteq> None" "v \<in> set (g_volumes old)"
      "vol_name v = dataVolumeName" "w \<in> set (g_volumes (built_group c k img))"
    moreover from this(5) have "k \<in> {PD, TiKV, TiFlash}" "vol_storage w = dataVolumeSize (cx_lib c) (co_storage (component_of (c_components c) k))"
      by (auto simp: built_volumes data_volume_def dataVolume_def split: if_splits)
    ultimately show "0 \<le> q_cmp (cx_lib c) (vol_storage w) (vol_storage v)"
      using storage unfolding no_shrink_def by metis
  next
    fix old current
    assume "G TiKV = Some old" "g_replicas old = Some current"
    with tikv show "\<exists>n. g_replicas (built_group c TiKV img) = Some n \<and> (current \<le> n \<or>
        (\<exists>m. pdMaxReplicas (cx_lib c) (componentConfig (cx_lib c) (component_of (c_components c) PD)) = Inr m \<and> m \<le> n))"
      unfolding built_replicas by (metis linorder_not_le)
  next
    fix old
    assume "G TiDB = Some old"
    with tls show "mysql_tls_on (built_group c TiDB img) = mysql_tls_on old" unfolding built_mysql_tls by blast
  qed (use ok in auto)
qed

lemma ok_bnd_ex:
  assumes "\<exists>x. fst (m E h) = Inr x" "\<And>x h. \<exists>y. fst (f x E h) = Inr y"
  shows "\<exists>y. fst (bnd m f E h) = Inr y"
  using assms by (cases "m E h") (auto simp: bnd_run_Inr)

theorem validated_instance_is_safe_witness:
  "0 \<le> q_cmp sample_lib (vol_storage (data_volume sample_ctx zero_component ''VolumeMountTypeTiKVData'')) ''4Gi''"
proof -
  let ?G = "\<lambda>k. if k = TiKV then Some (group_with_volume TiKV ''4Gi'') else None"
  let ?E = "env_of (empty_store\<lparr>so_group := \<lambda>k n. if n = ''db'' then ?G k else None\<rparr>)"
  have reads: "rd_exists (ev_group ?E k) h (c_name sample_ctx) = Inr (?G k)"
    "rd_exists (ev_cluster ?E) h (c_name sample_ctx) = Inr None" "ev_rest_mapping ?E h KCertificate = None" for k h
    by simp_all
  have steps: "fst (validateVersions sample_ctx ?E h) = Inr ()" "fst (validateTiKVScaleIn sample_ctx ?E h) = Inr ()"
    "fst (validateTiKVMemory sample_ctx ?E h) = Inr ()" "fst (validateMonitoring sample_ctx ?E h) = Inr ()"
    "fst (validateTLS sample_ctx ?E h) = Inr ()" "fst (validateStorage sample_ctx ?E h) = Inr ()" for h
  proof -
    have vb: "versionBundleComponents sample_ctx ?E h = (Inr (Some Map.empty), [GetProviderSpec])" for h
      by (simp add: versionBundleComponents_def io_eval)
    have target: "fst (targetVersions sample_ctx ?E h) = Inr Map.empty" for h
      by (simp add: targetVersions_def upgradeOrder_def component_of_def enabledTiFlash_def Let_def bnd_run_Inr [where m = "versionBundleComponents sample_ctx", OF vb]
          bundle_version_def lookup_str_def ret_run)
    have read: "\<exists>m'. fst (read_version sample_ctx k m ?E h) = Inr m'" for k m h
      by (simp add: read_version_def exists_group_def bnd_ask ret_run)
    have current: "\<exists>m. fst (currentVersions sample_ctx ?E h) = Inr m" for h
      unfolding currentVersions_def by (intro ok_bnd_ex read)
    have same: "checkNoDowngrade sample_lib m Map.empty = None" for m
      by (simp add: checkNoDowngrade_def upgradeOrder_def split: option.split)
    have "fst (bnd (currentVersions sample_ctx) (\<lambda>m. thn (err_or_ok (checkNoDowngrade sample_lib m Map.empty))
        (validateTiProxyVersion sample_ctx)) ?E h) = Inr ()" for h
    proof -
      obtain m where "fst (currentVersions sample_ctx ?E h) = Inr m" using current by blast
      then show ?thesis by (rule ok_bnd) (simp add: same validateTiProxyVersion_def enabledTiProxy_def ret_run)
    qed
    then show "fst (validateVersions sample_ctx ?E h) = Inr ()"
      unfolding validateVersions_def sample_ctx_simps
      by (intro ok_bnd [where m = "targetVersions sample_ctx", OF target] ok_thn)
        (simp_all add: checkUpgradeOrder_def upgradeOrder_def ret_run)
    show "fst (validateTiKVScaleIn sample_ctx ?E h) = Inr ()"
      by (simp add: validateTiKVScaleIn_ok [OF reads(1)] component_of_def group_with_volume_def defaultTiKVReplicas_def)
    show "fst (validateTiKVMemory sample_ctx ?E h) = Inr ()" "fst (validateMonitoring sample_ctx ?E h) = Inr ()"
      by (simp_all add: validateTiKVMemory_def component_of_def validateMonitoring_def has_parameters_def sample_instance_def ret_run)
    show "fst (validateTLS sample_ctx ?E h) = Inr ()"
      by (simp add: validateTLS_ok [OF reads(2,1,3)] running_settings zero_TLS_def usesCertManager_def)
    show "fst (validateStorage sample_ctx ?E h) = Inr ()"
      by (simp add: validateStorage_ok [OF reads(1)] no_shrink_def group_with_volume_def component_of_def
          dataVolumeSize_def defaultVolumeSize_def sample_quantity_def)
  qed
  have "fst (ValidateTiDB sample_ctx ?E []) = Inr ()"
    by (simp add: ValidateTiDB_def maxClusterNameLength_def missing_component_def component_of_def thn_ok_iff steps)
  then have "ValidateTiDB sample_ctx ?E [] = (Inr (), snd (ValidateTiDB sample_ctx ?E []))" by (metis prod.collapse)
  note safe = validated_instance_is_safe [OF reads this]
  have "data_volume sample_ctx zero_component ''VolumeMountTypeTiKVData'' \<in> set (g_volumes (built_group sample_ctx TiKV ''img''))"
    unfolding built_volumes by (simp add: component_of_def)
  with safe [where img = "''img''", THEN conjunct2, THEN conjunct2, THEN conjunct2, THEN conjunct1, rule_format, of TiKV _ "(dataVolume sample_lib None ''data'')\<lparr>vol_storage := ''4Gi''\<rparr>"]
  show ?thesis by (simp add: group_with_volume_def dataVolume_def)
qed

end
