(* ===== verification/Provider.thy ===== *)
theory Provider
  imports Validate Status
begin

text \<open>
  internal/provider/provider.go: the operations the OpenEverest runtime calls, the mapping of watched
  objects to the Instance they belong to, and the teardown of a deleted Instance.
\<close>

section \<open>Watches\<close>

text \<open>A reconcile request: namespace and name.\<close>

type_synonym request = "string \<times> string"

definition instanceForBRBackup :: "obj \<Rightarrow> request list" where
  "instanceForBRBackup x =
     (case x of
        OBRBackup b \<Rightarrow>
          (case bb_br b of
             None \<Rightarrow> []
           | Some br \<Rightarrow>
               if brc_cluster br = '''' then []
               else [(if brc_namespace br = '''' then om_namespace (bb_meta b) else brc_namespace br, brc_cluster br)])
      | _ \<Rightarrow> [])"

definition instanceForRestore :: "obj \<Rightarrow> request list" where
  "instanceForRestore x =
     (case x of
        ORestore r \<Rightarrow> if rs_instance r = '''' then [] else [(om_namespace (rs_meta r), rs_instance r)]
      | _ \<Rightarrow> [])"

definition instanceForCluster :: "lib \<Rightarrow> obj \<Rightarrow> request list" where
  "instanceForCluster L x =
     (let cluster = lookup_str (om_labels (obj_meta_of x)) (api_const L ''LabelKeyCluster'') in
      if cluster = '''' then [] else [(om_namespace (obj_meta_of x), cluster)])"

definition instanceForGroup :: "obj \<Rightarrow> request list" where
  "instanceForGroup x = [(om_namespace (obj_meta_of x), om_name (obj_meta_of x))]"

section \<open>The provider's operations\<close>

definition provider_Validate :: "ctx \<Rightarrow> unit io" where "provider_Validate c = ValidateTiDB c"
definition provider_Sync :: "ctx \<Rightarrow> unit io" where "provider_Sync c = SyncTiDB c"
definition provider_Status :: "ctx \<Rightarrow> inst_status io" where "provider_Status c = StatusTiDB c"

fun go_type_name :: "comp \<Rightarrow> string" where
  "go_type_name PD = ''PD''" | "go_type_name TiKV = ''TiKV''" | "go_type_name TiDB = ''TiDB''"
| "go_type_name TiFlash = ''TiFlash''" | "go_type_name TiProxy = ''TiProxy''"

text \<open>The two loops of Cleanup, which add to \<open>left\<close>.\<close>

fun count_groups :: "ctx \<Rightarrow> int \<Rightarrow> comp list \<Rightarrow> int io" where
  "count_groups c left [] = ret left"
| "count_groups c left (k # ks) =
     bnd (exists_group k (c_name c)) (\<lambda>r.
     bnd (or_wrap (''get *v1alpha1.'' @ go_type_name k @ ''Group'') r) (\<lambda>found.
     count_groups c (if found \<noteq> None then left + 1 else left) ks))"

fun count_members :: "ctx \<Rightarrow> int \<Rightarrow> comp list \<Rightarrow> int io" where
  "count_members c left [] = ret left"
| "count_members c left (k # ks) =
     bnd (list_members k [(api_const (cx_lib c) ''LabelKeyCluster'', c_name c)]) (\<lambda>r.
     bnd (or_wrap (''list *v1alpha1.'' @ go_type_name k @ ''List'') r) (\<lambda>ms.
     count_members c (left + int (length ms)) ks))"

definition delete_cluster :: "ctx \<Rightarrow> cluster option \<Rightarrow> unit io" where
  "delete_cluster c found =
     (case found of
        None \<Rightarrow> ret ()
      | Some cl \<Rightarrow>
          if not_deleting (cl_meta cl) then
            bnd (do_write (Delete KCluster (om_name (cl_meta cl)))) (\<lambda>r. ok_or_wrap ''delete cluster'' (ignore_not_found r))
          else ret ())"

definition Cleanup :: "ctx \<Rightarrow> unit io" where
  "Cleanup c =
     bnd (stopLogBackup c) (\<lambda>stopped.
       if \<not> stopped then
         fail (WaitFor (''waiting for TiDB Operator to stop log backup '' @ go_quote (logBackupName (c_name c))))
       else
         bnd (exists_cluster (c_name c)) (\<lambda>r.
         bnd (or_wrap ''get cluster'' r) (\<lambda>found.
         thn (delete_cluster c found)
         (bnd (count_groups c (if found \<noteq> None then 1 else 0) [PD, TiKV, TiDB, TiFlash, TiProxy]) (\<lambda>left.
         bnd (count_members c left [PD, TiKV, TiDB, TiFlash, TiProxy]) (\<lambda>left.
           if left > 0 then
             fail (WaitFor (''waiting for TiDB Operator to tear down cluster '' @ go_quote (c_name c) @ '' ('' @ itoa left @ '' objects left)''))
           else ret ()))))))"

section \<open>Facts\<close>

lemma count_groups_run:
  assumes "\<And>k h. rd_exists (ev_group E k) h (c_name c) = Inr (G k)"
  shows "fst (count_groups c n ks E h) = Inr (n + int (length (filter (\<lambda>k. G k \<noteq> None) ks)))"
  by (induction ks arbitrary: n h) (auto simp: ret_run exists_group_def bnd_ask assms)

lemma count_members_run:
  assumes "\<And>k h. ev_members E h k [(api_const (cx_lib c) ''LabelKeyCluster'', c_name c)] = Inr (M k)"
  shows "fst (count_members c n ks E h) = Inr (n + int (length (concat (map M ks))))"
  by (induction ks arbitrary: n h) (auto simp: ret_run list_members_def bnd_ask assms)

lemma count_calls: "calls_in (\<lambda>k. \<not> is_write k) (count_groups c n ks)" "calls_in (\<lambda>k. \<not> is_write k) (count_members c n ks)"
  by (induction ks arbitrary: n) (auto intro!: calls_intro simp: read_defs)

lemma all_comps: "(\<forall>k \<in> set [PD, TiKV, TiDB, TiFlash, TiProxy]. P k) \<longleftrightarrow> (\<forall>k. P k)"
proof (intro iffI allI)
  show "P k" if "\<forall>k \<in> set [PD, TiKV, TiDB, TiFlash, TiProxy]. P k" for k
    using that by (cases k) simp_all
qed simp

lemma stopLogBackup_runs:
  assumes "serves (ev_br_backup E) BB"
  shows "runs E (\<lambda>k. \<forall>n. k \<noteq> Delete KCluster n) (\<lambda>r. r = (BB (logBackupName (c_name c)) = None)) (stopLogBackup c)"
  unfolding stopLogBackup_def exists_cluster_def Let_def case_prod_beta
  by (rule runs_bnd_exists_br_backup [OF assms])
    (auto intro!: runs_intro split: option.split simp: runs_fail)

lemma delete_cluster_None [simp]: "delete_cluster c None = ret ()"
  by (simp add: delete_cluster_def)

section \<open>Properties\<close>

text \<open>C11: with stable reads, Cleanup lets the Instance go exactly when its log backup, its Cluster, every
  component group and every member of the cluster are gone, and it asks for the deletion of the
  Cluster only once the log backup, which is stopped through PD, is gone.\<close>

theorem Cleanup_complete:
  assumes "serves (ev_br_backup E) BB" "serves (ev_cluster E) C" "\<And>k. serves (ev_group E k) (G k)"
    and "\<And>k h. ev_members E h k [(api_const (cx_lib c) ''LabelKeyCluster'', c_name c)] = Inr (M k)"
  shows "(fst (Cleanup c E h) = Inr () \<longleftrightarrow> BB (logBackupName (c_name c)) = None \<and> C (c_name c) = None \<and>
      (\<forall>k. G k (c_name c) = None \<and> M k = [])) \<and>
    (\<forall>n. Delete KCluster n \<in> set (snd (Cleanup c E h)) \<longrightarrow> BB (logBackupName (c_name c)) = None)"
proof (cases "BB (logBackupName (c_name c))")
  case (Some b)
  obtain r t where stop: "stopLogBackup c E h = (r, t)" by fastforce
  with stopLogBackup_runs [OF assms(1), of c] Some have "\<forall>k \<in> set t. \<forall>n. k \<noteq> Delete KCluster n" "r \<noteq> Inr True"
    unfolding runs_def by (blast, fastforce)
  then show ?thesis
    using Some stop by (cases r) (auto simp: Cleanup_def bnd_run_Inl bnd_run_Inr fail_run)
next
  case None
  have groups: "rd_exists (ev_group E k) h (c_name c) = Inr (G k (c_name c))" for k h
    using assms(3) by (simp add: servesD)
  have stop: "fst (stopLogBackup c E h) = Inr True" for h
    by (simp add: stopLogBackup_def exists_br_backup_def bnd_ask servesD [OF assms(1)] None ret_run)
  have left: "fst (bnd (count_groups c n [PD, TiKV, TiDB, TiFlash, TiProxy]) (\<lambda>left.
      bnd (count_members c left [PD, TiKV, TiDB, TiFlash, TiProxy]) (\<lambda>left.
        if left > 0 then fail (w left) else ret ())) E h) = Inr () \<longleftrightarrow> n = 0 \<and> (\<forall>k. G k (c_name c) = None \<and> M k = [])"
    if "0 \<le> n" for n h and w :: "int \<Rightarrow> err"
  proof -
    let ?ks = "[PD, TiKV, TiDB, TiFlash, TiProxy]"
    let ?g = "length (filter (\<lambda>k. G k (c_name c) \<noteq> None) ?ks)" and ?m = "length (concat (map M ?ks))"
    have "?g = 0 \<longleftrightarrow> (\<forall>k. G k (c_name c) = None)"
      unfolding length_0_conv filter_empty_conv not_not by (rule all_comps)
    moreover have "?m = 0 \<longleftrightarrow> (\<forall>k. M k = [])"
      unfolding length_0_conv concat_eq_Nil_conv set_map ball_simps(9) by (rule all_comps)
    ultimately have "n + int ?g + int ?m = 0 \<longleftrightarrow> n = 0 \<and> (\<forall>k. G k (c_name c) = None \<and> M k = [])"
      using that by (smt (verit) of_nat_0_le_iff of_nat_eq_0_iff)
    moreover have "0 \<le> n + int ?g + int ?m" using that by linarith
    ultimately show ?thesis
      unfolding fst_bnd [where m = "count_groups c n ?ks", OF count_groups_run [OF groups]]
        fst_bnd [where m = "count_members c n' ?ks" for n', OF count_members_run [OF assms(4)]]
      by (cases "n + int ?g + int ?m > 0") (simp_all only: if_True if_False ret_run fail_run fst_conv sum.inject sum.distinct, auto)
  qed
  have "fst (Cleanup c E h) = Inr () \<longleftrightarrow> C (c_name c) = None \<and> (\<forall>k. G k (c_name c) = None \<and> M k = [])"
    unfolding Cleanup_def fst_bnd [where m = "stopLogBackup c", OF stop]
    by (cases "C (c_name c)") (auto simp: exists_cluster_def bnd_ask servesD [OF assms(2)] thn_ok_iff left
        simp del: not_None_eq count_groups.simps count_members.simps)
  with None show ?thesis by simp
qed

theorem Cleanup_complete_witness:
  "fst (Cleanup sample_ctx (env_of empty_store) []) = Inr () \<and>
   fst (Cleanup sample_ctx (env_of (empty_store\<lparr>so_group := \<lambda>k n. if k = TiKV \<and> n = ''db'' then Some (sample_group TiKV ''v8'' 3) else None\<rparr>)) []) \<noteq> Inr ()"
proof
  show "fst (Cleanup sample_ctx (env_of empty_store) []) = Inr ()"
    using Cleanup_complete [where E = "env_of empty_store" and c = sample_ctx and h = "[]" and BB = Map.empty and C = Map.empty
        and G = "\<lambda>_. Map.empty" and M = "\<lambda>_. []"]
    by (simp add: serves_serve)
  let ?G = "\<lambda>k n. if k = TiKV \<and> n = ''db'' then Some (sample_group TiKV ''v8'' 3) else None"
  show "fst (Cleanup sample_ctx (env_of (empty_store\<lparr>so_group := ?G\<rparr>)) []) \<noteq> Inr ()"
    using Cleanup_complete [where E = "env_of (empty_store\<lparr>so_group := ?G\<rparr>)" and c = sample_ctx and h = "[]" and BB = Map.empty
        and C = Map.empty and G = ?G and M = "\<lambda>_. []"]
    by (auto simp: serves_serve)
qed

end
