(* ===== verification/Teardown.thy ===== *)
theory Teardown
  imports Provider
begin

text \<open>
  The teardown of a deleted Instance as a protocol: passes of Cleanup (internal/provider/provider.go) in any
  interleaving with TiDB Operator, over the objects they share. What TiDB Operator does is a parameter; the
  laws assumed of it are those the comments of Cleanup and stopLogBackup state.
\<close>

section \<open>The shared objects\<close>

record site =
  sd_cluster :: "cluster option"
  sd_group :: "comp \<Rightarrow> group option"
  sd_members :: "comp \<Rightarrow> member list"
  sd_log :: "br_backup option"

abbreviation alive :: "site \<Rightarrow> bool" where
  "alive s \<equiv> (case sd_cluster s of None \<Rightarrow> False | Some cl \<Rightarrow> not_deleting (cl_meta cl))"

text \<open>Nothing of the Instance is left.\<close>

definition released :: "site \<Rightarrow> bool" where
  "released s \<longleftrightarrow> sd_log s = None \<and> sd_cluster s = None \<and> (\<forall>k. sd_group s k = None \<and> sd_members s k = [])"

text \<open>The objects have the names the provider looks them up by. A log backup has no finalizer but BR's, and one that is
  being deleted has it, since an object without finalizers goes at once.\<close>

definition named :: "ctx \<Rightarrow> site \<Rightarrow> bool" where
  "named c s \<longleftrightarrow> (\<forall>cl. sd_cluster s = Some cl \<longrightarrow> om_name (cl_meta cl) = c_name c) \<and>
     (\<forall>b. sd_log s = Some b \<longrightarrow> om_name (bb_meta b) = logBackupName (c_name c) \<and> set (om_finalizers (bb_meta b)) \<subseteq> {brFinalizer} \<and>
        (\<not> not_deleting (bb_meta b) \<longrightarrow> om_finalizers (bb_meta b) \<noteq> []))"

text \<open>
  What the API server makes of the writes of a pass. A deletion removes an object, or marks one that has
  finalizers (\<open>delc\<close>, \<open>delb\<close>); an update that takes the last finalizer of a marked object removes it.
\<close>

record deletions =
  delc :: "cluster \<Rightarrow> cluster option"
  delb :: "br_backup \<Rightarrow> br_backup option"

fun site_after :: "deletions \<Rightarrow> ctx \<Rightarrow> call \<Rightarrow> site \<Rightarrow> site" where
  "site_after D c (Delete KCluster n) s = (if n = c_name c then s\<lparr>sd_cluster := Option.bind (sd_cluster s) (delc D)\<rparr> else s)"
| "site_after D c (Delete KBRBackup n) s = (if n = logBackupName (c_name c) then s\<lparr>sd_log := Option.bind (sd_log s) (delb D)\<rparr> else s)"
| "site_after D c (Update (OBRBackup b)) s =
     (if om_name (bb_meta b) \<noteq> logBackupName (c_name c) \<or> sd_log s = None then s
      else s\<lparr>sd_log := if \<not> not_deleting (bb_meta b) \<and> om_finalizers (bb_meta b) = [] then None else Some b\<rparr>)"
| "site_after D c _ s = s"

definition deletions_laws :: "deletions \<Rightarrow> bool" where
  "deletions_laws D \<longleftrightarrow>
     (\<forall>x y. delc D x = Some y \<longrightarrow> \<not> not_deleting (cl_meta y) \<and> om_name (cl_meta y) = om_name (cl_meta x)) \<and>
     (\<forall>x y. delb D x = Some y \<longrightarrow> \<not> not_deleting (bb_meta y) \<and> om_name (bb_meta y) = om_name (bb_meta x) \<and>
        om_finalizers (bb_meta y) = om_finalizers (bb_meta x) \<and> om_finalizers (bb_meta x) \<noteq> [])"

text \<open>The environment shows the site and accepts every request.\<close>

definition site_env :: "ctx \<Rightarrow> site \<Rightarrow> env \<Rightarrow> bool" where
  "site_env c s E \<longleftrightarrow>
     (\<forall>h. rd_exists (ev_cluster E) h (c_name c) = Inr (sd_cluster s)) \<and>
     (\<forall>h. rd_exists (ev_br_backup E) h (logBackupName (c_name c)) = Inr (sd_log s)) \<and>
     (\<forall>k h. rd_exists (ev_group E k) h (c_name c) = Inr (sd_group s k)) \<and>
     (\<forall>k h. ev_members E h k [(api_const (cx_lib c) ''LabelKeyCluster'', c_name c)] = Inr (sd_members s k)) \<and>
     (\<forall>h k. ev_write E h k = None)"

definition cleanup_pass :: "deletions \<Rightarrow> ctx \<Rightarrow> site \<Rightarrow> site \<Rightarrow> bool" where
  "cleanup_pass D c s s' \<longleftrightarrow> (\<exists>E h. site_env c s E \<and> s' = fold (site_after D c) (snd (Cleanup c E h)) s)"

section \<open>A pass\<close>

text \<open>What RemoveFinalizer of controller-runtime gives.\<close>

definition finalizer_law :: "lib \<Rightarrow> bool" where
  "finalizer_law L \<longleftrightarrow> (\<forall>fs f. remove_finalizer L fs f = (filter (\<lambda>x. x \<noteq> f) fs, f \<in> set fs))"

text \<open>The step a pass takes, without the program: stop the log backup, or release it when its cluster is gone, then
  delete the Cluster.\<close>

definition pass_result :: "deletions \<Rightarrow> site \<Rightarrow> site" where
  "pass_result D s =
     (case sd_log s of
        Some b \<Rightarrow>
          if not_deleting (bb_meta b) then s\<lparr>sd_log := delb D b\<rparr>
          else if sd_cluster s = None \<and> brFinalizer \<in> set (om_finalizers (bb_meta b)) then s\<lparr>sd_log := None\<rparr>
          else s
      | None \<Rightarrow> (case sd_cluster s of
          None \<Rightarrow> s
        | Some cl \<Rightarrow> if not_deleting (cl_meta cl) then s\<lparr>sd_cluster := delc D cl\<rparr> else s))"

lemma fold_site_reads: "(\<And>k. k \<in> set t \<Longrightarrow> \<not> is_write k) \<Longrightarrow> fold (site_after D c) t s = s"
proof (induction t arbitrary: s)
  case (Cons k t)
  have "site_after D c k s = s" using Cons.prems [of k] by (cases "(D, c, k, s)" rule: site_after.cases) simp_all
  with Cons show ?case by simp
qed simp

lemma counts_read:
  "fold (site_after D c) (snd (count_groups c n ks E h)) s = s"
  "fold (site_after D c) (snd (count_members c n ks E h)) s = s"
  using count_calls [of c n ks] by (auto intro!: fold_site_reads simp: calls_in_def)

lemma snd_bnd_ok: "fst (m E h) = Inr x \<Longrightarrow> snd (bnd m f E h) = snd (m E h) @ snd (f x E (h @ snd (m E h)))"
  by (cases "m E h") (simp add: bnd_run_Inr)

lemma counting_reads:
  assumes "site_env c s E"
  shows "fold (site_after D c) (snd (bnd (count_groups c n ks) (\<lambda>left. bnd (count_members c left ks)
     (\<lambda>left. if left > 0 then fail (w left) else ret ())) E h)) s' = s'"
proof -
  have groups: "rd_exists (ev_group E k) h (c_name c) = Inr (sd_group s k)"
    and members: "ev_members E h k [(api_const (cx_lib c) ''LabelKeyCluster'', c_name c)] = Inr (sd_members s k)" for k h
    using assms by (simp_all add: site_env_def)
  show ?thesis
    by (simp add: snd_bnd_ok [where m = "count_groups c n ks", OF count_groups_run [OF groups]] counts_read
        snd_bnd_ok [where m = "count_members c n' ks" for n', OF count_members_run [OF members]] ret_run fail_run)
qed

lemma Cleanup_result:
  assumes "site_env c s E" "named c s" "finalizer_law (cx_lib c)"
  shows "fold (site_after D c) (snd (Cleanup c E h)) s = pass_result D s"
proof -
  have reads: "rd_exists (ev_cluster E) h (c_name c) = Inr (sd_cluster s)" "ev_write E h k = None"
    "rd_exists (ev_br_backup E) h (logBackupName (c_name c)) = Inr (sd_log s)" for h k
    using assms(1) by (simp_all add: site_env_def)
  note run = exists_cluster_def exists_br_backup_def bnd_ask reads do_write_run bnd_run_Inr ret_run fail_run thn_def ok_or_wrap_def
    ignore_not_found_def or_wrap_def bnd_assoc
  show ?thesis
  proof (cases "sd_log s")
    case (Some b)
    with assms(2,3) show ?thesis
      by (auto simp: Cleanup_def stopLogBackup_def run pass_result_def named_def finalizer_law_def not_deleting_def filter_empty_conv)
  next
    case None
    have stop: "stopLogBackup c E h = (Inr True, [Exists KBRBackup (logBackupName (c_name c))])" for h
      using None by (simp add: stopLogBackup_def run)
    show ?thesis
    proof (cases "sd_cluster s")
      case c: None
      then show ?thesis
        using None by (simp add: Cleanup_def run stop pass_result_def counting_reads [OF assms(1)]
            del: count_groups.simps count_members.simps)
    next
      case c: (Some cl)
      with None assms(2) show ?thesis
        by (simp add: Cleanup_def run stop pass_result_def counting_reads [OF assms(1)] delete_cluster_def named_def
            del: count_groups.simps count_members.simps)
    qed
  qed
qed

lemma Cleanup_lets_go:
  assumes "site_env c s E" "released s"
  shows "fst (Cleanup c E h) = Inr ()"
proof -
  have reads: "rd_exists (ev_cluster E) h (c_name c) = Inr None" "rd_exists (ev_br_backup E) h (logBackupName (c_name c)) = Inr None"
    and groups: "rd_exists (ev_group E k) h (c_name c) = Inr None"
    and members: "ev_members E h k [(api_const (cx_lib c) ''LabelKeyCluster'', c_name c)] = Inr []" for h k
    using assms by (simp_all add: site_env_def released_def)
  have "stopLogBackup c E h = (Inr True, [Exists KBRBackup (logBackupName (c_name c))])"
    by (simp add: stopLogBackup_def exists_br_backup_def bnd_ask reads or_wrap_def ret_run)
  then show ?thesis
    by (simp add: Cleanup_def bnd_run_Inr exists_cluster_def bnd_ask reads or_wrap_def thn_def ret_run
        fst_bnd [where m = "count_groups c n ks" for n ks, OF count_groups_run [OF groups]]
        fst_bnd [where m = "count_members c n ks" for n ks, OF count_members_run [OF members]]
        del: count_groups.simps count_members.simps)
qed

lemma site_shown: "\<exists>E. site_env c s E"
proof
  show "site_env c s (env_of (empty_store\<lparr>so_cluster := \<lambda>n. sd_cluster s, so_group := \<lambda>k n. sd_group s k,
      so_br_backup := \<lambda>n. sd_log s, so_members := sd_members s\<rparr>))"
    by (simp add: site_env_def)
qed

section \<open>The protocol\<close>

text \<open>How far the teardown has come: the log backup runs, is being deleted or is gone, the same of the Cluster,
  and the groups and members that are left.\<close>

definition log_stage :: "site \<Rightarrow> nat" where
  "log_stage s = (case sd_log s of None \<Rightarrow> 0 | Some b \<Rightarrow> if not_deleting (bb_meta b) then 2 else 1)"

definition cluster_stage :: "site \<Rightarrow> nat" where
  "cluster_stage s = (case sd_cluster s of None \<Rightarrow> 0 | Some cl \<Rightarrow> if not_deleting (cl_meta cl) then 2 else 1)"

definition remaining :: "site \<Rightarrow> nat" where
  "remaining s = (\<Sum>k \<leftarrow> [PD, TiKV, TiDB, TiFlash, TiProxy]. (if sd_group s k = None then 0 else 1) + length (sd_members s k))"

abbreviation "closer \<equiv> measures [log_stage, cluster_stage, remaining]"

text \<open>
  The laws of TiDB Operator: it undoes no deletion and deletes no Cluster by itself (\<open>forward\<close>); it stops a log
  backup that is being deleted as long as the Cluster is up (\<open>stops\<close>); once the Cluster is being deleted, or
  gone, it takes down what is left of it (\<open>tears\<close>).
\<close>

definition operator_laws :: "ctx \<Rightarrow> (site \<Rightarrow> site \<Rightarrow> bool) \<Rightarrow> bool" where
  "operator_laws c oper \<longleftrightarrow>
     (\<forall>s s'. oper s s' \<longrightarrow> (named c s \<longrightarrow> named c s') \<and> log_stage s' \<le> log_stage s \<and> cluster_stage s' \<le> cluster_stage s \<and> (alive s \<longrightarrow> alive s')) \<and>
     (\<forall>s. log_stage s = 1 \<and> alive s \<longrightarrow> (\<exists>s'. oper s s' \<and> sd_log s' = None)) \<and>
     (\<forall>s. \<not> alive s \<and> (sd_cluster s \<noteq> None \<or> remaining s > 0) \<longrightarrow>
        (\<exists>s'. oper s s' \<and> (cluster_stage s' < cluster_stage s \<or> cluster_stage s' = cluster_stage s \<and> remaining s' < remaining s)))"

inductive tear_step :: "deletions \<Rightarrow> ctx \<Rightarrow> (site \<Rightarrow> site \<Rightarrow> bool) \<Rightarrow> site \<Rightarrow> site \<Rightarrow> bool" for D c oper where
  provider: "cleanup_pass D c s s' \<Longrightarrow> tear_step D c oper s s'"
| operator: "oper s s' \<Longrightarrow> tear_step D c oper s s'"

lemma operator_lawsD:
  assumes "operator_laws c oper"
  shows "oper s s' \<Longrightarrow> named c s \<Longrightarrow> named c s'" "oper s s' \<Longrightarrow> log_stage s' \<le> log_stage s" "oper s s' \<Longrightarrow> alive s \<Longrightarrow> alive s'"
    "log_stage s = 1 \<Longrightarrow> alive s \<Longrightarrow> \<exists>s'. oper s s' \<and> sd_log s' = None"
    "\<not> alive s \<Longrightarrow> sd_cluster s \<noteq> None \<or> remaining s > 0 \<Longrightarrow>
       \<exists>s'. oper s s' \<and> (cluster_stage s' < cluster_stage s \<or> cluster_stage s' = cluster_stage s \<and> remaining s' < remaining s)"
  using assms unfolding operator_laws_def by simp_all

lemma pass_iff:
  assumes "named c s" "finalizer_law (cx_lib c)"
  shows "cleanup_pass D c s s' \<longleftrightarrow> s' = pass_result D s"
  unfolding cleanup_pass_def using Cleanup_result [OF _ assms] site_shown [of c s] by auto

lemma remaining_0: "remaining s = 0 \<longleftrightarrow> (\<forall>k. sd_group s k = None \<and> sd_members s k = [])"
proof -
  have "remaining s = 0 \<longleftrightarrow> (\<forall>k \<in> set [PD, TiKV, TiDB, TiFlash, TiProxy]. sd_group s k = None \<and> sd_members s k = [])"
    by (auto simp: remaining_def)
  then show ?thesis unfolding all_comps .
qed

lemma pass_named: "named c s \<Longrightarrow> deletions_laws D \<Longrightarrow> named c (pass_result D s)"
  unfolding pass_result_def named_def deletions_laws_def by (auto split: option.split)

lemma step_named:
  assumes "tear_step D c oper s s'" "named c s" "finalizer_law (cx_lib c)" "deletions_laws D" "operator_laws c oper"
  shows "named c s'"
  using assms(1)
proof cases
  case provider
  with assms(2-4) show ?thesis by (simp add: pass_iff pass_named)
next
  case operator
  from operator_lawsD(1) [OF assms(5) this assms(2)] show ?thesis .
qed

text \<open>While anything is left, somebody can bring the teardown on.\<close>

lemma step_closer:
  assumes "named c s" "finalizer_law (cx_lib c)" "deletions_laws D" "operator_laws c oper" "\<not> released s"
  shows "\<exists>s'. tear_step D c oper s s' \<and> (s', s) \<in> closer"
proof -
  have pass: ?thesis if "(pass_result D s, s) \<in> closer"
    using that by (blast intro: tear_step.provider pass_iff [OF assms(1,2), THEN iffD2])
  have tears: ?thesis if down: "\<not> alive s" "sd_cluster s \<noteq> None \<or> remaining s > 0"
  proof -
    obtain s' where "oper s s'" "cluster_stage s' < cluster_stage s \<or> cluster_stage s' = cluster_stage s \<and> remaining s' < remaining s"
      using operator_lawsD(5) [OF assms(4) down] by blast
    moreover from this have "log_stage s' \<le> log_stage s" using operator_lawsD(2) [OF assms(4)] by blast
    ultimately have "tear_step D c oper s s'" "(s', s) \<in> closer" by (auto intro: tear_step.operator)
    then show ?thesis by blast
  qed
  show ?thesis
  proof (cases "sd_log s")
    case None
    show ?thesis
    proof (cases "alive s")
      case True
      with None assms(3) have "(pass_result D s, s) \<in> closer"
        by (auto simp: pass_result_def log_stage_def cluster_stage_def deletions_laws_def split: option.split option.split_asm)
      then show ?thesis by (rule pass)
    next
      case False
      with None assms(5) have "sd_cluster s \<noteq> None \<or> remaining s > 0" using remaining_0 [of s] by (auto simp: released_def)
      with False show ?thesis by (rule tears)
    qed
  next
    case (Some b)
    show ?thesis
    proof (cases "not_deleting (bb_meta b)")
      case True
      with Some assms(3) have "(pass_result D s, s) \<in> closer"
        by (auto simp: pass_result_def log_stage_def deletions_laws_def split: option.split)
      then show ?thesis by (rule pass)
    next
      case False
      with Some assms(1) have fin: "brFinalizer \<in> set (om_finalizers (bb_meta b))"
        unfolding named_def by (cases "om_finalizers (bb_meta b)") auto
      consider "alive s" | "\<not> alive s" "sd_cluster s \<noteq> None" | "sd_cluster s = None" by auto
      then show ?thesis
      proof cases
        case 1
        with Some False have "log_stage s = 1" by (simp add: log_stage_def)
        from operator_lawsD(4) [OF assms(4) this 1] obtain s' where "oper s s'" "sd_log s' = None" by blast
        with \<open>log_stage s = 1\<close> have "tear_step D c oper s s'" "(s', s) \<in> closer"
          by (auto intro: tear_step.operator simp: log_stage_def)
        then show ?thesis by blast
      next
        case 2
        then show ?thesis by (blast intro: tears)
      next
        case 3
        with Some False fin have "(pass_result D s, s) \<in> closer" by (simp add: pass_result_def log_stage_def)
        then show ?thesis by (rule pass)
      qed
    qed
  qed
qed

lemma steps_named:
  assumes "(tear_step D c oper)\<^sup>*\<^sup>* s s'" "named c s" "finalizer_law (cx_lib c)" "deletions_laws D" "operator_laws c oper"
  shows "named c s'"
  using assms(1,2) by (induction rule: rtranclp_induct) (auto intro: step_named [OF _ _ assms(3-5)])

lemma reaches_release:
  assumes "named c s" "finalizer_law (cx_lib c)" "deletions_laws D" "operator_laws c oper"
  shows "\<exists>s'. (tear_step D c oper)\<^sup>*\<^sup>* s s' \<and> released s'"
  using assms(1)
proof (induction s rule: wf_induct_rule [OF wf_measures [of "[log_stage, cluster_stage, remaining]"]])
  case (1 s)
  show ?case
  proof (cases "released s")
    case False
    with step_closer [OF 1(2) assms(2-4)] obtain s' where "tear_step D c oper s s'" "(s', s) \<in> closer" by blast
    with 1(1) step_named [OF _ 1(2) assms(2-4)] show ?thesis by (meson converse_rtranclp_into_rtranclp)
  qed blast
qed

text \<open>Until its log backup is gone, the Cluster is up, so the log backup can be stopped.\<close>

definition stream_can_stop :: "site \<Rightarrow> bool" where
  "stream_can_stop s \<longleftrightarrow> (sd_log s \<noteq> None \<longrightarrow> alive s)"

lemma pass_can_stop: "stream_can_stop s \<Longrightarrow> stream_can_stop (pass_result D s)"
  unfolding stream_can_stop_def pass_result_def by (auto split: option.split_asm option.split)

section \<open>Properties\<close>

text \<open>C8: the teardown of an Instance cannot get stuck. Whatever passes of Cleanup and steps of TiDB Operator there
  have been, in any order, and whatever was there at first (a Cluster that somebody else deleted under a running log backup
  included), some further passes and steps reach a state in which Cleanup lets the Instance go; until then, each
  state has a step that brings the teardown on.\<close>

theorem teardown_never_stuck:
  assumes "finalizer_law (cx_lib c)" "deletions_laws D" "operator_laws c oper" "named c s0" "(tear_step D c oper)\<^sup>*\<^sup>* s0 s"
  shows "\<exists>s' E. (tear_step D c oper)\<^sup>*\<^sup>* s s' \<and> site_env c s' E \<and> fst (Cleanup c E h) = Inr ()"
proof -
  have "named c s" by (rule steps_named [OF assms(5,4,1-3)])
  from reaches_release [OF this assms(1-3)] obtain s' where "(tear_step D c oper)\<^sup>*\<^sup>* s s'" "released s'" by blast
  with site_shown [of c s'] Cleanup_lets_go [of c s'] show ?thesis by blast
qed

text \<open>An operator that does in one step what there is to do, and API deletions by marking.\<close>

definition prompt_operator :: "site \<Rightarrow> site \<Rightarrow> bool" where
  "prompt_operator s s' \<longleftrightarrow>
     s' = (if alive s then s\<lparr>sd_log := if log_stage s = 1 then None else sd_log s\<rparr>
           else s\<lparr>sd_cluster := None, sd_group := \<lambda>_. None, sd_members := \<lambda>_. []\<rparr>)"

lemma prompt_operator_laws: "operator_laws c prompt_operator"
  by (auto simp: operator_laws_def prompt_operator_def log_stage_def cluster_stage_def remaining_def named_def split: option.split)

definition marking :: deletions where
  "marking = \<lparr>delc = \<lambda>x. if om_finalizers (cl_meta x) = [] then None else Some (x\<lparr>cl_meta := (cl_meta x)\<lparr>om_deletion := Some 0\<rparr>\<rparr>),
     delb = \<lambda>x. if om_finalizers (bb_meta x) = [] then None else Some (x\<lparr>bb_meta := (bb_meta x)\<lparr>om_deletion := Some 0\<rparr>\<rparr>)\<rparr>"

lemma marking_laws: "deletions_laws marking"
  by (simp add: deletions_laws_def marking_def not_deleting_def time_ptr_is_zero_def time_is_zero_def time_zero_def second_def)

text \<open>An Instance with a running log backup under which its Cluster is already being deleted.\<close>

definition orphan_site :: site where
  "orphan_site = \<lparr>sd_cluster = Some (sample_cluster\<lparr>cl_meta := (bare_meta ''ns'' ''db'')\<lparr>om_deletion := Some 0\<rparr>\<rparr>),
     sd_group = \<lambda>k. Some (sample_group k ''v8'' 3), sd_members = \<lambda>_. [],
     sd_log = Some ((zero_br_backup ''ns'' ''db-pitr'')\<lparr>bb_meta := (bare_meta ''ns'' ''db-pitr'')\<lparr>om_finalizers := [brFinalizer]\<rparr>\<rparr>)\<rparr>"

theorem teardown_never_stuck_witness:
  "\<exists>s' E. (tear_step marking sample_ctx prompt_operator)\<^sup>*\<^sup>* orphan_site s' \<and> site_env sample_ctx s' E \<and>
     fst (Cleanup sample_ctx E []) = Inr ()"
proof -
  have "named sample_ctx orphan_site"
    by (simp add: named_def orphan_site_def bare_meta_def logBackupName_def logBackupSuffix_def not_deleting_def
        time_ptr_is_zero_def)
  then show ?thesis
    using teardown_never_stuck [of sample_ctx marking prompt_operator orphan_site orphan_site "[]"]
    by (simp add: prompt_operator_laws marking_laws finalizer_law_def)
qed

text \<open>C17: the log backup never outlives its cluster by the provider's doing. While nobody else deletes the Cluster, in
  every state of the teardown the Cluster is up as long as the log backup is there, so TiDB Operator can
  stop the stream through PD, and the provider never has to give up the stream.\<close>

theorem log_backup_stopped_first:
  assumes "finalizer_law (cx_lib c)" "deletions_laws D" "operator_laws c oper" "named c s0" "(tear_step D c oper)\<^sup>*\<^sup>* s0 s"
    and "alive s0" "\<And>s s'. oper s s' \<Longrightarrow> sd_log s = None \<Longrightarrow> sd_log s' = None"
  shows "sd_log s = None \<or> alive s"
proof -
  have "stream_can_stop s \<and> named c s"
    using assms(5)
  proof (induction rule: rtranclp_induct)
    case base
    with assms(4,6) show ?case by (simp add: stream_can_stop_def)
  next
    case (step s s')
    then have n: "named c s'" by (blast intro: step_named [OF _ _ assms(1-3)])
    from step(2) show ?case
    proof cases
      case provider
      with step.IH n assms(1) show ?thesis by (auto simp: pass_iff intro: pass_can_stop)
    next
      case operator
      have "sd_log s' = None" if "sd_log s = None" using assms(7) [OF operator that] .
      moreover have "alive s'" if "alive s" using operator_lawsD(3) [OF assms(3) operator that] .
      ultimately show ?thesis using step.IH n unfolding stream_can_stop_def by (cases "sd_log s = None") simp_all
    qed
  qed
  then show ?thesis unfolding stream_can_stop_def by blast
qed

theorem log_backup_stopped_first_witness:
  "sd_log (pass_result marking (orphan_site\<lparr>sd_cluster := Some sample_cluster\<rparr>)) = None \<or>
   alive (pass_result marking (orphan_site\<lparr>sd_cluster := Some sample_cluster\<rparr>))"
proof -
  let ?s = "orphan_site\<lparr>sd_cluster := Some sample_cluster\<rparr>"
  have n: "named sample_ctx ?s"
    by (simp add: named_def orphan_site_def bare_meta_def logBackupName_def logBackupSuffix_def not_deleting_def sample_cluster_def
        time_ptr_is_zero_def)
  have f: "finalizer_law (cx_lib sample_ctx)" by (simp add: finalizer_law_def)
  have "tear_step marking sample_ctx prompt_operator ?s (pass_result marking ?s)"
    by (rule tear_step.provider) (simp add: pass_iff [OF n f])
  moreover have "alive ?s" by (simp add: sample_cluster_def not_deleting_def bare_meta_def time_ptr_is_zero_def)
  moreover have "sd_log s' = None" if "prompt_operator s s'" "sd_log s = None" for s s'
    using that by (simp add: prompt_operator_def)
  ultimately show ?thesis
    using log_backup_stopped_first [OF f marking_laws prompt_operator_laws n r_into_rtranclp] by blast
qed

end
