(* ===== verification/Permissions.thy ===== *)
theory Permissions
  imports Provider
begin

text \<open>
  The permissions of the provider: the RBAC markers of internal/provider/rbac.go, from which its
  ClusterRole is generated, against the calls the provider makes (theory Effects) and the permissions it
  passes on to the BR jobs (internal/provider/backup_rbac.go).
\<close>

section \<open>The markers: internal/provider/rbac.go\<close>

abbreviation "all_verbs \<equiv> [''get'', ''list'', ''watch'', ''create'', ''update'', ''patch'', ''delete'']"

definition rule :: "string \<Rightarrow> string list \<Rightarrow> string list \<Rightarrow> policy_rule" where
  "rule g rs vs = \<lparr>ru_groups = [g], ru_resources = rs, ru_verbs = vs\<rparr>"

definition rbac_markers :: "policy_rule list" where
  "rbac_markers =
     [rule ''core.openeverest.io'' [''instances''] [''get'', ''list'', ''watch'', ''update'', ''patch''],
      rule ''core.openeverest.io'' [''instances/status''] [''get'', ''update'', ''patch''],
      rule ''core.openeverest.io'' [''instances/finalizers''] [''update''],
      rule ''core.openeverest.io'' [''providers''] [''get'', ''list'', ''watch''],
      rule ''coordination.k8s.io'' [''leases''] all_verbs,
      rule '''' [''events''] [''create'', ''patch''],
      rule '''' [''secrets''] all_verbs,
      rule '''' [''configmaps''] all_verbs,
      rule '''' [''pods''] [''get'', ''list'', ''watch''],
      rule ''core.pingcap.com'' [''clusters''] all_verbs,
      rule ''core.pingcap.com'' [''clusters/status''] [''get''],
      rule ''core.pingcap.com'' [''pdgroups''] all_verbs,
      rule ''core.pingcap.com'' [''pdgroups/status''] [''get''],
      rule ''core.pingcap.com'' [''tikvgroups''] all_verbs,
      rule ''core.pingcap.com'' [''tikvgroups/status''] [''get''],
      rule ''core.pingcap.com'' [''tidbgroups''] all_verbs,
      rule ''core.pingcap.com'' [''tidbgroups/status''] [''get''],
      rule ''core.pingcap.com'' [''tiflashgroups''] all_verbs,
      rule ''core.pingcap.com'' [''tiflashgroups/status''] [''get''],
      rule ''core.pingcap.com'' [''tiproxygroups''] all_verbs,
      rule ''core.pingcap.com'' [''tiproxygroups/status''] [''get''],
      rule ''core.pingcap.com'' [''pds'', ''tikvs'', ''tidbs'', ''tiflashes'', ''tiproxies''] [''get'', ''list'', ''watch''],
      rule ''backup.openeverest.io'' [''backupclasses''] [''get'', ''list'', ''watch''],
      rule ''backup.openeverest.io'' [''backupstorages''] [''get'', ''list'', ''watch''],
      rule ''backup.openeverest.io'' [''backups''] all_verbs,
      rule ''backup.openeverest.io'' [''backups/status''] [''get'', ''update'', ''patch''],
      rule ''backup.openeverest.io'' [''backups/finalizers''] [''update''],
      rule ''backup.openeverest.io'' [''restores''] all_verbs,
      rule ''backup.openeverest.io'' [''restores/status''] [''get'', ''update'', ''patch''],
      rule ''backup.openeverest.io'' [''restores/finalizers''] [''update''],
      rule ''br.pingcap.com'' [''backups''] all_verbs,
      rule ''br.pingcap.com'' [''backups/status''] [''get'', ''list'', ''watch'', ''update''],
      rule ''br.pingcap.com'' [''restores''] all_verbs,
      rule ''br.pingcap.com'' [''restores/status''] [''get'', ''list'', ''watch'', ''update''],
      rule '''' [''serviceaccounts''] [''get'', ''list'', ''watch'', ''create'', ''update'', ''patch''],
      rule ''rbac.authorization.k8s.io'' [''roles'', ''rolebindings''] [''get'', ''list'', ''watch'', ''create'', ''update'', ''patch''],
      rule ''monitoring.coreos.com'' [''podmonitors''] all_verbs,
      rule ''operator.victoriametrics.com'' [''vmpodscrapes''] all_verbs,
      rule ''cert-manager.io'' [''issuers'', ''certificates''] all_verbs]"

text \<open>A permission: an API group, a resource of it and a verb.\<close>

type_synonym permission = "string \<times> string \<times> string"

definition gives :: "policy_rule \<Rightarrow> permission \<Rightarrow> bool" where
  "gives r p = (case p of (g, res, v) \<Rightarrow> g \<in> set (ru_groups r) \<and> res \<in> set (ru_resources r) \<and> v \<in> set (ru_verbs r))"

definition held :: "permission \<Rightarrow> bool" where
  "held p \<longleftrightarrow> list_ex (\<lambda>r. gives r p) rbac_markers"

section \<open>What a call needs\<close>

text \<open>The API group and the resource of a kind.\<close>

fun members_resource :: "comp \<Rightarrow> string" where
  "members_resource TiFlash = ''tiflashes''"
| "members_resource TiProxy = ''tiproxies''"
| "members_resource k = comp_name k @ ''s''"

fun resource_of :: "kind \<Rightarrow> string \<times> string" where
  "resource_of KCluster = (''core.pingcap.com'', ''clusters'')"
| "resource_of (KGroup k) = (''core.pingcap.com'', comp_name k @ ''groups'')"
| "resource_of (KMember k) = (''core.pingcap.com'', members_resource k)"
| "resource_of KSecret = ('''', ''secrets'')"
| "resource_of KConfigMap = ('''', ''configmaps'')"
| "resource_of KBackup = (''backup.openeverest.io'', ''backups'')"
| "resource_of KRestore = (''backup.openeverest.io'', ''restores'')"
| "resource_of KBRBackup = (''br.pingcap.com'', ''backups'')"
| "resource_of KBRRestore = (''br.pingcap.com'', ''restores'')"
| "resource_of KCertificate = (''cert-manager.io'', ''certificates'')"
| "resource_of KIssuer = (''cert-manager.io'', ''issuers'')"
| "resource_of KPodMonitor = (''monitoring.coreos.com'', ''podmonitors'')"
| "resource_of KVMPodScrape = (''operator.victoriametrics.com'', ''vmpodscrapes'')"
| "resource_of KServiceAccount = ('''', ''serviceaccounts'')"
| "resource_of KRole = (''rbac.authorization.k8s.io'', ''roles'')"
| "resource_of KRoleBinding = (''rbac.authorization.k8s.io'', ''rolebindings'')"
| "resource_of KInstance = (''core.openeverest.io'', ''instances'')"

definition on :: "kind \<Rightarrow> string list \<Rightarrow> permission list" where
  "on k vs = map (\<lambda>v. (fst (resource_of k), snd (resource_of k), v)) vs"

text \<open>What a rule gives, one permission each.\<close>

definition permissions :: "policy_rule \<Rightarrow> permission list" where
  "permissions r = concat (map (\<lambda>g. concat (map (\<lambda>res. map (\<lambda>v. (g, res, v)) (ru_verbs r)) (ru_resources r))) (ru_groups r))"

text \<open>
  The documented needs of the calls. The client reads through a cache, which lists and watches every kind it
  is asked for; a server-side apply patches, and creates what is not there; the runtime's Apply is taken to
  need all of get, create, update and patch, and the runtime's own calls the resources they are about. The API
  server lets nobody write a Role that gives what they do not hold themselves.
\<close>

fun needs :: "effect \<Rightarrow> permission list" where
  "needs (EGet k) = on k [''get'', ''list'', ''watch'']"
| "needs (EList k) = on k [''list'', ''watch'']"
| "needs (EApply k) = on k [''get'', ''list'', ''watch'', ''create'', ''update'', ''patch'']"
| "needs (EServerSide k) = on k [''create'', ''patch'']"
| "needs (EGrant rules) = on KRole [''create'', ''patch''] @ concat (map permissions rules)"
| "needs (ECreateOrUpdate k) = on k [''get'', ''list'', ''watch'', ''create'', ''update'']"
| "needs (ECreate k) = on k [''create'']"
| "needs (EUpdate k) = on k [''update'']"
| "needs (EDelete k) = on k [''delete'']"
| "needs EAdopt = on KSecret [''create'', ''patch'']"
| "needs EProvider = map (\<lambda>v. (''core.openeverest.io'', ''providers'', v)) [''get'', ''list'', ''watch'']"
| "needs EStorage = map (\<lambda>v. (''backup.openeverest.io'', ''backupstorages'', v)) [''get'', ''list'', ''watch'']"
| "needs ECredentials = on KSecret [''get'', ''list'', ''watch'']"
| "needs EDataSource = on KRestore [''get'', ''list'', ''watch'']"
| "needs ESetDataSource = map (\<lambda>v. (''core.openeverest.io'', ''instances/status'', v)) [''get'', ''update'', ''patch'']"
| "needs ERestore = on KRestore [''get'', ''list'', ''watch'', ''create'']"
| "needs ELocal = []"

definition permitted :: "call \<Rightarrow> bool" where
  "permitted k = list_all held (needs (effect_of k))"

section \<open>The effects of the operations\<close>

lemma calls_in_list [calls_intro]:
  "calls_in P m \<Longrightarrow> (\<And>x xs. calls_in P (f x xs)) \<Longrightarrow> calls_in P (case l of [] \<Rightarrow> m | x # xs \<Rightarrow> f x xs)"
  by (cases l) simp_all

abbreviation "sync_effects \<equiv> {EProvider, ELocal, EApply KSecret, EApply KConfigMap, EApply KCluster, EGet KCluster,
   EGet KSecret, EList (KMember TiDB)} \<union> tls_effects \<union> range (\<lambda>k. EGet (KGroup k)) \<union> range (\<lambda>k. EServerSide (KGroup k)) \<union>
   range (\<lambda>k. EDelete (KGroup k)) \<union> {EApply KPodMonitor, EDelete KPodMonitor, EApply KVMPodScrape, EDelete KVMPodScrape,
   ESetDataSource, ERestore} \<union> log_effects"


text \<open>The union of the effects of the steps of SyncTiDB.\<close>

lemma group_apply_only: "meta_laws (cx_lib c) \<Longrightarrow> only {EServerSide (KGroup (g_comp g))} (applyOwnedByCluster c owner (OGroup g))"
  using apply_owned_only [of c "OGroup g"] by simp

lemma groups_only:
  assumes "meta_laws (cx_lib c)"
  shows "only sync_effects (sync_pd c spec owner)" "only sync_effects (sync_tikv c spec owner)"
    "only sync_effects (sync_tidb c spec owner cl had)" "only sync_effects (syncTiFlash c spec owner)"
    "only sync_effects (syncTiProxy c spec owner)"
  unfolding only_def sync_pd_def sync_tikv_def sync_tidb_def syncTiFlash_def syncTiProxy_def Let_def
  by (intro calls_intro only_sub [OF group_apply_only [OF assms]] only_sub [OF addPDDNSWait_only]
      only_sub [OF addTiDBGracefulWait_only] only_sub [OF remove_group_only]; auto)+

lemma SyncTiDB_only:
  assumes "meta_laws (cx_lib c)"
  shows "only sync_effects (SyncTiDB c)"
  unfolding only_def SyncTiDB_def provider_spec_def get_cluster_def
  by (intro calls_intro only_sub [OF groups_only(1) [OF assms]] only_sub [OF groups_only(2) [OF assms]]
      only_sub [OF groups_only(3) [OF assms]] only_sub [OF groups_only(4) [OF assms]] only_sub [OF groups_only(5) [OF assms]]
      only_sub [OF ensureRootPassword_only] only_sub [OF clusterHasSessionTokenSigning_only] only_sub [OF buildCluster_only]
      only_sub [OF ensureTLSSecrets_only [OF assms]] only_sub [OF syncMonitoring_only] only_sub [OF reconcileDataSource_only]
      only_sub [OF syncLogBackup_only]) auto


text \<open>Validation and status only read.\<close>

abbreviation "status_effects \<equiv> {EDataSource, EGet KSecret} \<union> range (\<lambda>k. EGet (KGroup k)) \<union> range (\<lambda>k. EList (KMember k))"

lemma read_problems_only: "only (range (\<lambda>k. EList (KMember k))) (read_problems c ks ps)"
  unfolding only_def by (induction ks arbitrary: ps) (auto intro!: calls_intro simp: list_members_def)

lemma StatusTiDB_only: "only status_effects (StatusTiDB c)"
  unfolding only_def StatusTiDB_def status_of_groups_def instanceProblems_def connectionDetails_def readClientCA_def
    get_data_source_status_def get_group_def exists_group_def get_secret_def Let_def
  by (intro calls_intro only_sub [OF read_problems_only]) auto

abbreviation "validate_effects \<equiv> {EProvider, ELocal, EGet KCluster} \<union> range (\<lambda>k. EGet (KGroup k))"

lemma target_loop_only: "only {EProvider} (target_loop c b tgt ks)"
  unfolding only_def versionBundleComponents_def
  by (induction ks arbitrary: b tgt)
    (simp add: calls_in_ret, unfold target_loop.simps versionBundleComponents_def provider_spec_def Let_def, intro calls_intro, auto)

lemma ValidateTiDB_only: "only validate_effects (ValidateTiDB c)"
  unfolding only_def ValidateTiDB_def validateVersions_def validateTiKVScaleIn_def validateTiKVMemory_def validateMonitoring_def
    validateTLS_def validateStorage_def check_storage_of_def targetVersions_def currentVersions_def read_version_def
    validateTiProxyVersion_def versionBundleComponents_def validateScraper_def validateCertManager_def
    provider_spec_def exists_group_def exists_cluster_def get_cluster_def get_group_def rest_mapping_def Let_def
  by (intro calls_intro only_sub [OF target_loop_only]) auto

section \<open>Backups, restores and the teardown\<close>

lemma count_only:
  "only (range (\<lambda>k. EGet (KGroup k))) (count_groups c n ks)" "only (range (\<lambda>k. EList (KMember k))) (count_members c n ks)"
  unfolding only_def by (induction ks arbitrary: n) (auto intro!: calls_intro simp: read_defs)

abbreviation "cleanup_effects \<equiv> {EGet KBRBackup, EDelete KBRBackup, EUpdate KBRBackup, EGet KCluster, EDelete KCluster} \<union>
   range (\<lambda>k. EGet (KGroup k)) \<union> range (\<lambda>k. EList (KMember k))"

lemma Cleanup_only: "only cleanup_effects (Cleanup c)"
  unfolding only_def Cleanup_def stopLogBackup_def delete_cluster_def exists_br_backup_def exists_cluster_def Let_def case_prod_beta
  by (intro calls_intro only_sub [OF count_only(1)] only_sub [OF count_only(2)]) auto

abbreviation "br_effects \<equiv> account_effects \<union> {EGet KCluster, EStorage, EGet KSecret, EApply KSecret, ECreate KSecret, EGet KBackup, EList KBackup,
   EGet KBRBackup, EGet KBRRestore, ECreateOrUpdate KBRBackup, ECreateOrUpdate KBRRestore, ECreate KBRRestore,
   EDelete KBRBackup, EDelete KBRRestore, EGet (KGroup TiKV), ELocal}"

lemma SyncBackup_only: "meta_laws (cx_lib c) \<Longrightarrow> only br_effects (SyncBackup c b)"
  unfolding only_def SyncBackup_def get_cluster_def get_backup_storage_def Let_def
  by (intro calls_intro only_sub [OF ensureBRCredentials_only] only_sub [OF ensureBackupManagerRBAC_only]
      only_sub [OF recordBackupRootPassword_only]) auto

lemma cleanups_only: "only br_effects (CleanupBackup c b)" "only br_effects (CleanupRestore c rst)"
  unfolding only_def CleanupBackup_def CleanupRestore_def get_br_backup_def get_br_restore_def by (intro calls_intro; simp)+

lemma collect_bases_only: "only {EGet KBRBackup} (collect_bases c i st fl bs)"
  unfolding only_def by (induction bs) (auto intro!: calls_intro simp: get_br_backup_def)

lemma log_stream_only: "only {EGet KBRBackup} (openLogStream c i st)" "only {EList KBackup, EGet KBRBackup} (pitrBases c i st stream)"
  unfolding only_def openLogStream_def pitrBases_def exists_br_backup_def read_ts_def
  by (intro calls_intro; simp) (intro calls_intro only_sub [OF collect_bases_only]; simp)

lemma restoreBlocked_only: "only {EGet KBRBackup, EGet (KGroup TiKV)} (restoreBlockedByLogBackup c)"
  unfolding only_def restoreBlockedByLogBackup_def exists_br_backup_def get_group_def by (intro calls_intro) simp_all

lemma restoreExecutionStatus_only: "only {EGet KSecret, EApply KSecret} (restoreExecutionStatus c rst brst src)"
  unfolding only_def restoreExecutionStatus_def Let_def by (intro calls_intro only_sub [OF adoptRestoredRootPassword_only]) auto

lemma restore_from_backup_only: "only br_effects (restore_from_backup c rst n)"
  unfolding only_def restore_from_backup_def run_restore_def exists_br_restore_def get_cluster_def
    get_backup_def get_backup_storage_def Let_def
  by (intro calls_intro only_sub [OF ensureBRCredentials_only] only_sub [OF ensureBackupManagerRBAC_only]
      only_sub [OF restoreExecutionStatus_only] only_sub [OF restoreBlocked_only]) auto

lemma syncPointInTimeRestore_only: "only br_effects (syncPointInTimeRestore c rst pit)"
  unfolding only_def syncPointInTimeRestore_def startPointInTimeRestore_def start_from_stream_def
    create_pitr_restore_def exists_br_restore_def exists_cluster_def get_backup_storage_def Let_def
  by (intro calls_intro only_sub [OF ensureBRCredentials_only] only_sub [OF ensureBackupManagerRBAC_only]
      only_sub [OF restoreExecutionStatus_only] only_sub [OF restoreBlocked_only] only_sub [OF log_stream_only(1)]
      only_sub [OF log_stream_only(2)]) auto

lemma SyncRestore_only: "only br_effects (SyncRestore c rst)"
  using restore_from_backup_only [of c rst] syncPointInTimeRestore_only [of c rst] calls_in_ret
  unfolding only_def SyncRestore_def by (auto split: ds_type.split option.split)

lemma storage_statuses_only: "only br_effects (storage_statuses c ss)"
proof (induction ss)
  case (Cons s ss)
  have "only br_effects (pitrWindow c ref now)" for ref now
    unfolding only_def pitrWindow_def
    by (intro calls_intro only_sub [OF log_stream_only(1)] only_sub [OF log_stream_only(2)] calls_in_list) auto
  with Cons show ?case
    unfolding only_def storage_statuses.simps by (intro calls_intro) simp_all
qed (simp add: only_def calls_in_ret)

lemma BackupStorageStatuses_only: "only br_effects (BackupStorageStatuses c)"
  unfolding only_def BackupStorageStatuses_def
  by (intro calls_intro storage_statuses_only [unfolded only_def])

text \<open>The scheduler.\<close>

abbreviation "scheduler_effects \<equiv> {EGet KInstance, EList KBackup, ELocal, ECreate KBackup, EDelete KBackup}"

lemma run_schedule_only: "only scheduler_effects (run_schedule L i items now st sch wake)"
  unfolding only_def run_schedule_def fireDueSlot_def applyRetention_def Let_def by (intro calls_intro) simp_all

lemma run_schedules_only: "only scheduler_effects (run_schedules L i items now st schs wake)"
  unfolding only_def
  by (induction schs arbitrary: wake)
    (simp add: calls_in_ret, unfold run_schedules.simps, rule calls_in_bnd [OF run_schedule_only [unfolded only_def]])

lemma run_storages_only: "only scheduler_effects (run_storages L i items now sts wake)"
  unfolding only_def
  by (induction sts arbitrary: wake)
    (simp add: calls_in_ret, unfold run_storages.simps, rule calls_in_bnd [OF run_schedules_only [unfolded only_def]])

lemma Reconcile_only: "only scheduler_effects (Reconcile L n)"
  unfolding only_def Reconcile_def by (intro calls_intro run_storages_only [unfolded only_def]) simp_all


section \<open>Properties\<close>

text \<open>What the runtime and the manager ask of the provider, and the calls it makes for that.\<close>

datatype task = Validating | Syncing | ReadingStatus | CleaningUp | ReadingStorages
  | BackingUp backup | CleaningBackup backup | Restoring restore | CleaningRestore restore | Scheduling string

fun task_calls :: "ctx \<Rightarrow> env \<Rightarrow> hist \<Rightarrow> task \<Rightarrow> hist" where
  "task_calls c E h Validating = snd (provider_Validate c E h)"
| "task_calls c E h Syncing = snd (provider_Sync c E h)"
| "task_calls c E h ReadingStatus = snd (provider_Status c E h)"
| "task_calls c E h CleaningUp = snd (Cleanup c E h)"
| "task_calls c E h ReadingStorages = snd (BackupStorageStatuses c E h)"
| "task_calls c E h (BackingUp b) = snd (SyncBackup c b E h)"
| "task_calls c E h (CleaningBackup b) = snd (CleanupBackup c b E h)"
| "task_calls c E h (Restoring rst) = snd (SyncRestore c rst E h)"
| "task_calls c E h (CleaningRestore rst) = snd (CleanupRestore c rst E h)"
| "task_calls c E h (Scheduling n) = snd (Reconcile (cx_lib c) n E h)"

definition all_effects :: "effect set" where
  "all_effects = sync_effects \<union> status_effects \<union> validate_effects \<union> cleanup_effects \<union> br_effects \<union> scheduler_effects"

lemma only_all: "only S m \<Longrightarrow> S \<subseteq> all_effects \<Longrightarrow> k \<in> set (snd (m E h)) \<Longrightarrow> effect_of k \<in> all_effects"
  by (blast dest: onlyD)

lemma union_parts:
  "A \<subseteq> A \<union> B \<union> C \<union> D \<union> F \<union> G" "B \<subseteq> A \<union> B \<union> C \<union> D \<union> F \<union> G" "C \<subseteq> A \<union> B \<union> C \<union> D \<union> F \<union> G"
  "D \<subseteq> A \<union> B \<union> C \<union> D \<union> F \<union> G" "F \<subseteq> A \<union> B \<union> C \<union> D \<union> F \<union> G" "G \<subseteq> A \<union> B \<union> C \<union> D \<union> F \<union> G"
  by blast+

lemma effects_included:
  "sync_effects \<subseteq> all_effects" "status_effects \<subseteq> all_effects" "validate_effects \<subseteq> all_effects"
  "cleanup_effects \<subseteq> all_effects" "br_effects \<subseteq> all_effects" "scheduler_effects \<subseteq> all_effects"
  unfolding all_effects_def by (rule union_parts)+

lemma task_effects:
  assumes "meta_laws (cx_lib c)" "k \<in> set (task_calls c E h w)"
  shows "effect_of k \<in> all_effects"
  using assms(2)
  by (cases w; simp only: task_calls.simps provider_Validate_def provider_Sync_def provider_Status_def)
    ((rule only_all [OF ValidateTiDB_only effects_included(3)] only_all [OF SyncTiDB_only [OF assms(1)] effects_included(1)]
      only_all [OF StatusTiDB_only effects_included(2)] only_all [OF Cleanup_only effects_included(4)]
      only_all [OF BackupStorageStatuses_only effects_included(5)] only_all [OF SyncBackup_only [OF assms(1)] effects_included(5)]
      only_all [OF cleanups_only(1) effects_included(5)] only_all [OF SyncRestore_only effects_included(5)]
      only_all [OF cleanups_only(2) effects_included(5)] only_all [OF Reconcile_only effects_included(6)], assumption))+

definition effect_list :: "effect list" where
  "effect_list = (let comps = [PD, TiKV, TiDB, TiFlash, TiProxy] in
     map (\<lambda>k. EGet (KGroup k)) comps @ map (\<lambda>k. EServerSide (KGroup k)) comps @ map (\<lambda>k. EDelete (KGroup k)) comps @
     map (\<lambda>k. EList (KMember k)) comps @
     [EProvider, ELocal, EStorage, ECredentials, EDataSource, ESetDataSource, ERestore, EAdopt,
      EApply KSecret, EApply KConfigMap, EApply KCluster, EApply KPodMonitor, EApply KVMPodScrape, EApply KBRBackup,
      EGet KCluster, EGet KSecret, EGet KCertificate, EGet KBackup, EGet KBRBackup, EGet KBRRestore, EGet KInstance, EList KBackup,
      ECreate KSecret, ECreate KBackup, ECreate KBRRestore, ECreateOrUpdate KSecret, ECreateOrUpdate KBRBackup,
      ECreateOrUpdate KBRRestore, EUpdate KBRBackup, EDelete KSecret, EDelete KPodMonitor, EDelete KVMPodScrape, EDelete KBRBackup,
      EDelete KBRRestore, EDelete KCluster, EDelete KBackup,
      EServerSide KIssuer, EServerSide KCertificate, EServerSide KServiceAccount, EServerSide KRoleBinding, EGrant backupManagerRules])"

lemma range_comps: "range f = f ` set [PD, TiKV, TiDB, TiFlash, TiProxy]"
proof -
  have "k \<in> set [PD, TiKV, TiDB, TiFlash, TiProxy]" for k by (cases k) simp_all
  then show ?thesis by blast
qed

lemma all_effects_listed: "all_effects \<subseteq> set effect_list"
  unfolding all_effects_def effect_list_def Let_def range_comps by simp

lemma effects_held: "list_all (\<lambda>e. list_all held (needs e)) effect_list"
  by code_simp

text \<open>C2: the provider never asks the API server for what its ClusterRole does not allow. Every call of every
  operation the runtime and the manager ask of it (validation, a reconcile pass, the status, the teardown,
  backups, restores and their cleanup, a scheduler run), in every environment and on every path, has an effect
  whose permissions the markers of rbac.go hold; the Role it writes for the BR jobs gives nothing beyond
  them, so writing it is no escalation.\<close>

theorem calls_are_permitted:
  assumes "meta_laws (cx_lib c)" "k \<in> set (task_calls c E h w)"
  shows "permitted k"
  using task_effects [OF assms] all_effects_listed effects_held unfolding permitted_def by (auto simp: list_all_iff)

theorem calls_are_permitted_witness:
  "permitted (Apply (OConfigMap (buildBootstrapSQLConfigMap sample_ctx ''abc'')))"
proof -
  let ?k = "Apply (OConfigMap (buildBootstrapSQLConfigMap sample_ctx ''abc''))"
  have "?k \<in> set (snd (SyncTiDB sample_ctx running_env []))"
    unfolding SyncTiDB_def thn_def
    by (rule called_then [where m = provider_spec and x = "Inr []"], simp add: provider_spec_def ask_run, simp,
        rule called_then [where m = "ensureRootPassword sample_ctx", OF running_password], rule called_first)
      (simp add: apply_obj_def bnd_run_Inr do_write_run)
  then have "?k \<in> set (task_calls sample_ctx running_env [] Syncing)" by (simp add: provider_Sync_def)
  from calls_are_permitted [OF _ this] sample_meta_laws show ?thesis by simp
qed

end
