(* ===== verification/Watches.thy ===== *)
theory Watches
  imports Permissions
begin

text \<open>
  What the provider is told of: the types New registers and watches (internal/provider/provider.go), the
  watches of backups and restores (backup.go) and of the scheduler (backup_schedule.go), and the proof that
  nothing the provider looks at changes behind its back.
\<close>

section \<open>Registered types\<close>

datatype scheme = TidbCoreV1 | TidbBrV1 | MonitoringV1 | VMV1Beta1 | CertManagerV1 | RbacV1

definition SchemeFuncs :: "scheme list" where
  "SchemeFuncs = [TidbCoreV1, TidbBrV1, MonitoringV1, VMV1Beta1, CertManagerV1, RbacV1]"

text \<open>The module a kind comes from; \<^const>\<open>None\<close> for core/v1 and OpenEverest's own API.\<close>

fun scheme_of :: "kind \<Rightarrow> scheme option" where
  "scheme_of KCluster = Some TidbCoreV1"
| "scheme_of (KGroup k) = Some TidbCoreV1"
| "scheme_of (KMember k) = Some TidbCoreV1"
| "scheme_of KBRBackup = Some TidbBrV1"
| "scheme_of KBRRestore = Some TidbBrV1"
| "scheme_of KPodMonitor = Some MonitoringV1"
| "scheme_of KVMPodScrape = Some VMV1Beta1"
| "scheme_of KCertificate = Some CertManagerV1"
| "scheme_of KIssuer = Some CertManagerV1"
| "scheme_of KRole = Some RbacV1"
| "scheme_of KRoleBinding = Some RbacV1"
| "scheme_of KSecret = None"
| "scheme_of KConfigMap = None"
| "scheme_of KServiceAccount = None"
| "scheme_of KBackup = None"
| "scheme_of KRestore = None"
| "scheme_of KInstance = None"

definition registered :: "kind \<Rightarrow> bool" where
  "registered k \<longleftrightarrow> (case scheme_of k of None \<Rightarrow> True | Some s \<Rightarrow> s \<in> set SchemeFuncs)"

text \<open>The kinds of object a call is about.\<close>

fun kinds_of :: "effect \<Rightarrow> kind list" where
  "kinds_of (EGet k) = [k]" | "kinds_of (EList k) = [k]" | "kinds_of (EApply k) = [k]" | "kinds_of (EServerSide k) = [k]"
| "kinds_of (EGrant rules) = [KRole]" | "kinds_of (ECreateOrUpdate k) = [k]" | "kinds_of (ECreate k) = [k]"
| "kinds_of (EUpdate k) = [k]" | "kinds_of (EDelete k) = [k]" | "kinds_of _ = []"

section \<open>Watches\<close>

text \<open>controller.WatchOwned and controller.WatchExternal.\<close>

datatype watch_config = WatchOwned kind | WatchExternal kind "obj \<Rightarrow> request list"

definition WatchConfigs :: "lib \<Rightarrow> watch_config list" where
  "WatchConfigs L =
     [WatchOwned KCluster,
      WatchExternal (KGroup PD) instanceForGroup,
      WatchExternal (KGroup TiKV) instanceForGroup,
      WatchExternal (KGroup TiDB) instanceForGroup,
      WatchExternal (KGroup TiFlash) instanceForGroup,
      WatchExternal (KGroup TiProxy) instanceForGroup,
      WatchExternal (KMember PD) (instanceForCluster L),
      WatchExternal (KMember TiKV) (instanceForCluster L),
      WatchExternal (KMember TiDB) (instanceForCluster L),
      WatchExternal (KMember TiFlash) (instanceForCluster L),
      WatchExternal (KMember TiProxy) (instanceForCluster L),
      WatchExternal KRestore instanceForRestore,
      WatchExternal KBRBackup instanceForBRBackup]"

definition BackupWatches :: "watch_config list" where "BackupWatches = [WatchOwned KBRBackup]"
definition RestoreWatches :: "watch_config list" where "RestoreWatches = [WatchOwned KBRRestore]"

text \<open>
  The requests an event on an object gives. Whom WatchOwned tells is the runtime's part: \<open>owned\<close> gives
  the request for the controlling owner of an object.
\<close>

fun enqueues :: "(obj \<Rightarrow> request list) \<Rightarrow> obj \<Rightarrow> watch_config \<Rightarrow> request list" where
  "enqueues owned x (WatchOwned k) = (if obj_kind x = k then owned x else [])"
| "enqueues owned x (WatchExternal k f) = (if obj_kind x = k then f x else [])"

definition requests :: "(obj \<Rightarrow> request list) \<Rightarrow> watch_config list \<Rightarrow> obj \<Rightarrow> request list" where
  "requests owned ws x = concat (map (enqueues owned x) ws)"

text \<open>The scheduler: the Instances of this provider and the Backups of schedules.\<close>

definition schedulerName :: string where
  "schedulerName = ProviderName @ ''-backup-scheduler''"

fun SetupBackupScheduler :: "obj \<Rightarrow> request list" where
  "SetupBackupScheduler (OInstance i) =
     (if isProviderInstance i then [(om_namespace (in_meta i), om_name (in_meta i))] else [])"
| "SetupBackupScheduler (OBackup b) = instanceForScheduledBackup b"
| "SetupBackupScheduler _ = []"

section \<open>The cluster as a world of objects\<close>











section \<open>Reading what is watched\<close>











section \<open>Operations that answer alike\<close>

text \<open>The value or error of an operation is the same in two environments, whatever happened before.\<close>

definition alike :: "env \<Rightarrow> env \<Rightarrow> 'a io \<Rightarrow> bool" where
  "alike E E' m \<longleftrightarrow> (\<forall>h h'. fst (m E h) = fst (m E' h'))"

named_theorems alike_intro

lemma alike_fail [alike_intro]: "alike E E' (fail e)" by (simp add: alike_def fail_run)

lemma fst_bnd_cases: "fst (bnd m f E h) = (case fst (m E h) of Inl e \<Rightarrow> Inl e | Inr x \<Rightarrow> fst (f x E (h @ snd (m E h))))"
  by (cases "m E h") (auto simp: bnd_def case_prod_unfold split: sum.splits)

lemma alike_bnd [alike_intro]:
  assumes "alike E E' m" "\<And>x. alike E E' (f x)"
  shows "alike E E' (bnd m f)"
  unfolding alike_def fst_bnd_cases
proof (intro allI)
  fix h h'
  have "fst (m E h) = fst (m E' h')" "fst (f x E t) = fst (f x E' t')" for x t t'
    using assms unfolding alike_def by blast+
  then show "(case fst (m E h) of Inl e \<Rightarrow> Inl e | Inr x \<Rightarrow> fst (f x E (h @ snd (m E h)))) =
      (case fst (m E' h') of Inl e \<Rightarrow> Inl e | Inr x \<Rightarrow> fst (f x E' (h' @ snd (m E' h'))))"
    by (simp split: sum.split)
qed

lemma alike_thn [alike_intro]: "alike E E' m \<Longrightarrow> alike E E' m' \<Longrightarrow> alike E E' (thn m m')"
  unfolding thn_def by (rule alike_bnd)

lemma alike_ask: "(\<And>h h'. f E h = f E' h') \<Longrightarrow> alike E E' (ask k f)" by (simp add: alike_def ask_run)

lemma alike_attempt [alike_intro]: "alike E E' m \<Longrightarrow> alike E E' (attempt m)" by (simp add: alike_def attempt_run)


lemma alike_cases [alike_intro]:
  "alike E E' m \<Longrightarrow> alike E E' m' \<Longrightarrow> alike E E' (if b then m else m')"
  "alike E E' m \<Longrightarrow> (\<And>x. alike E E' (f x)) \<Longrightarrow> alike E E' (case q of None \<Rightarrow> m | Some x \<Rightarrow> f x)"
  "(\<And>x. alike E E' (g x)) \<Longrightarrow> (\<And>x. alike E E' (f x)) \<Longrightarrow> alike E E' (case r of Inl e \<Rightarrow> g e | Inr x \<Rightarrow> f x)"
  by (auto split: option.split sum.split)

section \<open>The status and the teardown\<close>







lemma secrets_not_watched: "requests owned (WatchConfigs L) (OSecret sec) = []"
  by (simp add: requests_def WatchConfigs_def)

















section \<open>The scheduler\<close>

lemma backups_watched:
  assumes "s \<noteq> ''''" "\<And>b. b \<in> set items \<Longrightarrow> bk_instance b = Some n \<and> om_namespace (bk_meta b) = ns"
  shows "backupsOfSchedule (filter (\<lambda>b. (ns, n) \<in> set (SetupBackupScheduler (OBackup b))) items) s = backupsOfSchedule items s"
  unfolding backupsOfSchedule_def filter_filter using assms
  by (intro filter_cong) (auto simp: instanceForScheduledBackup_def)

lemma run_schedule_watched:
  assumes "sch_name sch \<noteq> ''''" "\<And>b. b \<in> set items \<Longrightarrow> bk_instance b = Some n \<and> om_namespace (bk_meta b) = ns"
  shows "run_schedule L i (filter (\<lambda>b. (ns, n) \<in> set (SetupBackupScheduler (OBackup b))) items) now st sch =
    run_schedule L i items now st sch"
  by (rule ext) (simp only: run_schedule_def backups_watched [OF assms])

lemma run_schedules_watched:
  assumes "\<And>sch. sch \<in> set schs \<Longrightarrow> sch_name sch \<noteq> ''''"
    "\<And>b. b \<in> set items \<Longrightarrow> bk_instance b = Some n \<and> om_namespace (bk_meta b) = ns"
  shows "run_schedules L i (filter (\<lambda>b. (ns, n) \<in> set (SetupBackupScheduler (OBackup b))) items) now st schs =
    run_schedules L i items now st schs"
  using assms(1)
proof (induction schs)
  case (Cons sch schs)
  have "run_schedules L i (filter (\<lambda>b. (ns, n) \<in> set (SetupBackupScheduler (OBackup b))) items) now st schs =
    run_schedules L i items now st schs"
    by (rule Cons.IH) (simp add: Cons.prems)
  moreover have "run_schedule L i (filter (\<lambda>b. (ns, n) \<in> set (SetupBackupScheduler (OBackup b))) items) now st sch =
    run_schedule L i items now st sch"
    by (rule run_schedule_watched, rule Cons.prems, simp, rule assms(2))
  ultimately show ?case
    by (intro ext) (simp only: run_schedules.simps)
qed (rule ext, simp)

lemma run_storages_watched:
  assumes "\<And>st sch. st \<in> set sts \<Longrightarrow> sch \<in> set (bs_schedules st) \<Longrightarrow> sch_name sch \<noteq> ''''"
    "\<And>b. b \<in> set items \<Longrightarrow> bk_instance b = Some n \<and> om_namespace (bk_meta b) = ns"
  shows "run_storages L i (filter (\<lambda>b. (ns, n) \<in> set (SetupBackupScheduler (OBackup b))) items) now sts =
    run_storages L i items now sts"
  using assms(1)
proof (induction sts)
  case (Cons st sts)
  have rest: "run_storages L i (filter (\<lambda>b. (ns, n) \<in> set (SetupBackupScheduler (OBackup b))) items) now sts =
    run_storages L i items now sts"
    by (rule Cons.IH) (rule Cons.prems [OF list.set_intros(2)])
  have one: "run_schedules L i (filter (\<lambda>b. (ns, n) \<in> set (SetupBackupScheduler (OBackup b))) items) now (bs_ref st) (bs_schedules st) =
    run_schedules L i items now (bs_ref st) (bs_schedules st)"
    by (rule run_schedules_watched, rule Cons.prems [OF list.set_intros(1)], assumption, rule assms(2))
  show ?case by (rule ext) (simp only: run_storages.simps rest one)
qed (rule ext, simp)

section \<open>Properties\<close>








text \<open>C40: the scheduler decides on nothing it is not woken up for. A run over all Backups of an Instance does exactly what a
  run over those that wake it up does: the Backups of no schedule change neither what it creates and deletes nor
  when it wants to run again. The run is over the Backups of the Instance, and every schedule has a name: a Backup whose
  schedule is empty is a manual one.\<close>

theorem scheduler_follows_watches:
  assumes "\<And>st sch. st \<in> set sts \<Longrightarrow> sch \<in> set (bs_schedules st) \<Longrightarrow> sch_name sch \<noteq> ''''"
    and "\<And>b. b \<in> set items \<Longrightarrow> bk_instance b = Some n \<and> om_namespace (bk_meta b) = ns"
  shows "run_storages L i (filter (\<lambda>b. (ns, n) \<in> set (SetupBackupScheduler (OBackup b))) items) now sts =
    run_storages L i items now sts"
  by (rule run_storages_watched, rule assms(1), assumption, assumption, rule assms(2))

definition manual_backup :: backup where
  "manual_backup = (BackupSchedule.sample_backup ''m'' 2 BkRunning)\<lparr>bk_schedule := ''''\<rparr>"

definition hourly_backup :: backup where
  "hourly_backup = (BackupSchedule.sample_backup ''n'' 1 BkRunning)\<lparr>bk_schedule := ''hourly''\<rparr>"

definition hourly_storage :: backup_storage_ref where
  "hourly_storage = \<lparr>bs_ref = ''s3'', bs_schedules = [sample_schedule], bs_pitr = None\<rparr>"

theorem scheduler_follows_watches_witness:
  "run_storages sample_lib sample_instance [hourly_backup] 5 [hourly_storage] =
   run_storages sample_lib sample_instance [manual_backup, hourly_backup] 5 [hourly_storage]"
proof -
  have known: "bk_instance b = Some ''db'' \<and> om_namespace (bk_meta b) = ''ns''" if "b \<in> set [manual_backup, hourly_backup]" for b
    using that by (auto simp: manual_backup_def hourly_backup_def BackupSchedule.sample_backup_def scheduled_backup_def
        sample_instance_def bare_meta_def)
  have "filter (\<lambda>b. (''ns'', ''db'') \<in> set (SetupBackupScheduler (OBackup b))) [manual_backup, hourly_backup] = [hourly_backup]"
    using known [of hourly_backup] known [of manual_backup]
    by (simp add: instanceForScheduledBackup_def, simp add: manual_backup_def hourly_backup_def)
  then show ?thesis
    using scheduler_follows_watches [where items = "[manual_backup, hourly_backup]" and sts = "[hourly_storage]" and n = "''db''" and ns = "''ns''"
        and L = sample_lib and i = sample_instance and now = 5, OF _ known]
    by (simp add: hourly_storage_def)
qed

text \<open>Every kind of object that occurs in a call of the provider is registered with its client: its API
  module is one of SchemeFuncs, or one the runtime registers itself.\<close>

lemma kinds_are_registered:
  assumes "meta_laws (cx_lib c)" "k \<in> set (task_calls c E h w)" "kd \<in> set (kinds_of (effect_of k))"
  shows "registered kd"
proof -
  have "list_all (\<lambda>e. list_all registered (kinds_of e)) effect_list" by code_simp
  with task_effects [OF assms(1,2)] all_effects_listed assms(3) show ?thesis by (auto simp: list_all_iff)
qed

end
