(* ===== verification/EntryPoint.thy ===== *)
theory EntryPoint
  imports Watches
begin

text \<open>
  cmd/provider/main.go: the flags, the options of the reconciler, and the three steps that start the provider,
  each of which may fail. The runtime's reconciler and the flag package are outside the repository: the
  result of a step is a parameter, and a flag is its value after parsing.
\<close>

record flags =
  fl_server_port :: int
  fl_metrics_address :: string

definition default_flags :: flags where
  "default_flags = \<lparr>fl_server_port = 8082, fl_metrics_address = '':8081''\<rparr>"

text \<open>reconciler.WithServer with the port and the path of the validation endpoint, and reconciler.WithMetrics.\<close>

datatype reconciler_option = WithServer int string | WithMetrics string

datatype start_step = NewReconciler "reconciler_option list" | SetupScheduler string "obj \<Rightarrow> request list" | StartReconciler

definition reconciler_options :: "flags \<Rightarrow> reconciler_option list" where
  "reconciler_options f =
     WithServer (fl_server_port f) ''/validate'' #
     (if fl_metrics_address f \<noteq> ''0'' then [WithMetrics (fl_metrics_address f)] else [])"

text \<open>Run the steps until one fails; the exit code and the steps taken. main returns when Start does.\<close>

fun run_steps :: "(start_step \<Rightarrow> bool) \<Rightarrow> start_step list \<Rightarrow> nat \<times> start_step list" where
  "run_steps works [] = (0, [])"
| "run_steps works (s # ss) =
     (if \<not> works s then (1, [s]) else (case run_steps works ss of (code, done) \<Rightarrow> (code, s # done)))"

definition main_steps :: "flags \<Rightarrow> start_step list" where
  "main_steps f = [NewReconciler (reconciler_options f), SetupScheduler schedulerName SetupBackupScheduler, StartReconciler]"

definition main :: "(start_step \<Rightarrow> bool) \<Rightarrow> flags \<Rightarrow> nat \<times> start_step list" where
  "main works f = run_steps works (main_steps f)"

text \<open>The provider serves validation on the port it is given, and no reconciler starts before the scheduler is set
  up.\<close>

lemma main_starts_scheduler_first:
  "StartReconciler \<in> set (snd (main works f)) \<Longrightarrow>
     (\<exists>opts. snd (main works f) = [NewReconciler opts, SetupScheduler schedulerName SetupBackupScheduler, StartReconciler] \<and>
        WithServer (fl_server_port f) ''/validate'' \<in> set opts \<and> (\<forall>a. WithMetrics a \<in> set opts \<longrightarrow> a = fl_metrics_address f \<and> a \<noteq> ''0''))"
  by (auto simp: main_def main_steps_def reconciler_options_def split: if_splits prod.splits)

lemma main_code: "fst (main works f) = (if \<forall>s \<in> set (main_steps f). works s then 0 else 1)"
  by (simp add: main_def main_steps_def)

end
