(* ===== verification/Isolation.thy ===== *)
theory Isolation
  imports TrustChain Desired Permissions
begin

text \<open>
  Instances side by side: the names of the objects that a reconcile pass and a teardown write, and the proof
  that two Instances of one namespace never write the same object, the account of the BR jobs apart.
\<close>

section \<open>Names\<close>

text \<open>The kind and the name of the object a call writes.\<close>

fun target_of :: "call \<Rightarrow> (kind \<times> string) option" where
  "target_of (Apply x) = Some (obj_kind x, om_name (obj_meta_of x))"
| "target_of (ServerSideApply x j) = Some (obj_kind x, om_name (obj_meta_of x))"
| "target_of (CreateOrUpdate x) = Some (obj_kind x, om_name (obj_meta_of x))"
| "target_of (Create x) = Some (obj_kind x, om_name (obj_meta_of x))"
| "target_of (Update x) = Some (obj_kind x, om_name (obj_meta_of x))"
| "target_of (Delete k n) = Some (k, n)"
| "target_of (AdoptSecret n ref) = Some (KSecret, n)"
| "target_of _ = None"

text \<open>What an Instance appends to its name, per kind; the last suffix of a Secret is that of the log backup's
  credentials.\<close>

abbreviation "tls_suffixes \<equiv> [''-pd-cluster-secret'', ''-tikv-cluster-secret'', ''-tidb-cluster-secret'', ''-tiflash-cluster-secret'',
   ''-tiproxy-cluster-secret'', ''-cluster-client-secret'', ''-tidb-server-secret'', ''-tiproxy-server-secret'',
   ''-tiproxy-tidb-secret'', ''-session-token-signing-secret'', ''-tls-ca'']"

fun own_suffixes :: "kind \<Rightarrow> string list" where
  "own_suffixes KCluster = ['''']"
| "own_suffixes (KGroup k) = ['''']"
| "own_suffixes KSecret = tls_suffixes @ [''-tidb-root'', ''-pitr-br-s3'']"
| "own_suffixes KConfigMap = [''-tidb-bootstrap-sql'']"
| "own_suffixes KBRBackup = [''-pitr'']"
| "own_suffixes KPodMonitor = [''-metrics'']"
| "own_suffixes KVMPodScrape = [''-vm-metrics'']"
| "own_suffixes KCertificate = tls_suffixes"
| "own_suffixes KIssuer = [''-tls-selfsigned'', ''-tls-ca'']"
| "own_suffixes _ = []"

text \<open>No suffix ends in another one.\<close>

definition ends_with :: "string \<Rightarrow> string \<Rightarrow> bool" where
  "ends_with t s \<longleftrightarrow> length s \<le> length t \<and> drop (length t - length s) t = s"

definition independent :: "string list \<Rightarrow> bool" where
  "independent ss \<longleftrightarrow> list_all (\<lambda>s. list_all (\<lambda>t. t = s \<or> \<not> ends_with t s) ss) ss"

lemma independent_short: "independent []" "independent [s]" by (simp_all add: independent_def)

lemma independent_long:
  "independent tls_suffixes" "independent (tls_suffixes @ [''-tidb-root'', ''-pitr-br-s3''])"
  "independent [''-tls-selfsigned'', ''-tls-ca'']"
  by code_simp+

lemma own_suffixes_independent: "independent (own_suffixes k)"
  by (cases k) (simp_all only: own_suffixes.simps independent_short independent_long)

lemma ends_with_append:
  assumes "a @ s = b @ t" "length s \<le> length t"
  shows "ends_with t s"
proof -
  from assms have "a = b @ take (length t - length s) t" "s = drop (length t - length s) t"
    by (auto simp: append_eq_append_conv2)
  with assms(2) show ?thesis by (simp add: ends_with_def)
qed

lemma same_name:
  assumes "a @ s = b @ t" "s \<in> set ss" "t \<in> set ss" "independent ss"
  shows "a = b"
proof -
  from assms(2-4) have "t = s \<or> \<not> ends_with t s" "s = t \<or> \<not> ends_with s t" by (simp_all add: independent_def list_all_iff)
  with ends_with_append [OF assms(1)] ends_with_append [OF assms(1) [symmetric]] have "s = t" by (metis nat_le_linear)
  with assms(1) show ?thesis by simp
qed

text \<open>What all Instances of a namespace share: the account of the BR jobs.\<close>

abbreviation account :: "kind \<times> string \<Rightarrow> bool" where
  "account t \<equiv> fst t \<in> {KServiceAccount, KRole, KRoleBinding} \<and> snd t = backupManagerName"

definition within :: "string \<Rightarrow> call \<Rightarrow> bool" where
  "within i k \<longleftrightarrow> (case target_of k of
     None \<Rightarrow> True
   | Some (kd, n) \<Rightarrow> account (kd, n) \<or> (\<exists>s \<in> set (own_suffixes kd). n = i @ s))"

lemma within_read: "\<not> is_write k \<Longrightarrow> within i k"
  by (cases k) (simp_all add: within_def)

lemma within_local: "effect_of k = ELocal \<Longrightarrow> within i k" "effect_of k = EGet kd \<Longrightarrow> within i k" "effect_of k = EList kd \<Longrightarrow> within i k"
    "effect_of k = ESetDataSource \<Longrightarrow> within i k" "effect_of k = ERestore \<Longrightarrow> within i k"
  by (cases k; auto simp: within_def split: obj.splits)+

lemma within_simps [simp]:
  "within i (Apply x) \<longleftrightarrow> account (obj_kind x, om_name (obj_meta_of x)) \<or> (\<exists>s \<in> set (own_suffixes (obj_kind x)). om_name (obj_meta_of x) = i @ s)"
  "within i (ServerSideApply x j) \<longleftrightarrow> account (obj_kind x, om_name (obj_meta_of x)) \<or> (\<exists>s \<in> set (own_suffixes (obj_kind x)). om_name (obj_meta_of x) = i @ s)"
  "within i (CreateOrUpdate x) \<longleftrightarrow> account (obj_kind x, om_name (obj_meta_of x)) \<or> (\<exists>s \<in> set (own_suffixes (obj_kind x)). om_name (obj_meta_of x) = i @ s)"
  "within i (Create x) \<longleftrightarrow> account (obj_kind x, om_name (obj_meta_of x)) \<or> (\<exists>s \<in> set (own_suffixes (obj_kind x)). om_name (obj_meta_of x) = i @ s)"
  "within i (Update x) \<longleftrightarrow> account (obj_kind x, om_name (obj_meta_of x)) \<or> (\<exists>s \<in> set (own_suffixes (obj_kind x)). om_name (obj_meta_of x) = i @ s)"
  "within i (Delete kd n) \<longleftrightarrow> account (kd, n) \<or> (\<exists>s \<in> set (own_suffixes kd). n = i @ s)"
  "within i (AdoptSecret n ref) \<longleftrightarrow> (\<exists>s \<in> set (own_suffixes KSecret). n = i @ s)"
  "within i (Get kd n)" "within i (Exists kd n)" "within i (ListMembers k sel)" "within i ListBackups" "within i (ListBackupsOf ns n)"
  "within i GetProviderSpec" "within i (GetBackupStorage n)" "within i (GetCredentials n)" "within i GetDataSourceStatus"
  "within i (RESTMapping kd)" "within i (ReadEnv n)" "within i Now" "within i (RandomInt b)" "within i (GenerateKey b)"
  "within i (SignCert tmpl)" "within i (SetDataSourceStatus d m)" "within i ReconcileDataSource"
  by (simp_all add: within_def)

lemma own_names:
  "\<exists>s \<in> set (own_suffixes KSecret). rootSecretName i = i @ s" "\<exists>s \<in> set (own_suffixes KSecret). tlsCASecretName i = i @ s"
  "\<exists>s \<in> set (own_suffixes KCertificate). tlsCASecretName i = i @ s"
  "\<exists>s \<in> set (own_suffixes KSecret). brSecretName (logBackupName i) = i @ s"
  "\<exists>s \<in> set (own_suffixes KConfigMap). bootstrapConfigMapName i = i @ s"
  "\<exists>s \<in> set (own_suffixes KBRBackup). logBackupName i = i @ s"
  "\<exists>s \<in> set (own_suffixes KIssuer). selfSignedIssuerName i = i @ s" "\<exists>s \<in> set (own_suffixes KIssuer). caIssuerName i = i @ s"
  by (simp_all add: rootSecretName_def tlsCASecretName_def tlsCASecretSuffix_def brSecretName_def logBackupName_def
      logBackupSuffix_def bootstrapConfigMapName_def selfSignedIssuerName_def caIssuerName_def)

lemma tls_name_own:
  assumes "n \<in> tls_names i"
  shows "\<exists>s \<in> set (own_suffixes KSecret). n = i @ s" "\<exists>s \<in> set (own_suffixes KCertificate). n = i @ s"
proof -
  have "clusterTLSSecretName i (comp_name k) \<in> (@) i ` set tls_suffixes" for k
    by (cases k) (simp_all add: clusterTLSSecretName_def)
  then have "n \<in> (@) i ` set tls_suffixes"
    using assms unfolding tls_names_def
    by (auto simp: clusterClientTLSSecretName_def mysqlServerTLSSecretName_def tiproxyServerTLSSecretName_def
        tiproxyBackendTLSSecretName_def sessionTokenSigningSecretName_def sessionTokenSigningSecretSuffix_def)
  then show "\<exists>s \<in> set (own_suffixes KSecret). n = i @ s" "\<exists>s \<in> set (own_suffixes KCertificate). n = i @ s"
    by auto
qed

section \<open>Reads give objects under their names\<close>

definition truthful :: "'a reader \<Rightarrow> ('a \<Rightarrow> obj_meta) \<Rightarrow> bool" where
  "truthful R meta \<longleftrightarrow> (\<forall>h n x. (rd_get R h n = Inr x \<longrightarrow> om_name (meta x) = n) \<and>
     (rd_exists R h n = Inr (Some x) \<longrightarrow> om_name (meta x) = n))"

definition truthful_env :: "env \<Rightarrow> bool" where
  "truthful_env E \<longleftrightarrow> truthful (ev_cluster E) cl_meta \<and> (\<forall>k. truthful (ev_group E k) g_meta) \<and> truthful (ev_secret E) sec_meta \<and>
     truthful (ev_br_backup E) bb_meta"

lemma runs_truthful:
  assumes "truthful_env E"
  shows "P (Get KSecret n) \<Longrightarrow> (\<And>e. runs E P R (g (Inl e))) \<Longrightarrow> (\<And>x. om_name (sec_meta x) = n \<Longrightarrow> runs E P R (g (Inr x))) \<Longrightarrow>
      runs E P R (bnd (get_secret n) g)"
    "P (Exists KSecret n) \<Longrightarrow> (\<And>x. (\<And>y. x = Inr (Some y) \<Longrightarrow> om_name (sec_meta y) = n) \<Longrightarrow> runs E P R (g1 x)) \<Longrightarrow>
      runs E P R (bnd (exists_secret n) g1)"
    "P (Exists (KGroup k) n) \<Longrightarrow> (\<And>x. (\<And>y. x = Inr (Some y) \<Longrightarrow> om_name (g_meta y) = n) \<Longrightarrow> runs E P R (g' x)) \<Longrightarrow>
      runs E P R (bnd (exists_group k n) g')"
    "P (Exists KBRBackup n) \<Longrightarrow> (\<And>x. (\<And>y. x = Inr (Some y) \<Longrightarrow> om_name (bb_meta y) = n) \<Longrightarrow> runs E P R (g'' x)) \<Longrightarrow>
      runs E P R (bnd (exists_br_backup n) g'')"
    "P (Exists KCluster n) \<Longrightarrow> (\<And>x. (\<And>y. x = Inr (Some y) \<Longrightarrow> om_name (cl_meta y) = n) \<Longrightarrow> runs E P R (f x)) \<Longrightarrow>
      runs E P R (bnd (exists_cluster n) f)"
  using assms unfolding get_secret_def exists_secret_def exists_group_def exists_br_backup_def exists_cluster_def truthful_env_def truthful_def
  by (auto intro!: runs_bnd_ask) (metis (no_types, lifting) obj_sumE)

lemma currentSecret_within:
  assumes "truthful_env E" "\<exists>s \<in> set (own_suffixes KSecret). n = i @ s"
  shows "runs E (within i) (\<lambda>_. True) (currentSecret c u n)"
  unfolding currentSecret_def using assms(2)
  by (intro runs_truthful(1) [OF assms(1)]) (auto intro!: runs_intro simp del: own_suffixes.simps)

section \<open>The steps of a pass\<close>

lemma within_calls: "only S m \<Longrightarrow> (\<And>k. effect_of k \<in> S \<Longrightarrow> within i k) \<Longrightarrow> runs E (within i) (\<lambda>_. True) m"
  by (rule runs_calls) (erule only_calls)

lemma ensureRootPassword_within:
  assumes "truthful_env E" "meta_laws (cx_lib c)"
  shows "runs E (within (c_name c)) (\<lambda>_. True) (ensureRootPassword c)"
proof -
  have gen: "runs E (within (c_name c)) (\<lambda>_. True) newRootPassword"
    unfolding newRootPassword_def
    by (intro runs_intro within_calls [OF generatePassword_only]) (auto intro: within_local)
  show ?thesis
    unfolding ensureRootPassword_def using own_names(1) [of "c_name c"] assms(2)
    by (intro runs_intro runs_bnd [OF currentSecret_within [OF assms(1)]] runs_bnd [OF gen])
      (auto simp: root_secret_def c_object_meta_def meta_laws_def simp del: own_suffixes.simps intro!: runs_intro)
qed

lemma apply_owned_within:
  assumes "meta_laws (cx_lib c)" "\<exists>s \<in> set (own_suffixes (obj_kind x)). om_name (obj_meta_of x) = i @ s"
  shows "runs E (within i) (\<lambda>_. True) (applyOwnedByCluster c owner x)"
proof (cases "controller_reference (cx_lib c) (OCluster owner) x")
  case (Inr y)
  with assms(1) have "obj_kind y = obj_kind x" "om_name (obj_meta_of y) = om_name (obj_meta_of x)" unfolding meta_laws_def by metis+
  with Inr assms(2) show ?thesis
    unfolding applyOwnedByCluster_def
    by (auto intro!: runs_intro runs_calls calls_intro simp del: own_suffixes.simps)
qed (simp add: applyOwnedByCluster_def runs_fail)

lemma createOwned_within:
  assumes "meta_laws (cx_lib c)" "\<exists>s \<in> set (own_suffixes KSecret). om_name (sec_meta sec) = i @ s"
  shows "runs E (within i) (\<lambda>_. True) (createOwnedByCluster c owner sec)"
proof (cases "controller_reference (cx_lib c) (OCluster owner) (OSecret sec)")
  case (Inr y)
  with assms(1) have "obj_kind y = KSecret" "om_name (obj_meta_of y) = om_name (sec_meta sec)" unfolding meta_laws_def by fastforce+
  with Inr assms(2) show ?thesis
    unfolding createOwnedByCluster_def
    by (auto intro!: runs_intro simp del: own_suffixes.simps)
qed (simp add: createOwnedByCluster_def runs_fail)

lemma check_no_leaf_within:
  assumes "truthful_env E" "\<And>leaf. leaf \<in> set ls \<Longrightarrow> lf_secretName leaf \<in> tls_names i"
  shows "runs E (within i) (\<lambda>_. True) (check_no_leaf c u n ls)"
  using assms(2)
proof (induction ls)
  case (Cons leaf ls)
  have "runs E (within i) (\<lambda>_. True) (check_no_leaf c u n ls)" by (rule Cons.IH) (rule Cons.prems [OF list.set_intros(2)])
  then show ?case
    unfolding check_no_leaf.simps
    by (intro runs_bnd [OF currentSecret_within [OF assms(1) tls_name_own(1) [OF Cons.prems [OF list.set_intros(1)]]]] runs_intro)
qed (simp add: runs_ret)

lemma named_secrets:
  assumes "meta_laws (cx_lib c)"
  shows "om_name (sec_meta (ca_secret c ca)) = tlsCASecretName (c_name c)" "om_name (sec_meta (leaf_secret c ca n pems)) = n"
  using assms by (simp_all add: ca_secret_def leaf_secret_def c_object_meta_def meta_laws_def)

lemma adoptSecret_within:
  assumes "\<exists>s \<in> set (own_suffixes KSecret). n = i @ s"
  shows "runs E (within i) (\<lambda>_. True) (adoptSecret c n)"
  unfolding adoptSecret_def exists_certificate_def exists_secret_def using assms
  by (intro runs_intro) (simp_all del: own_suffixes.simps)

lemma ensureTLSSecrets_within:
  assumes "truthful_env E" "meta_laws (cx_lib c)"
  shows "runs E (within (c_name c)) (\<lambda>_. True) (ensureTLSSecrets c owner)"
proof -
  let ?i = "c_name c" and ?leaves = "needed_leaves c owner"
  note laws = assms(2)
  have leaf: "lf_secretName l \<in> tls_names ?i" if "l \<in> set ?leaves" for l using that by (rule leaf_in_names)
  have ca: "runs E (within ?i) (\<lambda>_. True) (ensureCA c owner ?leaves)"
    unfolding ensureCA_def Let_def
    by (intro runs_bnd [OF currentSecret_within [OF assms(1) own_names(2)]] runs_intro check_no_leaf_within [OF assms(1) leaf]
        runs_bnd [OF runs_calls [OF calls_in_wrapping [OF authority_calls(1)]]] createOwned_within [OF laws])
      (auto simp: named_secrets [OF laws] own_names simp del: own_suffixes.simps)
  have leaves: "runs E (within ?i) (\<lambda>_. True) (ensure_leaf c owner a l)" if "l \<in> set ?leaves" for a l
    unfolding ensure_leaf_def
    by (intro runs_bnd [OF currentSecret_within [OF assms(1) tls_name_own(1) [OF leaf [OF that]]]] runs_intro
        runs_bnd [OF runs_calls [OF calls_in_wrapping [OF authority_calls(2)]]] createOwned_within [OF laws])
      (auto simp: named_secrets [OF laws] tls_name_own [OF leaf [OF that]] simp del: own_suffixes.simps)
  have issuer: "runs E (within ?i) (\<lambda>_. True) (ensureCertManagerIssuer c owner s)" for s
    unfolding ensureCertManagerIssuer_def using laws
    by (intro runs_intro apply_owned_within [OF laws] adoptSecret_within own_names)
      (auto simp: c_object_meta_def meta_laws_def ca_certificate_def own_names simp del: own_suffixes.simps)
  have certs: "runs E (within ?i) (\<lambda>_. True) (ensureCertManagerCertificates c owner s ?leaves)" for s
    unfolding ensureCertManagerCertificates_def using laws
    by (intro runs_bnd [OF issuer] runs_intro apply_owned_within [OF laws] adoptSecret_within)
      (auto simp: c_object_meta_def meta_laws_def buildCertificate_def tls_name_own [OF leaf] simp del: own_suffixes.simps)
  show ?thesis
    unfolding ensureTLSSecrets_def Let_def
    by (intro runs_intro certs runs_bnd [OF ca] leaves) simp_all
qed

section \<open>Groups, monitoring, the log backup and the teardown\<close>

lemma edits_within:
  "runs E (within i) (\<lambda>g'. g_meta g' = g_meta g \<and> g_comp g' = g_comp g) (addPDDNSWait c g img)"
  "runs E (within i) (\<lambda>g'. g_meta g' = g_meta g \<and> g_comp g' = g_comp g) (addTiDBGracefulWait c g cl had)"
  unfolding addPDDNSWait_def get_group_def addTiDBGracefulWait_def exists_group_def Let_def
  by (intro runs_intro; simp add: add_init_def Let_def)+

lemma built_own:
  assumes "owner_laws (cx_lib c)"
  shows "om_name (g_meta (buildPDGroup c co img)) = c_name c" "om_name (g_meta (buildTiKVGroup c co img)) = c_name c"
    "om_name (g_meta (buildTiDBGroup c co img)) = c_name c" "om_name (g_meta (buildTiFlashGroup c co img)) = c_name c"
    "om_name (g_meta (buildTiProxyGroup c co img)) = c_name c"
  using built_identity [OF assms] by blast+

lemma remove_group_within: "truthful_env E \<Longrightarrow> runs E (within (c_name c)) (\<lambda>_. True) (remove_group c k)"
  unfolding remove_group_def delete_obj_def
  by (rule runs_truthful(3)) (auto intro!: runs_intro)

lemma groups_within:
  assumes "truthful_env E" "owner_laws (cx_lib c)"
  shows "runs E (within (c_name c)) (\<lambda>_. True) (sync_pd c spec owner)" "runs E (within (c_name c)) (\<lambda>_. True) (sync_tikv c spec owner)"
    "runs E (within (c_name c)) (\<lambda>_. True) (sync_tidb c spec owner cl had)"
    "runs E (within (c_name c)) (\<lambda>_. True) (syncTiFlash c spec owner)" "runs E (within (c_name c)) (\<lambda>_. True) (syncTiProxy c spec owner)"
proof -
  note ap = apply_owned_within [OF owner_laws_meta [OF assms(2)]]
  show "runs E (within (c_name c)) (\<lambda>_. True) (sync_pd c spec owner)" "runs E (within (c_name c)) (\<lambda>_. True) (sync_tikv c spec owner)"
    "runs E (within (c_name c)) (\<lambda>_. True) (sync_tidb c spec owner cl had)"
    unfolding sync_pd_def sync_tikv_def sync_tidb_def Let_def
    by (intro runs_bnd [OF edits_within(1)] runs_bnd [OF edits_within(2)] ap; simp add: built_own [OF assms(2)])+
  show "runs E (within (c_name c)) (\<lambda>_. True) (syncTiFlash c spec owner)" "runs E (within (c_name c)) (\<lambda>_. True) (syncTiProxy c spec owner)"
    unfolding syncTiFlash_def syncTiProxy_def
    by (intro runs_intro ap remove_group_within [OF assms(1)]; simp add: built_own [OF assms(2)])+
qed

lemma buildCluster_within:
  assumes "meta_laws (cx_lib c)"
  shows "runs E (within (c_name c)) (\<lambda>cl. om_name (cl_meta cl) = c_name c) (buildCluster c)"
  using assms
  unfolding buildCluster_def existingClusterSessionTokenSigning_def readyForSessionTokenSigning_def read_defs
    newClusterSessionTokenSigning_def Let_def case_prod_beta
  by (intro runs_intro runs_bnd [OF runs_calls]) (auto simp: with_source_def c_object_meta_def meta_laws_def intro!: calls_intro)

lemma syncScraper_within:
  assumes "meta_laws (cx_lib c)"
  shows "runs E (within (c_name c)) (\<lambda>_. True) (syncMonitoring c)"
proof -
  have labels: "runs E (within (c_name c)) (\<lambda>_. True) (labelsFromEnv c v)" for v
    by (rule within_calls [OF labelsFromEnv_only]) (auto intro: within_local)
  show ?thesis
    using assms unfolding syncMonitoring_def syncScraper_def Let_def
    by (intro runs_intro runs_bnd [OF labels])
      (simp_all add: prometheusScraper_def victoriaMetricsScraper_def buildPodMonitor_def buildVMPodScrape_def scrape_object_of_def
        scrapeObjectMeta_def c_object_meta_def meta_laws_def podMonitorName_def vmPodScrapeName_def podMonitorSuffix_def vmPodScrapeSuffix_def Let_def)
qed

lemma account_within: "runs E (within i) (\<lambda>_. True) (ensureBackupManagerRBAC c ns)"
  unfolding ensureBackupManagerRBAC_def applyServerSide_def backup_manager_objects_def Let_def
  by (intro runs_intro runs_bnd [OF runs_calls [OF build_config_calls]]) (auto simp: bare_meta_def intro!: runs_intro runs_calls calls_intro)

lemma clusterReady_within: "runs E (within i) (\<lambda>_. True) (clusterReady c)"
  by (rule within_calls [OF clusterReady_only]) (auto intro: within_local)

lemma reconcileDataSource_within: "runs E (within i) (\<lambda>_. True) (reconcileDataSource c)"
  by (rule within_calls [OF reconcileDataSource_only]) (auto intro: within_local)

lemma credentials_within:
  "\<exists>s \<in> set (own_suffixes KSecret). n = i @ s \<Longrightarrow> runs E (within i) (\<lambda>_. True) (ensureBRCredentials c owner n st)"
  unfolding ensureBRCredentials_def Let_def
  by (intro runs_intro) (simp_all add: bare_meta_def del: own_suffixes.simps)

lemma syncLogBackup_within:
  assumes "truthful_env E"
  shows "runs E (within (c_name c)) (\<lambda>_. True) (syncLogBackup c)"
proof -
  let ?i = "c_name c"
  have ready: "runs E (within ?i) (\<lambda>_. True) (readyForLogBackup c)"
    unfolding readyForLogBackup_def get_data_source_status_def by (intro runs_intro clusterReady_within) simp_all
  have run: "runs E (within ?i) (\<lambda>_. True) (run_log_backup c ref)" for ref
    unfolding run_log_backup_def get_backup_storage_def
    by (intro runs_intro credentials_within account_within own_names(4))
      (auto simp: buildLogBackup_def bare_meta_def own_names Let_def zero_br_backup_def simp del: own_suffixes.simps)
  have gone: "runs E (within ?i) (\<lambda>_. True) (deleteSecretIfExists (brSecretName (logBackupName ?i)))"
    unfolding deleteSecretIfExists_def delete_obj_def using own_names(4) [of ?i]
    by (intro runs_truthful(2) [OF assms]) (auto intro!: runs_intro simp del: own_suffixes.simps)
  have delete: "within ?i (Delete KBRBackup (om_name (bb_meta b)))" if "om_name (bb_meta b) = logBackupName ?i" for b
    using that own_names(6) [of ?i] by (simp del: own_suffixes.simps)
  show ?thesis
    unfolding syncLogBackup_def delete_obj_def Let_def
    by (intro runs_truthful(4) [OF assms])
      (auto intro!: runs_intro run gone delete runs_bnd [OF ready] simp del: own_suffixes.simps)
qed

lemma SyncTiDB_within:
  assumes "truthful_env E" "owner_laws (cx_lib c)"
  shows "runs E (within (c_name c)) (\<lambda>_. True) (SyncTiDB c)"
proof -
  note laws = owner_laws_meta [OF assms(2)]
  have signing: "runs E (within (c_name c)) (\<lambda>_. True) (clusterHasSessionTokenSigning c)"
    by (rule within_calls [OF clusterHasSessionTokenSigning_only]) (auto intro: within_local)
  show ?thesis
    unfolding SyncTiDB_def provider_spec_def get_cluster_def
    by (intro runs_intro runs_bnd [OF ensureRootPassword_within [OF assms(1) laws]] runs_bnd [OF signing]
        runs_bnd [OF buildCluster_within [OF laws]] ensureTLSSecrets_within [OF assms(1) laws] groups_within [OF assms]
        syncScraper_within [OF laws] reconcileDataSource_within syncLogBackup_within [OF assms(1)])
      (use laws in \<open>simp_all add: buildBootstrapSQLConfigMap_def c_object_meta_def meta_laws_def bootstrapConfigMapName_def\<close>)
qed

lemma Cleanup_within:
  assumes "truthful_env E"
  shows "runs E (within (c_name c)) (\<lambda>_. True) (Cleanup c)"
proof -
  let ?i = "c_name c"
  have counts: "runs E (within ?i) (\<lambda>_. True) (count_groups c n ks)" "runs E (within ?i) (\<lambda>_. True) (count_members c n ks)" for n ks
    by (rule runs_calls, rule calls_in_mono [OF count_calls(1)] calls_in_mono [OF count_calls(2)], erule within_read)+
  have stop: "runs E (within ?i) (\<lambda>_. True) (stopLogBackup c)"
    unfolding stopLogBackup_def exists_cluster_def Let_def case_prod_beta using own_names(6) [of ?i]
    by (intro runs_truthful(4) [OF assms]) (auto intro!: runs_intro simp del: own_suffixes.simps)
  have delete: "runs E (within ?i) (\<lambda>_. True) (delete_cluster c found)"
    if "\<And>cl. found = Some cl \<Longrightarrow> om_name (cl_meta cl) = ?i" for found
    using that unfolding delete_cluster_def by (auto intro!: runs_intro)
  show ?thesis
    unfolding Cleanup_def
    by (intro runs_bnd [OF stop] runs_intro runs_truthful(5) [OF assms] delete runs_bnd [OF counts(1)] runs_bnd [OF counts(2)])
      simp_all
qed

section \<open>Properties\<close>

text \<open>The calls of a reconcile pass and of a teardown.\<close>

definition instance_calls :: "ctx \<Rightarrow> env \<Rightarrow> hist \<Rightarrow> call set" where
  "instance_calls c E h = set (snd (provider_Sync c E h)) \<union> set (snd (Cleanup c E h))"

lemma instance_calls_within:
  assumes "truthful_env E" "owner_laws (cx_lib c)" "k \<in> instance_calls c E h"
  shows "within (c_name c) k"
  using assms(3) runs_callD [OF SyncTiDB_within [OF assms(1,2)]] runs_callD [OF Cleanup_within [OF assms(1)]]
  unfolding instance_calls_def provider_Sync_def by blast

text \<open>C5: Instances of one namespace keep out of each other's way. No object that a reconcile pass or a teardown of an
  Instance creates, applies, updates, adopts or deletes is one that a pass or teardown of an Instance of another name
  does, whatever the two find in the cluster; the one thing they share is the account of the BR jobs.
  The names are not just different suffixes: an Instance whose name extends another's by a suffix is covered.\<close>

theorem instances_keep_apart:
  assumes "owner_laws (cx_lib c)" "owner_laws (cx_lib c')" "truthful_env E" "truthful_env E'" "c_name c \<noteq> c_name c'"
    and "k \<in> instance_calls c E h" "k' \<in> instance_calls c' E' h'" "target_of k = Some t" "\<not> account t"
  shows "target_of k' \<noteq> Some t"
proof
  assume "target_of k' = Some t"
  moreover have "within (c_name c) k" "within (c_name c') k'"
    using instance_calls_within [OF assms(3,1,6)] instance_calls_within [OF assms(4,2,7)] by blast+
  ultimately obtain s s' where "s \<in> set (own_suffixes (fst t))" "s' \<in> set (own_suffixes (fst t))"
      "snd t = c_name c @ s" "snd t = c_name c' @ s'"
    using assms(8,9) by (cases t) (auto simp: within_def simp del: own_suffixes.simps)
  with same_name [OF _ _ _ own_suffixes_independent] assms(5) show False by metis
qed

text \<open>Two Instances whose Clusters are to be deleted; the name of one extends the other's.\<close>

definition named_ctx :: "string \<Rightarrow> ctx" where
  "named_ctx n = sample_ctx\<lparr>cx_instance := sample_instance\<lparr>in_meta := bare_meta ''ns'' n\<rparr>\<rparr>"

definition named_env :: "string \<Rightarrow> env" where
  "named_env n = env_of (empty_store\<lparr>so_cluster := [n \<mapsto> sample_cluster\<lparr>cl_meta := bare_meta ''ns'' n\<rparr>]\<rparr>)"

lemma named_simps: "c_name (named_ctx n) = n" "cx_lib (named_ctx n) = sample_lib"
  by (simp_all add: named_ctx_def c_name_def bare_meta_def sample_ctx_def)

lemma named_env_truthful: "truthful_env (named_env n)"
  by (simp add: truthful_env_def truthful_def named_env_def bare_meta_def)

lemma named_delete: "Delete KCluster n \<in> instance_calls (named_ctx n) (named_env n) []"
proof -
  have stop: "fst (stopLogBackup (named_ctx n) (named_env n) h) = Inr True" for h
    by (simp add: stopLogBackup_def exists_br_backup_def bnd_ask named_env_def ret_run)
  have "Delete KCluster n \<in> set (snd (Cleanup (named_ctx n) (named_env n) []))"
    unfolding Cleanup_def
    by (rule called_then [where m = "stopLogBackup (named_ctx n)", OF stop])
      (simp add: exists_cluster_def bnd_ask named_env_def named_simps delete_cluster_def not_deleting_def bare_meta_def
        time_ptr_is_zero_def thn_def bnd_run_Inr do_write_run bnd_assoc del: count_groups.simps count_members.simps)
  then show ?thesis by (simp add: instance_calls_def)
qed

theorem instances_keep_apart_witness: "target_of (Delete KCluster ''db-pd'') \<noteq> Some (KCluster, ''db'')"
  using instances_keep_apart [OF _ _ named_env_truthful named_env_truthful _ named_delete named_delete,
      of "''db''" "''db-pd''" "(KCluster, ''db'')"] sample_owner_laws
  by (simp only: named_simps) simp

end
