(* ===== verification/Settled.thy ===== *)
theory Settled
  imports Desired
begin

text \<open>
  Pods are not rolled without need: what a reconcile pass puts into the component groups, in full, and the proof
  that a pass over groups an earlier pass left, of an unchanged Instance, puts the same into them. The init
  container of PD (internal/provider/pd_dns.go) and the graceful wait of TiDB (session_token.go) depend on
  what is there, so this is what their reads are for.
\<close>

section \<open>What a pass puts into a group\<close>

text \<open>The part of a group the provider sets: its metadata, the features and the status are others'.\<close>

definition intent :: "group \<Rightarrow> group" where
  "intent g = g\<lparr>g_meta := bare_meta '''' '''', g_features := [], g_status := zero_group_status\<rparr>"

definition image_of :: "ctx \<Rightarrow> string \<Rightarrow> comp \<Rightarrow> string" where
  "image_of c spec k = resolveImage (cx_lib c) spec (comp_name k) (component_of (c_components c) k)"

definition pd_target :: "ctx \<Rightarrow> string \<Rightarrow> group option \<Rightarrow> group" where
  "pd_target c spec found =
     (let img = image_of c spec PD; base = buildPDGroup c (component_of (c_components c) PD) img in
      if img \<noteq> '''' \<and> (found = None \<or> hasPDDNSWait (the found)) then add_init base (dns_wait_container c (c_name c) img) else base)"

definition tidb_target :: "ctx \<Rightarrow> string \<Rightarrow> cluster \<Rightarrow> bool \<Rightarrow> group option \<Rightarrow> group" where
  "tidb_target c spec cl had found =
     (let base = buildTiDBGroup c (component_of (c_components c) TiDB) (image_of c spec TiDB) in
      if hasFeatureGate cl SessionTokenSigning \<and>
         (\<not> had \<or> found = None \<or> configSets (cx_lib c) (g_config (the found)) tidbGracefulWaitKey)
      then base\<lparr>g_config := withTiDBGracefulWait (cx_lib c) (g_config base)\<rparr> else base)"

fun target :: "ctx \<Rightarrow> string \<Rightarrow> cluster \<Rightarrow> bool \<Rightarrow> groups \<Rightarrow> comp \<Rightarrow> group" where
  "target c spec cl had G PD = pd_target c spec (G PD (c_name c))"
| "target c spec cl had G TiKV = buildTiKVGroup c (component_of (c_components c) TiKV) (image_of c spec TiKV)"
| "target c spec cl had G TiDB = tidb_target c spec cl had (G TiDB (c_name c))"
| "target c spec cl had G TiFlash = buildTiFlashGroup c (component_of (c_components c) TiFlash) (image_of c spec TiFlash)"
| "target c spec cl had G TiProxy = buildTiProxyGroup c (component_of (c_components c) TiProxy) (image_of c spec TiProxy)"

section \<open>A target is settled\<close>

lemma intent_fields:
  assumes "intent g = intent g'"
  shows "g_config g = g_config g'" "hasPDDNSWait g = hasPDDNSWait g'"
proof -
  have "g_config (intent g) = g_config (intent g')" "g_overlay (intent g) = g_overlay (intent g')" using assms by simp_all
  then show "g_config g = g_config g'" "hasPDDNSWait g = hasPDDNSWait g'" by (simp_all add: intent_def hasPDDNSWait_def)
qed

lemma pd_settled: "intent x = intent (pd_target c spec found) \<Longrightarrow> pd_target c spec (Some x) = pd_target c spec found"
  by (drule intent_fields(2)) (auto simp: pd_target_def Let_def hasPDDNSWait_add_init dns_wait_container_def split: if_splits)

lemma graceful_wait_sets:
  assumes "toml_roundtrip L"
  shows "configSets L (withTiDBGracefulWait L u) tidbGracefulWaitKey \<or> withTiDBGracefulWait L u = u"
  using toml_roundtripD [OF assms]
  by (auto simp: withTiDBGracefulWait_def configSets_def encodeTOML_def split: option.splits)

lemma graceful_wait_set: "configSets L u tidbGracefulWaitKey \<Longrightarrow> withTiDBGracefulWait L u = u"
  by (auto simp: withTiDBGracefulWait_def configSets_def split: option.splits)

lemma same_config: "u = g_config g \<Longrightarrow> g\<lparr>g_config := u\<rparr> = g"
  by (cases g) simp

lemma tidb_settled:
  assumes "toml_roundtrip (cx_lib c)" "intent x = intent (tidb_target c spec cl had found)"
    "hasFeatureGate cl' SessionTokenSigning = hasFeatureGate cl SessionTokenSigning"
  shows "tidb_target c spec cl' (hasFeatureGate cl SessionTokenSigning) (Some x) = tidb_target c spec cl had found"
proof -
  let ?b = "buildTiDBGroup c (component_of (c_components c) TiDB) (image_of c spec TiDB)"
  let ?w = "withTiDBGracefulWait (cx_lib c) (g_config ?b)"
  note x = intent_fields(1) [OF assms(2)]
  consider "?w = g_config ?b" | "configSets (cx_lib c) ?w tidbGracefulWaitKey" "?w \<noteq> g_config ?b"
    using graceful_wait_sets [OF assms(1), of "g_config ?b"] by blast
  then show ?thesis
  proof cases
    case 1
    then show ?thesis by (simp add: tidb_target_def Let_def same_config)
  next
    case 2
    with graceful_wait_set [of "cx_lib c" "g_config ?b"] have "\<not> configSets (cx_lib c) (g_config ?b) tidbGracefulWaitKey" by blast
    with 2 x assms(3) show ?thesis by (simp add: tidb_target_def Let_def split: if_splits)
  qed
qed

section \<open>A pass, step by step\<close>

definition landed :: "ctx \<Rightarrow> (comp \<Rightarrow> group) \<Rightarrow> comp set \<Rightarrow> groups \<Rightarrow> bool" where
  "landed c T D s \<longleftrightarrow> (\<forall>k \<in> D. runs_component c k \<longrightarrow> (\<exists>g. s k (c_name c) = Some g \<and> intent g = intent (T k)))"

lemma intent_merged: "intent (merged old g) = intent g"
  by (simp add: merged_def intent_def split: option.split)

lemma landed_apply:
  assumes "owner_laws (cx_lib c)" "om_name (g_meta g) = c_name c" "g_comp g = k" "intent g = intent (T k)"
  shows "always E (groups_after del) (\<lambda>_. True) (landed c T D) (applyOwnedByCluster c owner (OGroup g)) (\<lambda>_. landed c T (insert k D))"
proof -
  have step: "landed c T (insert k D) (groups_after del (ServerSideApply x j) s)"
    if "controller_reference (cx_lib c) (OCluster owner) (OGroup g) = Inr x" "landed c T D s" for x j s
  proof -
    from assms(1) that(1) obtain os where x: "x = OGroup (g\<lparr>g_meta := (g_meta g)\<lparr>om_owners := os\<rparr>\<rparr>)"
      by (rule owner_lawsE) simp
    have "intent (g\<lparr>g_meta := m\<rparr>) = intent g" for m by (simp add: intent_def)
    with that(2) assms(2-4) show ?thesis by (auto simp: landed_def x intent_merged)
  qed
  show ?thesis
    unfolding applyOwnedByCluster_def
    by (intro always_bnd_or_wrap always_bnd [OF always_idle_calls [OF build_config_calls]]
        always_bnd [where Mid = "\<lambda>_. landed c T (insert k D)"] always_do_write always_ok_or_fail)
      (simp_all add: step)
qed

lemma always_kept:
  assumes "calls_in (\<lambda>k. \<forall>s. J s \<longrightarrow> J (upd k s)) m"
  shows "always E upd (\<lambda>_. True) J m (\<lambda>_. J)"
proof (rule alwaysI)
  fix h s x t
  assume "J s" "m E h = (Inr x, t)"
  then have "\<forall>k \<in> set t. \<forall>s. J s \<longrightarrow> J (upd k s)" using assms unfolding calls_in_def by (metis snd_conv)
  with \<open>J s\<close> show "J (fold upd t s)" by (induction t arbitrary: s) auto
qed simp

lemma landed_remove:
  assumes "\<not> runs_component c k"
  shows "always E (groups_after del) (\<lambda>_. True) (landed c T D) (remove_group c k) (\<lambda>_. landed c T (insert k D))"
proof (rule always_weaken [OF always_kept [where J = "landed c T (insert k D)"]])
  show "calls_in (\<lambda>k'. \<forall>s. landed c T (insert k D) s \<longrightarrow> landed c T (insert k D) (groups_after del k' s)) (remove_group c k)"
    unfolding remove_group_def exists_group_def delete_obj_def using assms
    by (intro calls_intro) (auto simp: landed_def)
qed (use assms in \<open>auto simp: landed_def\<close>)

lemma pd_edit:
  assumes "serves (ev_group E PD) (G PD)" "owner_laws (cx_lib c)"
  shows "runs E (\<lambda>k. groups_after del k = id) (\<lambda>g. g = pd_target c spec (G PD (c_name c)))
    (addPDDNSWait c (buildPDGroup c (component_of (c_components c) PD) (image_of c spec PD)) (image_of c spec PD))"
  unfolding addPDDNSWait_def Let_def
  by (intro runs_intro runs_bnd_get_group [OF assms(1)])
    (auto simp: groups_idle built_identity [OF assms(2)] pd_target_def Let_def runs_ret runs_fail split: option.split option.split_asm)

lemma tidb_edit:
  assumes "serves (ev_group E TiDB) (G TiDB)" "owner_laws (cx_lib c)"
  shows "runs E (\<lambda>k. groups_after del k = id) (\<lambda>g. g = tidb_target c spec cl had (G TiDB (c_name c)))
    (addTiDBGracefulWait c (buildTiDBGroup c (component_of (c_components c) TiDB) (image_of c spec TiDB)) cl had)"
  unfolding addTiDBGracefulWait_def Let_def
  by (intro runs_intro runs_bnd_exists_group [OF assms(1)])
    (auto simp: groups_idle built_identity [OF assms(2)] tidb_target_def Let_def runs_ret runs_fail split: option.split)

lemma groups_land:
  assumes "\<And>k. serves (ev_group E k) (G k)" "owner_laws (cx_lib c)"
  shows "always E (groups_after del) (\<lambda>_. True) (landed c (target c spec cl had G) D) (sync_pd c spec owner) (\<lambda>_. landed c (target c spec cl had G) (insert PD D))"
    "always E (groups_after del) (\<lambda>_. True) (landed c (target c spec cl had G) D) (sync_tikv c spec owner) (\<lambda>_. landed c (target c spec cl had G) (insert TiKV D))"
    "always E (groups_after del) (\<lambda>_. True) (landed c (target c spec cl had G) D) (sync_tidb c spec owner cl had) (\<lambda>_. landed c (target c spec cl had G) (insert TiDB D))"
proof -
  note ids = built_identity [OF assms(2)]
  note ap = landed_apply [OF assms(2)]
  have pd: "g_meta (add_init g ic) = g_meta g" "g_comp (add_init g ic) = g_comp g" for g ic by (simp_all add: add_init_def Let_def)
  show "always E (groups_after del) (\<lambda>_. True) (landed c (target c spec cl had G) D) (sync_pd c spec owner) (\<lambda>_. landed c (target c spec cl had G) (insert PD D))"
    unfolding sync_pd_def Let_def image_of_def [symmetric]
    by (rule always_bnd_value [OF always_idle [OF pd_edit [where G = G, OF assms(1,2)]]], rule ap)
      (simp_all add: pd_target_def Let_def ids pd)
  show "always E (groups_after del) (\<lambda>_. True) (landed c (target c spec cl had G) D) (sync_tikv c spec owner) (\<lambda>_. landed c (target c spec cl had G) (insert TiKV D))"
    unfolding sync_tikv_def Let_def image_of_def [symmetric] by (rule ap) (simp_all add: ids)
  show "always E (groups_after del) (\<lambda>_. True) (landed c (target c spec cl had G) D) (sync_tidb c spec owner cl had) (\<lambda>_. landed c (target c spec cl had G) (insert TiDB D))"
    unfolding sync_tidb_def Let_def image_of_def [symmetric]
    by (rule always_bnd_value [OF always_idle [OF tidb_edit [where G = G, OF assms(1,2)]]], rule ap)
      (simp_all add: tidb_target_def Let_def ids)
qed

lemma optional_land:
  assumes "owner_laws (cx_lib c)"
  shows "always E (groups_after del) (\<lambda>_. True) (landed c (target c spec cl had G) D) (syncTiFlash c spec owner) (\<lambda>_. landed c (target c spec cl had G) (insert TiFlash D))"
    "always E (groups_after del) (\<lambda>_. True) (landed c (target c spec cl had G) D) (syncTiProxy c spec owner) (\<lambda>_. landed c (target c spec cl had G) (insert TiProxy D))"
proof -
  note ids = built_identity [OF assms(1)]
  show "always E (groups_after del) (\<lambda>_. True) (landed c (target c spec cl had G) D) (syncTiFlash c spec owner) (\<lambda>_. landed c (target c spec cl had G) (insert TiFlash D))"
  proof (cases "enabledTiFlash (c_components c)")
    case None
    then show ?thesis
      unfolding syncTiFlash_def None option.case by (intro landed_remove) (simp add: tiflash.runs_optional None)
  next
    case (Some co)
    then show ?thesis
      unfolding syncTiFlash_def Some option.case tiflash.enabled_component_of [OF Some, symmetric] image_of_def [symmetric]
      by (intro landed_apply [OF assms(1)]) (simp_all add: ids)
  qed
  show "always E (groups_after del) (\<lambda>_. True) (landed c (target c spec cl had G) D) (syncTiProxy c spec owner) (\<lambda>_. landed c (target c spec cl had G) (insert TiProxy D))"
  proof (cases "enabledTiProxy (c_components c)")
    case None
    then show ?thesis
      unfolding syncTiProxy_def None option.case by (intro landed_remove) (simp add: tiproxy.runs_optional None)
  next
    case (Some co)
    then show ?thesis
      unfolding syncTiProxy_def Some option.case tiproxy.enabled_component_of [OF Some, symmetric] image_of_def [symmetric]
      by (intro landed_apply [OF assms(1)]) (simp_all add: ids)
  qed
qed

text \<open>A step whose value is known.\<close>

lemma always_bnd_known:
  assumes "only S m" "\<And>e. e \<in> S \<Longrightarrow> \<not> touches_groups e" "\<And>h. fst (m E h) = Inr x"
    "always E (groups_after del) (\<lambda>_. True) Pre (f x) Post"
  shows "always E (groups_after del) (\<lambda>_. True) Pre (bnd m f) Post"
proof (rule always_bnd_value [where R = "\<lambda>y. y = x" and Mid = Pre])
  have calls: "calls_in (\<lambda>k. groups_after del k = id) m"
    by (rule only_calls [OF assms(1)]) (simp add: groups_idle assms(2))
  have "y = x" if "m E h = (Inr y, t)" for y h t
    using assms(3) [of h] that by simp
  with runs_calls [OF calls, of E] have "runs E (\<lambda>k. groups_after del k = id) (\<lambda>y. y = x) m"
    unfolding runs_def by blast
  then show "always E (groups_after del) (\<lambda>_. True) Pre m (\<lambda>y s. Pre s \<and> y = x)" by (rule always_idle)
qed (simp add: assms(4))

text \<open>What a pass knows of the Cluster before it applies it: whether it has the signing gate, and the Cluster it
  builds.\<close>

definition pass_reads :: "ctx \<Rightarrow> env \<Rightarrow> string \<Rightarrow> groups \<Rightarrow> bool \<Rightarrow> cluster \<Rightarrow> bool" where
  "pass_reads c E spec G had cl \<longleftrightarrow> (\<forall>k. serves (ev_group E k) (G k)) \<and> (\<forall>h. ev_provider_spec E h = Inr spec) \<and>
     (\<forall>h. fst (clusterHasSessionTokenSigning c E h) = Inr had) \<and> (\<forall>h. fst (buildCluster c E h) = Inr cl)"

lemma SyncTiDB_lands:
  assumes "owner_laws (cx_lib c)" "pass_reads c E spec G had cl"
  shows "always E (groups_after del) (\<lambda>_. True) (\<lambda>_. True) (SyncTiDB c)
    (\<lambda>_. landed c (target c spec cl had G) {TiProxy, TiFlash, TiDB, TiKV, PD})"
proof -
  let ?T = "target c spec cl had G"
  note laws = owner_laws_meta [OF assms(1)]
  have reads: "\<And>k. serves (ev_group E k) (G k)" "\<And>h. ev_provider_spec E h = Inr spec"
    "\<And>h. fst (clusterHasSessionTokenSigning c E h) = Inr had" "\<And>h. fst (buildCluster c E h) = Inr cl"
    using assms(2) by (simp_all add: pass_reads_def)
  have q: "always E (groups_after del) (\<lambda>_. True) J (ensureRootPassword c) (\<lambda>_. J)"
    "always E (groups_after del) (\<lambda>_. True) J (ensureTLSSecrets c owner) (\<lambda>_. J)"
    "always E (groups_after del) (\<lambda>_. True) J (syncMonitoring c) (\<lambda>_. J)"
    "always E (groups_after del) (\<lambda>_. True) J (reconcileDataSource c) (\<lambda>_. J)"
    "always E (groups_after del) (\<lambda>_. True) J (syncLogBackup c) (\<lambda>_. J)" for J owner
    by (rule always_untouched [OF ensureRootPassword_only] always_untouched [OF ensureTLSSecrets_only [OF laws]]
        always_untouched [OF syncMonitoring_only] always_untouched [OF reconcileDataSource_only]
        always_untouched [OF syncLogBackup_only]; auto)+
  have ap: "always E (groups_after del) (\<lambda>_. True) J (apply_obj x) (\<lambda>_. J)" for J x
    by (rule always_idle_calls) (auto intro!: calls_intro simp: groups_idle)
  have "always E (groups_after del) (\<lambda>_. True) (landed c ?T {}) (SyncTiDB c)
    (\<lambda>_. landed c ?T {TiProxy, TiFlash, TiDB, TiKV, PD})"
    unfolding SyncTiDB_def provider_spec_def get_cluster_def
    by (rule always_bnd_ask, simp, simp only: reads(2) or_fail_Inr bnd_ret, rule always_bnd [OF q(1)], rule always_thn [OF ap],
        rule always_bnd_known [OF clusterHasSessionTokenSigning_only _ reads(3)], simp,
        rule always_bnd_known [OF buildCluster_only _ reads(4)], force,
        intro always_bnd_ask always_bnd_or_wrap always_thn [OF ap] always_thn [OF q(2)] always_thn [OF q(3)] always_thn [OF q(4)]
        always_thn [OF q(5)] always_thn [OF groups_land(1) [OF reads(1) assms(1)]] always_thn [OF groups_land(2) [OF reads(1) assms(1)]]
        always_thn [OF groups_land(3) [OF reads(1) assms(1)]] always_thn [OF optional_land(1) [OF assms(1)]]
        always_thn [OF optional_land(2) [OF assms(1)]] always_err_or_ok)
      simp_all
  then show ?thesis by (rule always_weaken) (simp_all add: landed_def)
qed

section \<open>Two passes\<close>

lemma pass_lands:
  assumes "owner_laws (cx_lib c)" "pass_reads c E spec G had cl" "SyncTiDB c E h = (Inr (), t)" "runs_component c k"
  shows "\<exists>g. fold (groups_after del) t s k (c_name c) = Some g \<and> intent g = intent (target c spec cl had G k)"
proof -
  have "landed c (target c spec cl had G) {TiProxy, TiFlash, TiDB, TiKV, PD} (fold (groups_after del) t s)"
    using always_doneD [OF SyncTiDB_lands [OF assms(1,2)] _ _ assms(3)] by simp
  moreover have "k \<in> {TiProxy, TiFlash, TiDB, TiKV, PD}" by (cases k) simp_all
  ultimately show ?thesis using assms(4) unfolding landed_def by blast
qed

lemma target_settled:
  assumes "toml_roundtrip (cx_lib c)" "G' k (c_name c) = Some x" "intent x = intent (target c spec cl had G k)"
    "hasFeatureGate cl' SessionTokenSigning = hasFeatureGate cl SessionTokenSigning"
  shows "target c spec cl' (hasFeatureGate cl SessionTokenSigning) G' k = target c spec cl had G k"
  using assms(2,3) by (cases k) (simp_all add: pd_settled tidb_settled [OF assms(1) _ assms(4)])

text \<open>C4: a pass over an unchanged Instance rolls no pod. Let one pass have succeeded, whatever was in the
  cluster before it, and let the groups it left keep what it set until the next pass reads them (their
  status, labels and features may change). If the next pass succeeds too and finds the session token
  gate as the first one left it, it puts into every group exactly what is there: the init container
  of PD and the graceful wait of TiDB, which depend on what the cluster holds, included.\<close>

theorem settled_pass_rolls_nothing:
  assumes "owner_laws (cx_lib c)" "toml_roundtrip (cx_lib c)"
    and "pass_reads c E spec G had cl" "SyncTiDB c E h = (Inr (), t)"
    and "pass_reads c E' spec G' (hasFeatureGate cl SessionTokenSigning) cl'" "SyncTiDB c E' h' = (Inr (), t')"
    and "hasFeatureGate cl' SessionTokenSigning = hasFeatureGate cl SessionTokenSigning"
    and "\<And>k. map_option intent (G' k (c_name c)) = map_option intent (fold (groups_after del) t G k (c_name c))"
    and "runs_component c k"
  shows "\<exists>g g'. G' k (c_name c) = Some g \<and> fold (groups_after del') t' G' k (c_name c) = Some g' \<and> intent g' = intent g"
proof -
  obtain g where g: "fold (groups_after del) t G k (c_name c) = Some g" "intent g = intent (target c spec cl had G k)"
    using pass_lands [OF assms(1,3,4,9)] by blast
  with assms(8) [of k] obtain x where x: "G' k (c_name c) = Some x" "intent x = intent (target c spec cl had G k)"
    by auto
  from pass_lands [OF assms(1,5,6,9)] target_settled [where G' = G' and k = k, OF assms(2) x assms(7)] x show ?thesis by simp
qed

lemma running_reads:
  "\<exists>cl. pass_reads sample_ctx (running_with G) '''' G False cl \<and> \<not> hasFeatureGate cl SessionTokenSigning"
proof -
  obtain cl where "\<And>h. fst (buildCluster sample_ctx (running_with G) h) = Inr cl" "\<not> hasFeatureGate cl SessionTokenSigning"
    using running_built by blast
  then show ?thesis by (auto simp: pass_reads_def serves_serve running_signing)
qed

theorem settled_pass_rolls_nothing_witness:
  "\<exists>t t' g g'. SyncTiDB sample_ctx running_env [] = (Inr (), t) \<and>
     SyncTiDB sample_ctx (running_with (fold (groups_after Map.empty) t (\<lambda>_. Map.empty))) [] = (Inr (), t') \<and>
     fold (groups_after Map.empty) t (\<lambda>_. Map.empty) PD ''db'' = Some g \<and>
     fold (groups_after Map.empty) t' (fold (groups_after Map.empty) t (\<lambda>_. Map.empty)) PD ''db'' = Some g' \<and>
     intent g' = intent g"
proof -
  obtain t where t: "SyncTiDB sample_ctx running_env [] = (Inr (), t)"
    using running_sync by (metis prod.collapse)
  let ?G = "fold (groups_after Map.empty) t (\<lambda>_. Map.empty)"
  obtain t' where t': "SyncTiDB sample_ctx (running_with ?G) [] = (Inr (), t')"
    using running_sync by (metis prod.collapse)
  obtain cl where cl: "pass_reads sample_ctx running_env '''' (\<lambda>_. Map.empty) False cl" "\<not> hasFeatureGate cl SessionTokenSigning"
    using running_reads by blast
  obtain cl' where cl': "pass_reads sample_ctx (running_with ?G) '''' ?G (hasFeatureGate cl SessionTokenSigning) cl'"
    "hasFeatureGate cl' SessionTokenSigning = hasFeatureGate cl SessionTokenSigning"
    using running_reads [of ?G] cl(2) by auto
  have "toml_roundtrip (cx_lib sample_ctx)" by (simp add: toml_roundtrip_def)
  from settled_pass_rolls_nothing [where k = PD, OF _ this cl(1) t cl'(1) t' cl'(2) refl] sample_owner_laws
  show ?thesis using t t' by (fastforce simp: runs_component_def)
qed

end
