(* ===== verification/Upgrades.thy ===== *)
theory Upgrades
  imports Desired Provider
begin

text \<open>
  Versions over time: what Validate accepts and what SyncTiDB then writes into the component groups, over any
  sequence of reconciles of one Instance, passes that stop half way included.
\<close>

section \<open>What a pass does to one component's group\<close>

text \<open>A call that leaves the group of \<open>k\<close> in place, and with the version the Instance gives.\<close>

definition keeps_version :: "ctx \<Rightarrow> comp \<Rightarrow> call \<Rightarrow> bool" where
  "keeps_version c k call \<longleftrightarrow> (\<forall>n. call \<noteq> Delete (KGroup k) n) \<and>
     (\<forall>g j. call = ServerSideApply (OGroup g) j \<longrightarrow> g_comp g = k \<longrightarrow> g_version g = own_version c k)"

lemma keeps_version_idle: "\<not> touches_groups (effect_of call) \<Longrightarrow> keeps_version c k call"
  by (auto simp: keeps_version_def)

lemma keeps_version_only:
  "only S m \<Longrightarrow> (\<And>e. e \<in> S \<Longrightarrow> \<not> touches_groups e) \<Longrightarrow> runs E (keeps_version c k) (\<lambda>_. True) m"
  by (rule runs_calls, erule only_calls) (rule keeps_version_idle, simp)

lemma keeps_version_apply:
  assumes "owner_laws (cx_lib c)" "g_comp g = k \<longrightarrow> g_version g = own_version c k"
  shows "runs E (keeps_version c k) (\<lambda>_. True) (applyOwnedByCluster c owner (OGroup g))"
proof -
  have "keeps_version c k (ServerSideApply x j)"
    if ref: "controller_reference (cx_lib c) (OCluster owner) (OGroup g) = Inr x" for x j
  proof -
    from assms(1) ref obtain os where "x = OGroup (g\<lparr>g_meta := (g_meta g)\<lparr>om_owners := os\<rparr>\<rparr>)"
      by (rule owner_lawsE) simp
    with assms(2) show ?thesis by (simp add: keeps_version_def)
  qed
  then show ?thesis
    unfolding applyOwnedByCluster_def
    by (intro runs_bnd_or_wrap runs_bnd [OF runs_calls [OF build_config_calls]] runs_intro)
      (auto simp: keeps_version_idle)
qed

lemma built_versions:
  "g_version (buildPDGroup c co img) = co_version co" "g_version (buildTiKVGroup c co img) = co_version co"
  "g_version (buildTiDBGroup c co img) = co_version co" "g_version (buildTiFlashGroup c co img) = co_version co"
  "g_version (buildTiProxyGroup c co img) = co_version co"
  by (simp_all add: buildPDGroup_def buildTiKVGroup_def buildTiDBGroup_def buildTiFlashGroup_def buildTiProxyGroup_def
      plain_group_def Let_def)

lemma keeps_version_remove: "k \<noteq> k' \<Longrightarrow> runs E (keeps_version c k) (\<lambda>_. True) (remove_group c k')"
  unfolding remove_group_def exists_group_def delete_obj_def by (intro runs_intro) (auto simp: keeps_version_def)

text \<open>The reads before an apply leave the group's version alone.\<close>

lemma edits_keep_version:
  "runs E (keeps_version c k) (\<lambda>g'. g_comp g' = g_comp g \<and> g_version g' = g_version g) (addPDDNSWait c g img)"
  "runs E (keeps_version c k) (\<lambda>g'. g_comp g' = g_comp g \<and> g_version g' = g_version g) (addTiDBGracefulWait c g cl had)"
  unfolding addPDDNSWait_def get_group_def addTiDBGracefulWait_def exists_group_def Let_def
  by (intro runs_intro; simp add: keeps_version_idle add_init_def Let_def)+

lemma keeps_version_groups:
  assumes "owner_laws (cx_lib c)" "runs_component c k"
  shows "runs E (keeps_version c k) (\<lambda>_. True) (sync_pd c spec owner)"
    "runs E (keeps_version c k) (\<lambda>_. True) (sync_tikv c spec owner)"
    "runs E (keeps_version c k) (\<lambda>_. True) (sync_tidb c spec owner cl had)"
    "runs E (keeps_version c k) (\<lambda>_. True) (syncTiFlash c spec owner)"
    "runs E (keeps_version c k) (\<lambda>_. True) (syncTiProxy c spec owner)"
proof -
  note built = built_versions built_identity [OF assms(1)] own_version_def
  note apply_ok = keeps_version_apply [OF assms(1)]
  show "runs E (keeps_version c k) (\<lambda>_. True) (sync_pd c spec owner)"
    unfolding sync_pd_def Let_def by (rule runs_bnd [OF edits_keep_version(1)], rule apply_ok) (auto simp: built)
  show "runs E (keeps_version c k) (\<lambda>_. True) (sync_tikv c spec owner)"
    unfolding sync_tikv_def Let_def by (rule apply_ok) (auto simp: built)
  show "runs E (keeps_version c k) (\<lambda>_. True) (sync_tidb c spec owner cl had)"
    unfolding sync_tidb_def Let_def by (rule runs_bnd [OF edits_keep_version(2)], rule apply_ok) (auto simp: built)
  show "runs E (keeps_version c k) (\<lambda>_. True) (syncTiFlash c spec owner)"
    unfolding syncTiFlash_def using assms(2)
    by (intro runs_option keeps_version_remove apply_ok) (auto simp: built tiflash.runs_optional tiflash.enabled_component_of)
  show "runs E (keeps_version c k) (\<lambda>_. True) (syncTiProxy c spec owner)"
    unfolding syncTiProxy_def using assms(2)
    by (intro runs_option keeps_version_remove apply_ok) (auto simp: built tiproxy.runs_optional tiproxy.enabled_component_of)
qed

lemma SyncTiDB_keeps_version:
  assumes "owner_laws (cx_lib c)" "runs_component c k"
  shows "runs E (keeps_version c k) (\<lambda>_. True) (SyncTiDB c)"
proof -
  note laws = owner_laws_meta [OF assms(1)]
  have q: "runs E (keeps_version c k) (\<lambda>_. True) (ensureRootPassword c)"
    "runs E (keeps_version c k) (\<lambda>_. True) (clusterHasSessionTokenSigning c)"
    "runs E (keeps_version c k) (\<lambda>_. True) (buildCluster c)"
    "runs E (keeps_version c k) (\<lambda>_. True) (ensureTLSSecrets c owner)"
    "runs E (keeps_version c k) (\<lambda>_. True) (syncMonitoring c)"
    "runs E (keeps_version c k) (\<lambda>_. True) (reconcileDataSource c)"
    "runs E (keeps_version c k) (\<lambda>_. True) (syncLogBackup c)" for owner
    by (rule keeps_version_only [OF ensureRootPassword_only] keeps_version_only [OF clusterHasSessionTokenSigning_only]
        keeps_version_only [OF buildCluster_only] keeps_version_only [OF ensureTLSSecrets_only [OF laws]]
        keeps_version_only [OF syncMonitoring_only] keeps_version_only [OF reconcileDataSource_only]
        keeps_version_only [OF syncLogBackup_only]; auto)+
  have ap: "runs E (keeps_version c k) (\<lambda>_. True) (apply_obj x)" for x
    by (rule runs_calls) (auto intro!: calls_intro simp: keeps_version_idle)
  show ?thesis
    unfolding SyncTiDB_def provider_spec_def get_cluster_def
    by (intro runs_bnd_ask runs_bnd_or_fail runs_bnd_or_wrap runs_bnd [OF q(1)] runs_bnd [OF q(2)] runs_bnd [OF q(3)]
        runs_thn ap q keeps_version_groups [OF assms] runs_err_or_ok)
      (simp_all add: keeps_version_idle)
qed

text \<open>So at every point of a pass a group that was there has the version it had or the one its Instance gives.\<close>

lemma versions_kept:
  "\<forall>call \<in> set p. keeps_version c k call \<Longrightarrow> G k i = Some g \<Longrightarrow>
   \<exists>g'. fold (groups_after del) p G k i = Some g' \<and> g_version g' \<in> {g_version g, own_version c k}"
proof (induction p rule: rev_induct)
  case Nil
  then show ?case by simp
next
  case (snoc call p)
  then obtain g' where g': "fold (groups_after del) p G k i = Some g'" "g_version g' \<in> {g_version g, own_version c k}"
    by auto
  moreover have "keeps_version c k call" using snoc.prems(1) by simp
  ultimately show ?case
    by (cases "(del, call, fold (groups_after del) p G)" rule: groups_after.cases)
      (auto simp: keeps_version_def merged_def split: option.splits)
qed

section \<open>Reconciles\<close>

text \<open>
  A reconcile of the Instance \<open>i\<close>: the runtime calls Sync only when Validate accepts the Instance as it is then, and
  Sync may stop after any call. The components in \<open>K\<close> run and have a version of their own (the runtime
  resolves a version bundle into the versions of the components before it calls the provider); \<open>del\<close> is what a
  deletion does to a group.
\<close>

inductive reconcile :: "lib \<Rightarrow> string \<Rightarrow> comp set \<Rightarrow> (group \<Rightarrow> group option) \<Rightarrow> groups \<Rightarrow> groups \<Rightarrow> bool"
  for L i K del where
  pass: "cx_lib c = L \<Longrightarrow> c_name c = i \<Longrightarrow> \<forall>k \<in> K. runs_component c k \<and> own_version c k \<noteq> '''' \<Longrightarrow>
    \<forall>h. ev_provider_spec E h = Inr spec \<Longrightarrow> \<forall>k. serves (ev_group E k) (G k) \<Longrightarrow>
    fst (provider_Validate c E h) = Inr () \<Longrightarrow> prefix p (snd (provider_Sync c E' h')) \<Longrightarrow>
    reconcile L i K del G (fold (groups_after del) p G)"

text \<open>Every component of \<open>K\<close> that ran a valid version still runs one, and none that is earlier.\<close>

definition not_behind :: "lib \<Rightarrow> string \<Rightarrow> comp set \<Rightarrow> groups \<Rightarrow> groups \<Rightarrow> bool" where
  "not_behind L i K G G' \<longleftrightarrow> (\<forall>k \<in> K. \<forall>g. G k i = Some g \<longrightarrow> version_valid L (g_version g) \<longrightarrow>
     (\<exists>g'. G' k i = Some g' \<and> version_valid L (g_version g') \<and> 0 \<le> version_cmp L (g_version g') (g_version g)))"

lemma ValidateTiDB_versions:
  assumes "fst (ValidateTiDB c E h) = Inr ()"
  obtains h' where "fst (validateVersions c E h') = Inr ()"
  using ValidateTiDB_InrD(7) [of c E h "snd (ValidateTiDB c E h)"] assms by (metis prod.collapse)

lemma reconcile_not_behind:
  assumes "owner_laws L" "semver_laws L" "reconcile L i K del G G'"
  shows "not_behind L i K G G'"
  unfolding not_behind_def
proof (intro ballI allI impI)
  fix k g
  assume k: "k \<in> K" and g: "G k i = Some g" "version_valid L (g_version g)"
  from assms(3) obtain c E spec h p E' h' where c: "cx_lib c = L" "c_name c = i" "runs_component c k" "own_version c k \<noteq> ''''"
    and E: "\<forall>h. ev_provider_spec E h = Inr spec" "\<forall>k. serves (ev_group E k) (G k)"
    and ok: "fst (ValidateTiDB c E h) = Inr ()" and p: "prefix p (snd (SyncTiDB c E' h'))"
    and G': "G' = fold (groups_after del) p G"
    by (cases rule: reconcile.cases) (use k in \<open>auto simp: provider_Validate_def provider_Sync_def\<close>)
  obtain h1 where "fst (validateVersions c E h1) = Inr ()" using ValidateTiDB_versions [OF ok] .
  moreover have "rd_exists (ev_group E j) h (c_name c) = Inr (G j i)" for j h using E(2) c(2) by (simp add: servesD)
  ultimately have accepted: "no_step_back L v (G k i)" "version_valid L v" if "requested c spec k = Some v" for v
    using that validateVersions_ok [of E spec c "\<lambda>j. G j i" h1] E(1) c(1) by blast+
  have "takes_part c k"
    using c(3) tiflash.runs_optional [of c] tiproxy.runs_optional [of c]
    by (cases k) (auto simp: takes_part_def runs_component_def tiflash.enabled_iff tiproxy.enabled_iff)
  with c(4) have "requested c spec k = Some (own_version c k)" by (simp add: requested_def)
  with accepted g have new: "version_valid L (own_version c k)" "0 \<le> version_cmp L (own_version c k) (g_version g)"
    by (auto simp: no_step_back_def)
  have "\<forall>call \<in> set p. keeps_version c k call"
    using runs_callD [OF SyncTiDB_keeps_version [OF assms(1) [folded c(1)] c(3)]] set_mono_prefix [OF p] by blast
  from versions_kept [OF this, where G = G and i = i and del = del, OF g(1)] obtain g' where
    "G' k i = Some g'" "g_version g' \<in> {g_version g, own_version c k}"
    unfolding G' by blast
  with g(2) new version_cmp_refl [OF assms(2)]
  show "\<exists>g'. G' k i = Some g' \<and> version_valid L (g_version g') \<and> 0 \<le> version_cmp L (g_version g') (g_version g)"
    by auto
qed

lemma not_behind_trans:
  assumes "semver_laws L" "not_behind L i K G G'" "not_behind L i K G' G''"
  shows "not_behind L i K G G''"
  unfolding not_behind_def
proof (intro ballI allI impI)
  fix k g
  assume k: "k \<in> K" and g: "G k i = Some g" "version_valid L (g_version g)"
  then obtain g' where g': "G' k i = Some g'" "version_valid L (g_version g')" "0 \<le> version_cmp L (g_version g') (g_version g)"
    using assms(2) unfolding not_behind_def by blast
  with k obtain g'' where "G'' k i = Some g''" "version_valid L (g_version g'')" "0 \<le> version_cmp L (g_version g'') (g_version g')"
    using assms(3) unfolding not_behind_def by blast
  with g' show "\<exists>g''. G'' k i = Some g'' \<and> version_valid L (g_version g'') \<and> 0 \<le> version_cmp L (g_version g'') (g_version g)"
    using version_cmp_ge_trans [OF assms(1)] by blast
qed

interpretation upgrades: one_way
  "\<lambda>G G'. owner_laws L \<and> semver_laws L \<and> reconcile L i K del G G'" "\<lambda>G G'. semver_laws L \<longrightarrow> not_behind L i K G G'" for L i K del
  by unfold_locales
    (simp add: not_behind_def version_cmp_refl, metis not_behind_trans, metis reconcile_not_behind)

section \<open>Properties\<close>

text \<open>C27: reconciling never takes a component back to an earlier version. Over any sequence of reconciles of an
  Instance, each with a spec, a state of the API server and a point at which Sync stops of its own, a component that ran
  a valid version runs one that is not earlier, TiProxy on its own version line included. It concerns the components
  that keep running and have a version in every one of those specs: a spec without one (and without a bundle that
  gives it) clears the version of the group, and turning TiFlash or TiProxy off removes the group, so that what
  came before is no longer known to Validate.\<close>

theorem reconciles_never_go_back:
  assumes "owner_laws L" "semver_laws L" "(reconcile L i K del)\<^sup>*\<^sup>* G G'"
    and "k \<in> K" "G k i = Some g" "version_valid L (g_version g)"
  shows "\<exists>g'. G' k i = Some g' \<and> version_valid L (g_version g') \<and> 0 \<le> version_cmp L (g_version g') (g_version g)"
proof -
  have "not_behind L i K G G'"
    using upgrades.steps_le [of L i K del G G'] assms(1-3) by simp
  with assms(4-6) show ?thesis unfolding not_behind_def by blast
qed

lemma sample_semver_laws: "semver_laws sample_lib"
  by (auto simp: semver_laws_def)

definition seven_groups :: groups where
  "seven_groups k n = (if n = ''db'' then Some (sample_group k ''v7'' 3) else None)"

lemma seven_reads:
  "ev_provider_spec seven_env h = Inr ''''" "serves (ev_group seven_env k) (seven_groups k)"
  "rd_exists (ev_group seven_env k) h (c_name (versioned_ctx v w)) = Inr (Some (sample_group k ''v7'' 3))"
  "rd_exists (ev_cluster seven_env) h (c_name (versioned_ctx v w)) = Inr None" "ev_rest_mapping seven_env h KCertificate = None"
  by (simp_all add: seven_env_def versioned_ctx_def serves_def seven_groups_def)

lemma versioned_ctx_simps [simp]:
  "c_name (versioned_ctx v w) = ''db''" "c_namespace (versioned_ctx v w) = ''ns''" "cx_lib (versioned_ctx v w) = sample_lib"
  "c_components (versioned_ctx v w) = [''pd'' \<mapsto> zero_component\<lparr>co_version := v\<rparr>, ''tikv'' \<mapsto> zero_component\<lparr>co_version := w\<rparr>,
     ''tidb'' \<mapsto> zero_component\<lparr>co_version := v\<rparr>]"
  "cx_instance (versioned_ctx v w) = sample_instance\<lparr>in_components := c_components (versioned_ctx v w)\<rparr>"
  by (simp_all add: versioned_ctx_def)

lemma eight_accepted: "fst (ValidateTiDB (versioned_ctx ''v8'' ''v8'') seven_env []) = Inr ()"
proof -
  let ?c = "versioned_ctx ''v8'' ''v8''"
  have versions: "fst (validateVersions ?c seven_env h) = Inr ()" for h
  proof -
    have asked: "requested ?c '''' k = (if k \<in> {PD, TiDB, TiKV} then Some ''v8'' else None)" for k
      by (cases k) (simp_all add: requested_def takes_part_def own_version_def component_of_def
          enabledTiFlash_def enabledTiProxy_def)
    have L: "cx_lib ?c = sample_lib" by simp
    have "\<not> (takes_part ?c k \<and> own_version ?c k = '''')" for k
      by (cases k) (simp_all add: takes_part_def own_version_def component_of_def enabledTiFlash_def enabledTiProxy_def)
    then have "\<not> bundle_needed ?c" by (simp add: bundle_needed_def)
    then show ?thesis
      unfolding validateVersions_ok [OF seven_reads(1,3)]
      by (auto simp: asked L upgraded_before_def no_step_back_def version_valid_def version_cmp_def canonicalVersion_def
          has_prefix_def sample_rank_def sample_group_def split: if_splits)
  qed
  have rest: "fst (validateTiKVScaleIn ?c seven_env h) = Inr ()" "fst (validateTiKVMemory ?c seven_env h) = Inr ()"
    "fst (validateMonitoring ?c seven_env h) = Inr ()" "fst (validateTLS ?c seven_env h) = Inr ()"
    "fst (validateStorage ?c seven_env h) = Inr ()" for h
  proof -
    show "fst (validateTiKVScaleIn ?c seven_env h) = Inr ()"
      by (simp add: validateTiKVScaleIn_ok [OF seven_reads(3)] component_of_def sample_group_def defaultTiKVReplicas_def)
    show "fst (validateTiKVMemory ?c seven_env h) = Inr ()" "fst (validateMonitoring ?c seven_env h) = Inr ()"
      by (simp_all add: validateTiKVMemory_def component_of_def validateMonitoring_def has_parameters_def sample_instance_def
          ret_run)
    show "fst (validateTLS ?c seven_env h) = Inr ()"
      by (simp add: validateTLS_ok [OF seven_reads(4,3,5)] tlsSettings_def sample_instance_def zero_TLS_def usesCertManager_def mysql_tls_on_def sample_group_def)
    show "fst (validateStorage ?c seven_env h) = Inr ()"
      by (simp add: validateStorage_ok [OF seven_reads(3)] no_shrink_def sample_group_def component_of_def
          dataVolumeSize_def defaultVolumeSize_def sample_quantity_def)
  qed
  show ?thesis
    by (simp add: ValidateTiDB_def maxClusterNameLength_def missing_component_def component_of_def thn_ok_iff versions rest)
qed

theorem reconciles_never_go_back_witness:
  "\<exists>g. fold (groups_after Map.empty) (snd (provider_Sync (versioned_ctx ''v8'' ''v8'') seven_env [])) seven_groups TiKV ''db'' = Some g \<and>
     version_valid sample_lib (g_version g) \<and> 0 \<le> version_cmp sample_lib (g_version g) ''v7''"
proof -
  let ?c = "versioned_ctx ''v8'' ''v8''" and ?p = "snd (provider_Sync (versioned_ctx ''v8'' ''v8'') seven_env [])"
  have "reconcile sample_lib ''db'' {PD, TiKV, TiDB} Map.empty seven_groups (fold (groups_after Map.empty) ?p seven_groups)"
  proof (rule reconcile.pass)
    show "cx_lib ?c = sample_lib" "c_name ?c = ''db''" by simp_all
    show "\<forall>k \<in> {PD, TiKV, TiDB}. runs_component ?c k \<and> own_version ?c k \<noteq> ''''"
      by (simp add: runs_component_def own_version_def component_of_def)
    show "\<forall>h. ev_provider_spec seven_env h = Inr ''''" "\<forall>k. serves (ev_group seven_env k) (seven_groups k)"
      by (simp_all add: seven_reads)
    show "fst (provider_Validate ?c seven_env []) = Inr ()" by (simp add: provider_Validate_def eight_accepted)
    show "prefix ?p ?p" by simp
  qed
  then have "(reconcile sample_lib ''db'' {PD, TiKV, TiDB} Map.empty)\<^sup>*\<^sup>* seven_groups (fold (groups_after Map.empty) ?p seven_groups)"
    by simp
  from reconciles_never_go_back [OF sample_owner_laws sample_semver_laws this, of TiKV "sample_group TiKV ''v7'' 3"]
  show ?thesis
    by (simp add: seven_groups_def sample_group_def version_valid_def canonicalVersion_def has_prefix_def sample_rank_def)
qed

text \<open>Why every spec has to have a version: one without clears that of the group, and over such a group any
  valid version is accepted.\<close>

definition cleared_env :: env where
  "cleared_env = env_of (empty_store\<lparr>so_group := \<lambda>k n. if n = ''db'' then Some (sample_group k '''' 3) else None\<rparr>)"

lemma cleared_version_forgets:
  "fst (validateVersions (versioned_ctx '''' '''') seven_env []) = Inr ()"
  "g_version (buildTiKVGroup (versioned_ctx '''' '''') (component_of (c_components (versioned_ctx '''' '''')) TiKV) img) = ''''"
  "fst (validateVersions (versioned_ctx ''v6'' ''v6'') cleared_env []) = Inr ()"
proof -
  have reads: "ev_provider_spec cleared_env h = Inr ''''"
    "rd_exists (ev_group cleared_env k) h (c_name (versioned_ctx v w)) = Inr (Some (sample_group k '''' 3))" for h k v w
    by (simp_all add: cleared_env_def)
  have asked: "requested (versioned_ctx v v) '''' k = (if k \<in> {PD, TiDB, TiKV} \<and> v \<noteq> '''' then Some v else None)" for v k
    by (cases k) (simp_all add: requested_def takes_part_def own_version_def component_of_def
        enabledTiFlash_def enabledTiProxy_def bundle_versions_def bundle_version_def lookup_str_def)
  have L: "cx_lib (versioned_ctx v v) = sample_lib" for v by simp
  have none: "bundle_versions (versioned_ctx v v) '''' = Inr (Some Map.empty)" for v
    by (simp add: bundle_versions_def)
  show "fst (validateVersions (versioned_ctx '''' '''') seven_env []) = Inr ()"
    unfolding validateVersions_ok [OF seven_reads(1,3)] by (simp add: asked none)
  show "g_version (buildTiKVGroup (versioned_ctx '''' '''') (component_of (c_components (versioned_ctx '''' '''')) TiKV) img) = ''''"
    by (simp add: built_versions component_of_def)
  show "fst (validateVersions (versioned_ctx ''v6'' ''v6'') cleared_env []) = Inr ()"
    unfolding validateVersions_ok [OF reads]
    by (auto simp: asked none L upgraded_before_def no_step_back_def version_valid_def version_cmp_def canonicalVersion_def
        has_prefix_def sample_rank_def sample_group_def split: if_splits)
qed

end
