(* ===== verification/Spec2Isabelle.thy ===== *)
theory Spec2Isabelle
  imports Desired TrustChain Teardown EntryPoint Isolation Settled Upgrades
begin

text \<open>
  A model of the OpenEverest provider for TiDB (the Go module under src/), with the theorems that make
  it correct.

  The program. OpenEverest describes a database as an Instance; the provider turns it into
  resources of TiDB Operator v2 (a Cluster and a group per component) and back into a status. The
  OpenEverest runtime calls the provider's Validate, Sync, Status, Cleanup, SyncBackup, SyncRestore
  and so on, each with a Context that reads and writes Kubernetes objects. Nothing is kept in memory
  between two calls: all state is in the cluster, so what an operation does is the value it
  returns and the sequence of calls it makes.

  How it is modelled.
    Prelude: lists, strings, Go arithmetic and formatting, the proof collections, and the locales
      one_way (steps along a preorder) and guarded_update (updates that a check lets through).
    Objects: the objects the provider reads and writes, as records, and the parameter types of
      src/internal/common and src/definition.
    Runtime: everything outside the repository. Pure library functions are the fields of a lib;
      the cluster, the clock, random numbers and certificates are an env, whose answers may depend
      on the whole history of calls. An operation is a function of env and history that gives an error or
      a value, and the calls made. The predicates calls_in, runs, marks and precedes say what calls
      an operation can make, what values it can return and in what order it calls.
    Samples: a concrete lib and env for the witnesses.
    Components: helpers of sync.go (optional components, replicas, volumes, images).
    Versions: validate_versions.go.          TomlConfig: the TOML edits of tikv_sizing.go,
    TikvSizing: tikv_sizing.go.                tiproxy_config.go and session_token.go.
    Capacity: validate_storage.go and validate_replicas.go.
    Calendar, BackupSchedule: backup_schedule.go, the scheduler's reconcile loop.
    TlsSettings, Authority, Certificates: tls.go and tls_certmanager.go (Authority: the CA, its templates,
      PEM and parsing back).
    SessionToken: session_token.go.          Credentials: credentials.go.
    ServerSideApply: the server-side apply of sync.go and backup_rbac.go.
    ComponentGroups: the objects of sync.go and pd_dns.go.
    Status: status.go.                       Monitor: monitoring.go.
    Backups, Restores: backup.go and backup_rbac.go.
    Pitr: pitr.go.                           Recovery: what backup.go and pitr.go guarantee together.
    Sync: SyncTiDB of sync.go.               Validate: validate.go.
    Provider: provider.go.                   Permissions: rbac.go.
    Watches: New of provider.go, BackupWatches and RestoreWatches of backup.go, SetupBackupScheduler of
      backup_schedule.go.                    EntryPoint: src/cmd/provider/main.go.
  The other theories hold no code of their own but what operations do together:
    Replay: the state a sequence of calls leaves behind, call by call (always, ends_in).
    Effects: the kinds of call each operation can make (only).
    TrustChain: the certificates of an Instance over all passes.
    Desired: the component groups an Instance asks for, as an abstract cluster.
    Settled: two passes in a row.             Isolation: two Instances in one namespace.
    Upgrades: Validate and Sync in turns, as far as versions go.
    Teardown: Cleanup interleaved with TiDB Operator.
  A definition has the name of the Go function it models. Parts of a long function are definitions
  of their own, and a loop is a recursive function over the list it ranges over. A Go map that is
  only looked up is an Isabelle map; one that is ranged over is an association list, so a theorem
  about it holds for every order. A nil pointer is None, an int32 a mathematical integer (none
  is computed with beyond comparison), a TSO a 64-bit word, a time its nanoseconds since 1970.

  What the lemmas show.
    Validation: Versions, Capacity, TikvSizing and TlsSettings say what each check accepts (Versions and
      TlsSettings exactly), and, for sequences of requests, that no volume shrinks and TiKV keeps the copies PD
      places. Validate puts them together: an accepted Instance is built into groups its cluster can take.
      Over any sequence of reconciles, passes that stop half way included, a component that keeps running with
      a version in every spec is never taken back to an earlier one (Upgrades).
    Sync: one pass brings a cluster up in a fixed order (Sync) and takes the component groups to what the
      Instance asks for (Desired), whatever they were, except that a group that is being deleted already gets
      its spec but still goes; the next pass finds nothing to change (Settled), and
      passes over two Instances write different objects (Isolation). Over any number of passes the
      frozen fields, the feature gates, the PD init container and the root password change only as they
      may (ComponentGroups, SessionToken, Credentials). The applied configuration claims the fields that
      are set and no other (ServerSideApply).
    Certificates, as far as the provider issues them itself: they are never replaced (Certificates), the CA read
      back from its Secret is the one that was generated (Authority), and at every point of any sequence of
      passes each certificate of a cluster verifies against its CA, a certificate that is allowed to sign
      (TrustChain). Those of cert-manager and those others put into the Secrets are not covered.
    Backups: the scheduler's slots, names and retention (BackupSchedule), the round trip from a backup to
      its restore over SyncBackup and SyncRestore (Restores), and what starts when and on what base (Recovery).
    Teardown and status: what Ready and a finished Cleanup mean (Status, Provider); in every interleaving
      with TiDB Operator the log backup is stopped before the Cluster goes and a teardown can be
      completed (Teardown).
    The runtime's side: every call of every operation is allowed by the markers of rbac.go (Permissions), and
      Status, Cleanup and the scheduler look only at objects whose changes wake them up (Watches), with the
      exception of the Secrets behind the connection details of a ready Instance, which no watch covers.

  Parameters and their laws. Each law is a predicate on the lib or the env that states documented behaviour:
  semver_laws, quantity_laws, toml_roundtrip, rfc3339_laws, cron_laws and every_laws, go_time_law, meta_laws and owner_laws
  (SetControllerReference), pem_laws and x509_laws (PEM and X.509 encode what they parse; a
  signature is checked as CheckSignatureFrom does, which refuses a parent that is no CA), random_law,
  truthful_env (an object that is read has the name it was asked for), finalizer_law, deletions_laws
  and operator_laws (what TiDB Operator and the API server do with deleted objects). Each holds of the sample lib
  or env or of a variant of it in the witnesses. Where a theorem needs reads
  that do not change during one operation it says so (serves, or an equation for every history); the others
  hold whatever the cluster answers.

  Bounds and fuel. Every function is total. The scheduler's search for the latest slot is the only
  loop of the program whose end depends on a library (the schedule's Next), so slot_loop is a partial
  function whose value is None when it does not return, and latestSlot_spec proves that it returns for every
  schedule of activation times (cron_laws), latestSlot_every for
  every "@every" schedule. A run of the scheduler that does not return would be the error NoReturn.

  Not modelled. gen.go and definition/types.go hold a directive and a package clause, and the BR parameter
  structs of definition/backupclasses are empty and read by the schema generator only. Key generation,
  signing, X.509 and PEM are the work of crypto libraries: they are parameters under the laws
  above, so what a certificate contains is modelled and its bytes are not. Log messages are left
  out. The scheduler's calendar is that of UTC, the zone of the image the Dockerfile builds. Concurrency is
  that of the cluster: two passes over one Instance never run
  at once, and other writers appear as answers that depend on the history.
\<close>

end
